(* ===== verification/Keli_Prelude.thy ===== *)
theory Keli_Prelude
  imports Main "HOL-Library.Word" "HOL-Library.AList"
begin

text \<open>
  Shared vocabulary of the development: machine integers, byte strings, the three ways a Rust
  call can end (\<open>Ok\<close>, \<open>Err\<close>, panic), operations that thread a mutable state, hash maps, and the
  generic lemmas and rules the component theories use.
\<close>

unbundle bit_operations_syntax

named_theorems outcome_simps \<open>evaluation of fallible computations\<close>
named_theorems op_simps \<open>evaluation of stateful operations\<close>
named_theorems triple_rules \<open>introduction rules for triples\<close>

section \<open>Machine types\<close>

type_synonym u8 = "8 word"
type_synonym u16 = "16 word"
type_synonym u32 = "32 word"
type_synonym u64 = "64 word"
type_synonym u128 = "128 word"
type_synonym usize = nat
type_synonym bytes = "u8 list"

lemma unat_u8_less [simp]: "unat (b :: u8) < 256"
  using unsigned_less [of b, where ?'a = nat] by simp

lemma unat_u16_less [simp]: "unat (w :: u16) < 65536"
  using unsigned_less [of w, where ?'a = nat] by simp

lemma unat_u32_less: "unat (w :: u32) < 2 ^ 32"
  using unsigned_less [of w, where ?'a = nat] by simp

lemma unat_ucast_up:
  assumes "LENGTH('a) \<le> LENGTH('b)"
  shows "unat (ucast (w :: 'a::len word) :: 'b::len word) = unat w"
proof -
  have "unat w < 2 ^ LENGTH('b)"
    using unsigned_less [of w, where ?'a = nat] assms
    by (meson less_le_trans one_le_numeral power_increasing)
  then show ?thesis
    by (simp add: unsigned_ucast_eq take_bit_nat_eq_self)
qed

lemma unat_u8_le: "unat (b :: u8) \<le> 255"
  using unat_u8_less [of b] by linarith

lemma unat_u16_le: "unat (w :: u16) \<le> 65535"
  using unat_u16_less [of w] by linarith

text \<open>
  A Rust \<open>String\<close> is its UTF-8 byte sequence, so it is a \<open>char list\<close> here. An \<open>Instant\<close> and a
  \<open>Duration\<close> are counts of nanoseconds.
\<close>

type_synonym instant = nat
type_synonym duration = nat

definition saturating_duration_since :: "instant \<Rightarrow> instant \<Rightarrow> duration" where
  "saturating_duration_since now earlier = now - earlier"

definition bytes_of_str :: "string \<Rightarrow> bytes" where
  "bytes_of_str s = map (\<lambda>c. of_nat (of_char c)) s"

definition str_of_bytes :: "bytes \<Rightarrow> string" where
  "str_of_bytes bs = map (\<lambda>b. char_of (unat b)) bs"

section \<open>Outcomes of a Rust call\<close>

text \<open>
  \<open>Result<A, E>\<close> gives \<open>Ok\<close> and \<open>Err\<close>; an index out of range, a slice out of range or an
  arithmetic overflow of a checked operator gives \<open>Panic\<close>.
\<close>

datatype ('e, 'a) outcome = Ok 'a | Err 'e | Panic

fun obind :: "('e, 'a) outcome \<Rightarrow> ('a \<Rightarrow> ('e, 'b) outcome) \<Rightarrow> ('e, 'b) outcome" where
  "obind (Ok x) f = f x"
| "obind (Err e) f = Err e"
| "obind Panic f = Panic"

fun map_err :: "('e \<Rightarrow> 'f) \<Rightarrow> ('e, 'a) outcome \<Rightarrow> ('f, 'a) outcome" where
  "map_err g (Ok x) = Ok x"
| "map_err g (Err e) = Err (g e)"
| "map_err g Panic = Panic"

fun ok_or :: "'a option \<Rightarrow> 'e \<Rightarrow> ('e, 'a) outcome" where
  "ok_or (Some x) e = Ok x"
| "ok_or None e = Err e"

lemma obind_cong [fundef_cong]:
  assumes "m = m'" and "\<And>x. m' = Ok x \<Longrightarrow> f x = f' x"
  shows "obind m f = obind m' f'"
  using assms by (cases m') simp_all

lemma obind_Ok_iff [outcome_simps]: "obind m f = Ok y \<longleftrightarrow> (\<exists>x. m = Ok x \<and> f x = Ok y)"
  by (cases m) simp_all

lemma obind_Err_iff [outcome_simps]:
  "obind m f = Err e \<longleftrightarrow> m = Err e \<or> (\<exists>x. m = Ok x \<and> f x = Err e)"
  by (cases m) simp_all

lemma obind_Panic_iff [outcome_simps]:
  "obind m f = Panic \<longleftrightarrow> m = Panic \<or> (\<exists>x. m = Ok x \<and> f x = Panic)"
  by (cases m) simp_all

lemma obind_assoc: "obind (obind m f) g = obind m (\<lambda>x. obind (f x) g)"
  by (cases m) simp_all

lemma map_err_Ok_iff [simp]: "map_err g m = Ok x \<longleftrightarrow> m = Ok x"
  by (cases m) simp_all

lemma map_err_Panic_iff [simp]: "map_err g m = Panic \<longleftrightarrow> m = Panic"
  by (cases m) simp_all

lemma map_err_Err_iff [simp]: "map_err g m = Err e \<longleftrightarrow> (\<exists>e'. m = Err e' \<and> e = g e')"
  by (cases m) auto

lemma ok_or_Ok_iff [simp]: "ok_or m e = Ok x \<longleftrightarrow> m = Some x"
  by (cases m) simp_all

lemma ok_or_Err_iff [simp]: "ok_or m e = Err e' \<longleftrightarrow> m = None \<and> e' = e"
  by (cases m) auto

lemma ok_or_not_Panic [simp]: "ok_or m e \<noteq> Panic"
  by (cases m) simp_all

section \<open>Checked accesses\<close>

text \<open>Indexing, slicing and the checked operators: each panics where Rust does.\<close>

definition index :: "'a list \<Rightarrow> usize \<Rightarrow> ('e, 'a) outcome" where
  "index xs i = (if i < length xs then Ok (xs ! i) else Panic)"

definition slice :: "'a list \<Rightarrow> usize \<Rightarrow> usize \<Rightarrow> ('e, 'a list) outcome" where
  "slice xs a b = (if a \<le> b \<and> b \<le> length xs then Ok (take (b - a) (drop a xs)) else Panic)"

definition slice_from :: "'a list \<Rightarrow> usize \<Rightarrow> ('e, 'a list) outcome" where
  "slice_from xs a = (if a \<le> length xs then Ok (drop a xs) else Panic)"

text \<open>\<open>xs.get(a..b)\<close>: the slice, or \<open>None\<close> when it does not fit.\<close>

definition get_range :: "'a list \<Rightarrow> usize \<Rightarrow> usize \<Rightarrow> 'a list option" where
  "get_range xs a b = (if a \<le> b \<and> b \<le> length xs then Some (take (b - a) (drop a xs)) else None)"

text \<open>\<open>buf[a..b].copy_from_slice(src)\<close>.\<close>

definition copy_from_slice :: "usize \<Rightarrow> usize \<Rightarrow> 'a list \<Rightarrow> 'a list \<Rightarrow> ('e, 'a list) outcome" where
  "copy_from_slice a b src buf =
     (if a \<le> b \<and> b \<le> length buf \<and> length src = b - a
      then Ok (take a buf @ src @ drop b buf) else Panic)"

definition set_index :: "usize \<Rightarrow> 'a \<Rightarrow> 'a list \<Rightarrow> ('e, 'a list) outcome" where
  "set_index i v buf = (if i < length buf then Ok (buf[i := v]) else Panic)"

definition checked_sub :: "usize \<Rightarrow> usize \<Rightarrow> ('e, usize) outcome" where
  "checked_sub a b = (if b \<le> a then Ok (a - b) else Panic)"

definition add_u32 :: "u32 \<Rightarrow> u32 \<Rightarrow> ('e, u32) outcome" where
  "add_u32 a b = (if unat a + unat b < 2 ^ 32 then Ok (a + b) else Panic)"

lemma index_Ok [outcome_simps]: "i < length xs \<Longrightarrow> index xs i = Ok (xs ! i)"
  by (simp add: index_def)

lemma slice_Ok [outcome_simps]:
  "a \<le> b \<Longrightarrow> b \<le> length xs \<Longrightarrow> slice xs a b = Ok (take (b - a) (drop a xs))"
  by (simp add: slice_def)

lemma slice_from_Ok [outcome_simps]: "a \<le> length xs \<Longrightarrow> slice_from xs a = Ok (drop a xs)"
  by (simp add: slice_from_def)

lemma set_index_take_drop:
  "set_index i v buf = (if i < length buf then Ok (take i buf @ v # drop (Suc i) buf) else Panic)"
  by (simp add: set_index_def upd_conv_take_nth_drop)

lemma slice_from_append: "length h = a \<Longrightarrow> slice_from (h @ rest) a = Ok rest"
  by (auto simp: slice_from_def)

lemma slice_prefix: "length h = a \<Longrightarrow> slice (h @ rest) 0 a = Ok h"
  by (auto simp: slice_def)

lemma index_neq_Err [simp]: "index xs i \<noteq> Err e"
  by (simp add: index_def)

lemma slice_neq_Err [simp]: "slice xs a b \<noteq> Err e"
  by (simp add: slice_def)

section \<open>Big-endian encodings\<close>

primrec be_bytes :: "nat \<Rightarrow> 'a::len word \<Rightarrow> bytes" where
  "be_bytes 0 w = []"
| "be_bytes (Suc n) w = ucast (drop_bit (8 * n) w) # be_bytes n w"

definition be_step :: "'a::len word \<Rightarrow> u8 \<Rightarrow> 'a word" where
  "be_step acc b = push_bit 8 acc OR ucast b"

definition from_be_bytes :: "bytes \<Rightarrow> 'a::len word" where
  "from_be_bytes bs = foldl be_step 0 bs"

abbreviation u16_to_be_bytes :: "u16 \<Rightarrow> bytes" where
  "u16_to_be_bytes w \<equiv> be_bytes 2 w"

abbreviation u32_to_be_bytes :: "u32 \<Rightarrow> bytes" where
  "u32_to_be_bytes w \<equiv> be_bytes 4 w"

text \<open>\<open>uN::from_be_bytes([bs[i], ..])\<close>: each index is checked.\<close>

definition read_u16 :: "bytes \<Rightarrow> usize \<Rightarrow> ('e, u16) outcome" where
  "read_u16 bs i = obind (index bs i) (\<lambda>a. obind (index bs (i + 1)) (\<lambda>b.
     Ok (from_be_bytes [a, b])))"

definition read_u32 :: "bytes \<Rightarrow> usize \<Rightarrow> ('e, u32) outcome" where
  "read_u32 bs i = obind (index bs i) (\<lambda>a. obind (index bs (i + 1)) (\<lambda>b.
     obind (index bs (i + 2)) (\<lambda>c. obind (index bs (i + 3)) (\<lambda>d.
     Ok (from_be_bytes [a, b, c, d])))))"

lemma read_u16_Ok [outcome_simps]:
  "i + 1 < length bs \<Longrightarrow> read_u16 bs i = Ok (from_be_bytes [bs ! i, bs ! (i + 1)])"
  by (simp add: read_u16_def index_def)

lemma read_u32_Ok [outcome_simps]:
  "i + 3 < length bs \<Longrightarrow>
    read_u32 bs i = Ok (from_be_bytes [bs ! i, bs ! (i + 1), bs ! (i + 2), bs ! (i + 3)])"
  by (simp add: read_u32_def index_def)

lemma length_be_bytes [simp]: "length (be_bytes n w) = n"
  by (induction n) simp_all

lemma be_step_bytes:
  "foldl be_step acc (be_bytes n w) = push_bit (8 * n) acc OR take_bit (8 * n) w"
proof (induction n arbitrary: acc)
  case 0
  then show ?case by simp
next
  case (Suc n)
  have "push_bit (8 * n) (be_step acc (ucast (drop_bit (8 * n) w))) OR take_bit (8 * n) w =
      push_bit (8 * Suc n) acc OR take_bit (8 * Suc n) w"
    unfolding be_step_def by (rule bit_word_eqI) (auto simp: bit_simps not_less not_le ac_simps)
  with Suc show ?case
    by simp
qed

text \<open>Encoding a word on enough bytes and reading it back gives the word.\<close>

lemma from_be_bytes_be_bytes:
  "LENGTH('a::len) \<le> 8 * n \<Longrightarrow> from_be_bytes (be_bytes n (w :: 'a word)) = w"
  by (simp add: from_be_bytes_def be_step_bytes take_bit_word_eq_self)

lemma from_be_bytes_u16 [simp]: "from_be_bytes (be_bytes 2 w) = (w :: u16)"
  and from_be_bytes_u32 [simp]: "from_be_bytes (be_bytes 4 (v :: u32)) = v"
  and from_be_bytes_u128 [simp]: "from_be_bytes (be_bytes 16 (x :: u128)) = x"
  by (simp_all add: from_be_bytes_be_bytes)

lemma be_bytes_u16: "be_bytes 2 w = [ucast (drop_bit 8 w), ucast w]"
  by (simp add: numeral_2_eq_2)

lemma be_bytes_u32: "be_bytes 4 w = [ucast (drop_bit 24 w), ucast (drop_bit 16 w), ucast (drop_bit 8 w), ucast w]"
  by (simp add: eval_nat_numeral)

lemma from_be_bytes_fields:
  "from_be_bytes [ucast (drop_bit 8 w), ucast w] = (w :: u16)"
  "from_be_bytes [ucast (drop_bit 24 v), ucast (drop_bit 16 v), ucast (drop_bit 8 v), ucast v] = (v :: u32)"
  using from_be_bytes_u16 [of w] from_be_bytes_u32 [of v] by (simp_all only: be_bytes_u16 be_bytes_u32)

lemma from_be_bytes_zero: "from_be_bytes [0, 0] = (0 :: u16)"
  by (simp add: from_be_bytes_def be_step_def)

lemma unat_of_nat_u16: "n < 65536 \<Longrightarrow> unat (of_nat n :: u16) = n"
  by (simp add: unat_of_nat)

section \<open>Bounded histories\<close>

text \<open>A push that drops the oldest entries beyond a limit, and what is left of a history.\<close>

definition push_bounded :: "usize \<Rightarrow> 'a \<Rightarrow> 'a list \<Rightarrow> 'a list" where
  "push_bounded limit x xs =
     (let xs' = xs @ [x] in if length xs' > limit then drop (length xs' - limit) xs' else xs')"

definition most_recent :: "nat \<Rightarrow> 'a list \<Rightarrow> 'a list" where
  "most_recent n xs = drop (length xs - n) xs"

lemma push_most_recent: "push_bounded n x (most_recent n xs) = most_recent n (xs @ [x])"
  by (auto simp: push_bounded_def most_recent_def Let_def Suc_diff_le not_le_imp_less)

section \<open>Saturating counters\<close>

definition saturating_add :: "'a::len word \<Rightarrow> 'a word \<Rightarrow> 'a word" where
  "saturating_add a b = (if unat a + unat b < 2 ^ LENGTH('a) then a + b else - 1)"

text \<open>The largest value a counter of the given width holds instead of \<open>n\<close>.\<close>

definition saturated :: "nat \<Rightarrow> nat \<Rightarrow> nat" where
  "saturated width n = min (2 ^ width - 1) n"

lemma unat_saturating_add:
  fixes a b :: "'a::len word"
  shows "unat (saturating_add a b) = saturated LENGTH('a) (unat a + unat b)"
proof (cases "unat a + unat b < 2 ^ LENGTH('a)")
  case True
  then show ?thesis by (simp add: saturating_add_def saturated_def unat_add_lem [THEN iffD1])
next
  case False
  then show ?thesis by (simp add: saturating_add_def saturated_def unsigned_minus_1_eq_mask mask_eq_exp_minus_1)
qed

lemma saturated_step: "saturated w (saturated w m + n) = saturated w (m + n)"
  by (auto simp: saturated_def min_def)

lemma saturated_0 [simp]: "saturated w 0 = 0"
  by (simp add: saturated_def)

end
