(* ===== verification/Keli_Effects.thy ===== *)
theory Keli_Effects
  imports Keli_Prelude
begin

text \<open>
  Operations on a mutable receiver. A Rust method \<open>fn f(&mut self, ..) -> Result<A, E>\<close> is a function
  of the receiver's state that returns its outcome together with the state it leaves behind, also
  when it fails half-way. The rules for triples let a long operation be verified call by call.
  The contracts of a hash map and of an event-driven state are locales, interpreted here and in the
  component theories.
\<close>

section \<open>Stateful operations\<close>

type_synonym ('s, 'e, 'a) op = "'s \<Rightarrow> ('e, 'a) outcome \<times> 's"

definition ret :: "'a \<Rightarrow> ('s, 'e, 'a) op" where
  "ret x = (\<lambda>s. (Ok x, s))"

definition lift :: "('e, 'a) outcome \<Rightarrow> ('s, 'e, 'a) op" where
  "lift r = (\<lambda>s. (r, s))"

definition sbind :: "('s, 'e, 'a) op \<Rightarrow> ('a \<Rightarrow> ('s, 'e, 'b) op) \<Rightarrow> ('s, 'e, 'b) op" where
  "sbind m f = (\<lambda>s. case m s of
      (Ok x, s') \<Rightarrow> f x s'
    | (Err e, s') \<Rightarrow> (Err e, s')
    | (Panic, s') \<Rightarrow> (Panic, s'))"

text \<open>\<open>if let Some(x) = m? { return k(x) } rest\<close>.\<close>

definition if_some :: "('s, 'e, 'a option) op \<Rightarrow> ('a \<Rightarrow> ('s, 'e, 'b) op) \<Rightarrow> ('s, 'e, 'b) op
    \<Rightarrow> ('s, 'e, 'b) op" where
  "if_some m k rest = sbind m (\<lambda>x. case x of Some y \<Rightarrow> k y | None \<Rightarrow> rest)"

text \<open>\<open>m.map_err(g)\<close>, also used for the implicit \<open>From\<close> conversion of the \<open>?\<close> operator.\<close>

definition with_err :: "('e \<Rightarrow> 'f) \<Rightarrow> ('s, 'e, 'a) op \<Rightarrow> ('s, 'f, 'a) op" where
  "with_err g m = (\<lambda>s. case m s of (r, s') \<Rightarrow> (map_err g r, s'))"

text \<open>An operation on the first or on the second of two receivers.\<close>

definition on_fst :: "('s, 'e, 'a) op \<Rightarrow> ('s \<times> 't, 'e, 'a) op" where
  "on_fst m = (\<lambda>(s, t). case m s of (r, s') \<Rightarrow> (r, (s', t)))"

definition on_snd :: "('t, 'e, 'a) op \<Rightarrow> ('s \<times> 't, 'e, 'a) op" where
  "on_snd m = (\<lambda>(s, t). case m t of (r, t') \<Rightarrow> (r, (s, t')))"

lemma ret_apply [op_simps]: "ret x s = (Ok x, s)"
  by (simp add: ret_def)

lemma lift_apply [op_simps]: "lift r s = (r, s)"
  by (simp add: lift_def)

lemma sbind_apply [op_simps]:
  "m s = (Ok x, s') \<Longrightarrow> sbind m f s = f x s'"
  "m s = (Err e, s') \<Longrightarrow> sbind m f s = (Err e, s')"
  "m s = (Panic, s') \<Longrightarrow> sbind m f s = (Panic, s')"
  by (simp_all add: sbind_def)

lemma if_some_apply [op_simps]:
  "m s = (Ok (Some x), s') \<Longrightarrow> if_some m k rest s = k x s'"
  "m s = (Ok None, s') \<Longrightarrow> if_some m k rest s = rest s'"
  "m s = (Err e, s') \<Longrightarrow> if_some m k rest s = (Err e, s')"
  "m s = (Panic, s') \<Longrightarrow> if_some m k rest s = (Panic, s')"
  by (simp_all add: if_some_def sbind_def)

lemma with_err_apply [op_simps]: "m s = (r, s') \<Longrightarrow> with_err g m s = (map_err g r, s')"
  by (simp add: with_err_def)

lemma on_fst_apply [op_simps]: "m s = (r, s') \<Longrightarrow> on_fst m (s, t) = (r, (s', t))"
  by (simp add: on_fst_def)

lemma on_snd_apply [op_simps]: "m t = (r, t') \<Longrightarrow> on_snd m (s, t) = (r, (s, t'))"
  by (simp add: on_snd_def)

section \<open>Triples\<close>

text \<open>
  \<open>triple P m Q\<close>: from a state that satisfies \<open>P\<close>, running \<open>m\<close> gives an outcome and a state that
  satisfy \<open>Q\<close>. Operations are total functions, so this is total correctness.
\<close>

definition triple :: "('s \<Rightarrow> bool) \<Rightarrow> ('s, 'e, 'a) op \<Rightarrow> (('e, 'a) outcome \<Rightarrow> 's \<Rightarrow> bool) \<Rightarrow> bool" where
  "triple P m Q \<longleftrightarrow> (\<forall>s. P s \<longrightarrow> (case m s of (r, s') \<Rightarrow> Q r s'))"

lemma tripleI: "(\<And>s r s'. P s \<Longrightarrow> m s = (r, s') \<Longrightarrow> Q r s') \<Longrightarrow> triple P m Q"
  by (auto simp: triple_def)

lemma tripleD: "triple P m Q \<Longrightarrow> P s \<Longrightarrow> m s = (r, s') \<Longrightarrow> Q r s'"
  by (auto simp: triple_def)

lemma triple_weaken:
  "triple P m Q \<Longrightarrow> (\<And>s. P' s \<Longrightarrow> P s) \<Longrightarrow> (\<And>r s. Q r s \<Longrightarrow> Q' r s) \<Longrightarrow> triple P' m Q'"
  by (fastforce simp: triple_def)

lemma triple_conj: "triple P m Q \<Longrightarrow> triple P m R \<Longrightarrow> triple P m (\<lambda>r s. Q r s \<and> R r s)"
  by (fastforce simp: triple_def)

lemma triple_ret [triple_rules]: "(\<And>s. P s \<Longrightarrow> Q (Ok x) s) \<Longrightarrow> triple P (ret x) Q"
  by (simp add: triple_def ret_def)

lemma triple_lift [triple_rules]: "(\<And>s. P s \<Longrightarrow> Q r s) \<Longrightarrow> triple P (lift r) Q"
  by (simp add: triple_def lift_def)

lemma triple_sbind:
  assumes "triple P m R" and "\<And>x. triple (R (Ok x)) (f x) Q"
    and "\<And>e s. R (Err e) s \<Longrightarrow> Q (Err e) s" and "\<And>s. R Panic s \<Longrightarrow> Q Panic s"
  shows "triple P (sbind m f) Q"
proof (rule tripleI)
  fix s r s' assume "P s" and run: "sbind m f s = (r, s')"
  obtain q t where m: "m s = (q, t)" by fastforce
  with assms(1) \<open>P s\<close> have "R q t" by (auto dest: tripleD)
  with assms(2-) m run show "Q r s'"
    by (cases q) (auto simp: sbind_def dest: tripleD)
qed

lemma triple_if_some:
  assumes "triple P m R" and "\<And>x. triple (R (Ok (Some x))) (k x) Q"
    and "triple (R (Ok None)) rest Q"
    and "\<And>e s. R (Err e) s \<Longrightarrow> Q (Err e) s" and "\<And>s. R Panic s \<Longrightarrow> Q Panic s"
  shows "triple P (if_some m k rest) Q"
  unfolding if_some_def using assms
  by (intro triple_sbind [OF assms(1)]) (auto split: option.split)

lemma triple_if [triple_rules]:
  "(b \<Longrightarrow> triple P m Q) \<Longrightarrow> (\<not> b \<Longrightarrow> triple P m' Q) \<Longrightarrow> triple P (if b then m else m') Q"
  by simp

lemma triple_with_err [triple_rules]:
  "triple P m (\<lambda>r. Q (map_err g r)) \<Longrightarrow> triple P (with_err g m) Q"
  by (fastforce simp: triple_def with_err_def split: prod.splits)

lemma triple_on_fst:
  "(\<And>t. triple (\<lambda>s. P (s, t)) m (\<lambda>r s. Q r (s, t))) \<Longrightarrow> triple P (on_fst m) Q"
  by (fastforce simp: triple_def on_fst_def split: prod.splits)

lemma triple_on_snd:
  "(\<And>s. triple (\<lambda>t. P (s, t)) m (\<lambda>r t. Q r (s, t))) \<Longrightarrow> triple P (on_snd m) Q"
  by (fastforce simp: triple_def on_snd_def split: prod.splits)

section \<open>Hash maps\<close>

text \<open>
  A \<open>HashMap\<close> is an association list with distinct keys: insertion replaces the value of a key that
  is present, \<open>len\<close> is the length, and iteration visits the entries in list order (Rust leaves the
  order open, and no property of the development depends on it).
\<close>

type_synonym ('k, 'v) hash_map = "('k \<times> 'v) list"

locale hash_map =
  fixes empty :: 'm
    and get :: "'m \<Rightarrow> 'k \<Rightarrow> 'v option"
    and insert :: "'k \<Rightarrow> 'v \<Rightarrow> 'm \<Rightarrow> 'm"
    and remove :: "'k \<Rightarrow> 'm \<Rightarrow> 'm"
    and len :: "'m \<Rightarrow> nat"
    and invar :: "'m \<Rightarrow> bool"
  assumes get_empty: "get empty k = None"
    and get_insert: "invar m \<Longrightarrow> get (insert k v m) = (get m)(k \<mapsto> v)"
    and get_remove: "invar m \<Longrightarrow> get (remove k m) = (get m)(k := None)"
    and len_empty: "len empty = 0"
    and len_insert: "invar m \<Longrightarrow>
      len (insert k v m) = (if get m k = None then Suc (len m) else len m)"
    and len_remove: "invar m \<Longrightarrow>
      len (remove k m) = (if get m k = None then len m else len m - 1)"
    and invar_empty: "invar empty"
    and invar_insert: "invar m \<Longrightarrow> invar (insert k v m)"
    and invar_remove: "invar m \<Longrightarrow> invar (remove k m)"
begin

lemma insert_within_limit:
  assumes "invar m" and "len m \<le> n" and "get m k \<noteq> None \<or> len m < n"
  shows "len (insert k v m) \<le> n"
  using assms by (auto simp: len_insert)

lemma replace_keeps_len: "invar m \<Longrightarrow> get m k = Some v \<Longrightarrow> len (insert k v' m) = len m"
  by (simp add: len_insert)

lemma remove_within_limit: "invar m \<Longrightarrow> len m \<le> n \<Longrightarrow> len (remove k m) \<le> n"
  by (auto simp: len_remove)

lemma insert_keeps_entries:
  assumes "invar m" and "\<And>k v. get m k = Some v \<Longrightarrow> P k v" and "P k v"
    and "get (insert k v m) k' = Some v'"
  shows "P k' v'"
  using assms by (auto simp: get_insert split: if_splits)

lemma remove_keeps_entries:
  assumes "invar m" and "\<And>k v. get m k = Some v \<Longrightarrow> P k v"
    and "get (remove k m) k' = Some v'"
  shows "P k' v'"
  using assms by (auto simp: get_remove split: if_splits)

end

lemma length_delete_distinct:
  "distinct (map fst m) \<Longrightarrow>
    length (AList.delete k m) = (if map_of m k = None then length m else length m - 1)"
proof (induction m)
  case Nil
  then show ?case by simp
next
  case (Cons p m)
  then show ?case
    by (cases p) (auto simp: AList.delete_eq map_of_eq_None_iff filter_id_conv rev_image_eqI
        intro!: Suc_pred length_pos_if_in_set split: if_splits dest: map_of_SomeD)
qed

lemma length_update:
  "length (AList.update k v m) = (if map_of m k = None then Suc (length m) else length m)"
  by (induction m) auto

interpretation hm: hash_map "[]" map_of AList.update AList.delete length "\<lambda>m. distinct (map fst m)"
  by unfold_locales
    (auto simp: update_conv' delete_conv' length_update length_delete_distinct distinct_update
      distinct_delete)

section \<open>Event-driven states\<close>

text \<open>
  A component that reacts to a sequence of events. An invariant that one reaction keeps holds after
  any sequence of them.
\<close>

locale event_system =
  fixes react :: "'s \<Rightarrow> 'e \<Rightarrow> 's"
    and inv :: "'s \<Rightarrow> bool"
  assumes react_inv: "inv s \<Longrightarrow> inv (react s e)"
begin

lemma run_inv: "inv s \<Longrightarrow> inv (foldl react s es)"
  by (induction es arbitrary: s) (auto intro: react_inv)

end

end
