(* ===== verification/Keli_Net_Addr.thy ===== *)
theory Keli_Net_Addr
  imports Keli_Text
begin

text \<open>
  Addresses of \<open>std::net\<close> as the program uses them: IP addresses with their octets, their textual
  form (\<open>Display\<close>) and its parser (\<open>FromStr\<close>), socket addresses, and the outbound target of
  \<open>direct.rs\<close>. The main result is that parsing the text of an address gives the address back.
\<close>

section \<open>Addresses\<close>

datatype ip_addr = V4 u32 | V6 u128

fun is_ipv4 :: "ip_addr \<Rightarrow> bool" where
  "is_ipv4 (V4 a) = True"
| "is_ipv4 (V6 a) = False"

fun is_ipv6 :: "ip_addr \<Rightarrow> bool" where
  "is_ipv6 (V4 a) = False"
| "is_ipv6 (V6 a) = True"

fun octets :: "ip_addr \<Rightarrow> bytes" where
  "octets (V4 a) = be_bytes 4 a"
| "octets (V6 a) = be_bytes 16 a"

record socket_addr =
  sa_ip :: ip_addr
  sa_port :: u16

record outbound_target =
  ot_host :: string
  ot_port :: u16

text \<open>The answer to a relayed datagram.\<close>

record udp_relay_response =
  rs_source :: socket_addr
  rs_payload :: bytes

definition outbound_target_new :: "string \<Rightarrow> u16 \<Rightarrow> outbound_target" where
  "outbound_target_new host port = \<lparr>ot_host = host, ot_port = port\<rparr>"

text \<open>The eight 16-bit segments of an IPv6 address, most significant first.\<close>

primrec be_segments :: "nat \<Rightarrow> u128 \<Rightarrow> u16 list" where
  "be_segments 0 a = []"
| "be_segments (Suc n) a = ucast (drop_bit (16 * n) a) # be_segments n a"

abbreviation segments :: "u128 \<Rightarrow> u16 list" where
  "segments a \<equiv> be_segments 8 a"

definition segment_step :: "u128 \<Rightarrow> u16 \<Rightarrow> u128" where
  "segment_step acc g = push_bit 16 acc OR ucast g"

definition from_segments :: "u16 list \<Rightarrow> u128" where
  "from_segments gs = foldl segment_step 0 gs"

lemma length_be_segments [simp]: "length (be_segments n a) = n"
  by (induction n) simp_all

lemma segment_step_segments:
  "foldl segment_step acc (be_segments n a) = push_bit (16 * n) acc OR take_bit (16 * n) a"
proof (induction n arbitrary: acc)
  case 0
  then show ?case by simp
next
  case (Suc n)
  have "push_bit (16 * n) (segment_step acc (ucast (drop_bit (16 * n) a))) OR take_bit (16 * n) a =
      push_bit (16 * Suc n) acc OR take_bit (16 * Suc n) a"
    unfolding segment_step_def by (rule bit_word_eqI) (auto simp: bit_simps not_less not_le ac_simps)
  with Suc show ?case
    by simp
qed

lemma from_segments_segments [simp]: "from_segments (segments a) = a"
  by (simp add: from_segments_def segment_step_segments take_bit_word_eq_self)

section \<open>Text of an address\<close>

fun join_with :: "string \<Rightarrow> string list \<Rightarrow> string" where
  "join_with sep [] = []"
| "join_with sep [x] = x"
| "join_with sep (x # y # ys) = x @ sep @ join_with sep (y # ys)"

definition show_ipv4 :: "u32 \<Rightarrow> string" where
  "show_ipv4 a = join_with ''.'' (map (\<lambda>b. show_radix 10 (unat b)) (be_bytes 4 a))"

text \<open>The loop of \<open>Ipv6Addr::fmt\<close> that finds the first longest run of zero segments.\<close>

fun longest_zero_span :: "nat \<Rightarrow> u16 list \<Rightarrow> nat \<times> nat \<Rightarrow> nat \<times> nat \<Rightarrow> nat \<times> nat" where
  "longest_zero_span i [] longest cur = longest"
| "longest_zero_span i (g # gs) longest cur =
     (if g = 0 then
        let start = (if snd cur = 0 then i else fst cur); len = snd cur + 1
        in longest_zero_span (i + 1) gs (if len > snd longest then (start, len) else longest) (start, len)
      else longest_zero_span (i + 1) gs longest (0, 0))"

definition fmt_subslice :: "u16 list \<Rightarrow> string" where
  "fmt_subslice gs = join_with '':'' (map (\<lambda>g. show_radix 16 (unat g)) gs)"

definition to_ipv4_mapped :: "u128 \<Rightarrow> u32 option" where
  "to_ipv4_mapped a = (if drop_bit 32 a = 0xffff then Some (ucast a) else None)"

definition show_ipv6 :: "u128 \<Rightarrow> string" where
  "show_ipv6 a = (case to_ipv4_mapped a of
      Some v4 \<Rightarrow> ''::ffff:'' @ show_ipv4 v4
    | None \<Rightarrow>
        let segs = segments a; (start, len) = longest_zero_span 0 segs (0, 0) (0, 0)
        in if len > 1
           then fmt_subslice (take start segs) @ ''::'' @ fmt_subslice (drop (start + len) segs)
           else fmt_subslice segs)"

fun show_ip :: "ip_addr \<Rightarrow> string" where
  "show_ip (V4 a) = show_ipv4 a"
| "show_ip (V6 a) = show_ipv6 a"

section \<open>Parsing an address\<close>

text \<open>
  The recursive-descent parser of \<open>std::net\<close>: a reader returns the value it read and the rest of
  the text, or \<open>None\<close> and then consumes nothing.
\<close>

definition read_number :: "nat \<Rightarrow> nat \<Rightarrow> bool \<Rightarrow> nat \<Rightarrow> string \<Rightarrow> (nat \<times> string) option" where
  "read_number radix max_digits allow_zero_prefix limit s =
     (let ds = takeWhile (\<lambda>c. to_digit radix c \<noteq> None) s;
          rest = dropWhile (\<lambda>c. to_digit radix c \<noteq> None) s;
          n = digits_value radix 0 ds
      in if length ds > max_digits then None
         else if ds = [] then None
         else if \<not> allow_zero_prefix \<and> hd ds = CHR ''0'' \<and> length ds > 1 then None
         else if n > limit then None
         else Some (n, rest))"

definition read_separator :: "char \<Rightarrow> nat \<Rightarrow> (string \<Rightarrow> ('a \<times> string) option) \<Rightarrow> string
    \<Rightarrow> ('a \<times> string) option" where
  "read_separator sep i inner s =
     (if i > 0 then (case s of c # r \<Rightarrow> if c = sep then inner r else None | [] \<Rightarrow> None)
      else inner s)"

fun read_octets :: "nat \<Rightarrow> nat \<Rightarrow> string \<Rightarrow> (u8 list \<times> string) option" where
  "read_octets i 0 s = Some ([], s)"
| "read_octets i (Suc n) s =
     (case read_separator CHR ''.'' i (read_number 10 3 False 255) s of
        None \<Rightarrow> None
      | Some (v, r) \<Rightarrow> (case read_octets (Suc i) n r of
            None \<Rightarrow> None
          | Some (vs, r') \<Rightarrow> Some (of_nat v # vs, r')))"

definition read_ipv4_addr :: "string \<Rightarrow> (u32 \<times> string) option" where
  "read_ipv4_addr s = (case read_octets 0 4 s of
      None \<Rightarrow> None | Some (bs, r) \<Rightarrow> Some (from_be_bytes bs, r))"

fun read_groups :: "nat \<Rightarrow> nat \<Rightarrow> string \<Rightarrow> u16 list \<times> bool \<times> string" where
  "read_groups i 0 s = ([], False, s)"
| "read_groups i (Suc left) s =
     (case (if left > 0 then read_separator CHR '':'' i read_ipv4_addr s else None) of
        Some (a, r) \<Rightarrow> ([ucast (drop_bit 16 a), ucast a], True, r)
      | None \<Rightarrow> (case read_separator CHR '':'' i (read_number 16 4 True 65535) s of
            Some (g, r) \<Rightarrow> (case read_groups (Suc i) left r of (gs, v4, r') \<Rightarrow> (of_nat g # gs, v4, r'))
          | None \<Rightarrow> ([], False, s)))"

definition read_ipv6_addr :: "string \<Rightarrow> (u128 \<times> string) option" where
  "read_ipv6_addr s = (case read_groups 0 8 s of (head, head_v4, r) \<Rightarrow>
      if length head = 8 then Some (from_segments head, r)
      else if head_v4 then None
      else (case r of
          c # d # r' \<Rightarrow>
            if c = CHR '':'' \<and> d = CHR '':'' then
              (case read_groups 0 (8 - (length head + 1)) r' of (tail, _, r'') \<Rightarrow>
                 Some (from_segments (head @ replicate (8 - length head - length tail) 0 @ tail), r''))
            else None
        | _ \<Rightarrow> None))"

definition parse_ip :: "string \<Rightarrow> ip_addr option" where
  "parse_ip s = (case read_ipv4_addr s of
      Some (a, r) \<Rightarrow> if r = [] then Some (V4 a) else None
    | None \<Rightarrow> (case read_ipv6_addr s of
          Some (a, r) \<Rightarrow> if r = [] then Some (V6 a) else None
        | None \<Rightarrow> None))"

section \<open>The text of an address parses back\<close>

lemma to_digit_None_mono: "to_digit b c = None \<Longrightarrow> a \<le> b \<Longrightarrow> to_digit a c = None"
  by (auto simp: to_digit_def Let_def split: if_splits)

lemma read_number_no_digit: "to_digit radix c = None \<Longrightarrow> read_number radix m z l (c # s) = None"
  by (simp add: read_number_def)

lemma read_ipv4_addr_no_digit: "to_digit 10 c = None \<Longrightarrow> read_ipv4_addr (c # s) = None"
  using read_octets.simps(2) [of 0 3 "c # s"]
  by (simp add: read_ipv4_addr_def read_separator_def read_number_no_digit)

lemma read_groups_no_digit: "to_digit 16 c = None \<Longrightarrow> read_groups 0 n (c # s) = ([], False, c # s)"
  by (cases n) (simp_all add: read_separator_def read_number_no_digit read_ipv4_addr_no_digit
      to_digit_None_mono [of 16])

lemma parse_ip_no_digit: "to_digit 16 c = None \<Longrightarrow> c \<noteq> CHR '':'' \<Longrightarrow> parse_ip (c # s) = None"
  by (simp add: parse_ip_def read_ipv6_addr_def read_groups_no_digit read_ipv4_addr_no_digit
      to_digit_None_mono [of 16] split: list.split)


section \<open>Round trip of the text\<close>

lemma show_radix_nonempty [simp]: "show_radix b n \<noteq> []"
  by (subst show_radix.simps) simp

lemma digits_value_append:
  "digits_value b acc (s @ [c]) = digits_value b acc s * b + (case to_digit b c of Some d \<Rightarrow> d | None \<Rightarrow> 0)"
  by (simp add: digits_value_def)

lemma digits_value_show_radix: "2 \<le> b \<Longrightarrow> b \<le> 16 \<Longrightarrow> digits_value b 0 (show_radix b n) = n"
proof (induction b n rule: show_radix.induct)
  case (1 b n)
  show ?case
  proof (cases "n < b")
    case True
    with "1.prems" show ?thesis
      by (simp add: show_radix.simps [of b n] digits_value_def to_digit_digit_char)
  next
    case False
    with 1 show ?thesis
      by (simp add: show_radix.simps [of b n] digits_value_append to_digit_digit_char)
  qed
qed

lemma length_show_radix: "2 \<le> b \<Longrightarrow> n < b ^ Suc k \<Longrightarrow> length (show_radix b n) \<le> Suc k"
proof (induction k arbitrary: n)
  case 0
  then show ?case by (simp add: show_radix.simps [of b n])
next
  case (Suc k)
  show ?case
  proof (cases "n < b")
    case False
    have "n div b < b ^ Suc k"
      using Suc.prems by (simp add: less_mult_imp_div_less mult.commute)
    with Suc False show ?thesis by (simp add: show_radix.simps [of b n])
  qed (simp add: show_radix.simps [of b n])
qed

lemma hd_show_radix_pos: "2 \<le> b \<Longrightarrow> b \<le> 16 \<Longrightarrow> 0 < n \<Longrightarrow> hd (show_radix b n) \<noteq> CHR ''0''"
proof (induction b n rule: show_radix.induct)
  case (1 b n)
  show ?case
  proof (cases "n < b")
    case True
    then have "to_digit b (digit_char n) = Some n" using "1.prems" by (simp add: to_digit_digit_char)
    moreover have "to_digit b CHR ''0'' = Some 0" using "1.prems" by (simp add: to_digit_def char_code_def)
    ultimately have "digit_char n \<noteq> CHR ''0''" using \<open>0 < n\<close> by auto
    with True show ?thesis by (simp add: show_radix.simps [of b n])
  next
    case False
    then have "0 < n div b" using "1.prems" by (simp add: div_greater_zero_iff)
    with 1 False show ?thesis by (simp add: show_radix.simps [of b n])
  qed
qed

lemma show_radix_zero: "2 \<le> b \<Longrightarrow> show_radix b 0 = ''0''"
  by (simp add: show_radix.simps [of b 0] digit_char_def char_of_eq_iff)

lemma show_radix_no_zero_prefix:
  "2 \<le> b \<Longrightarrow> b \<le> 16 \<Longrightarrow> hd (show_radix b n) = CHR ''0'' \<Longrightarrow> length (show_radix b n) = 1"
  by (cases "n = 0") (auto simp: show_radix_zero dest: hd_show_radix_pos)

text \<open>A rest that does not continue the number.\<close>

definition stops :: "nat \<Rightarrow> string \<Rightarrow> bool" where
  "stops radix r \<longleftrightarrow> r = [] \<or> to_digit radix (hd r) = None"

lemma read_number_show_radix:
  assumes "2 \<le> radix" and "radix \<le> 16" and "n < radix ^ Suc k" and "n \<le> limit" and "stops radix r"
  shows "read_number radix (Suc k) z limit (show_radix radix n @ r) = Some (n, r)"
proof -
  let ?P = "\<lambda>c. to_digit radix c \<noteq> None"
  have all: "\<forall>c \<in> set (show_radix radix n). ?P c"
    using show_radix_digits [OF assms(1,2)] by fastforce
  have "takeWhile ?P (show_radix radix n @ r) = show_radix radix n"
      "dropWhile ?P (show_radix radix n @ r) = r"
    using all assms(5) by (auto simp: stops_def takeWhile_append dropWhile_append hd_conv_nth takeWhile_eq_Nil_iff dropWhile_eq_self_iff)
  then show ?thesis
    using assms length_show_radix [OF assms(1,3)] show_radix_no_zero_prefix [OF assms(1,2), of n]
    by (auto simp: read_number_def digits_value_show_radix Let_def)
qed

lemma read_octets_join:
  assumes "r = [] \<or> (to_digit 10 (hd r) = None)"
  shows "read_octets i (length bs) ((if i = 0 \<or> bs = [] then [] else ''.'') @ join_with ''.'' (map (\<lambda>b. show_radix 10 (unat b)) bs) @ r)
    = Some (bs, r)"
proof (induction bs arbitrary: i)
  case Nil
  then show ?case by simp
next
  case (Cons b bs)
  let ?rest = "(if bs = [] then [] else ''.'') @ join_with ''.'' (map (\<lambda>b. show_radix 10 (unat b)) bs) @ r"
  have join: "join_with ''.'' (map (\<lambda>b. show_radix 10 (unat b)) (b # bs)) @ r = show_radix 10 (unat b) @ ?rest"
    by (cases bs) simp_all
  have "stops 10 ?rest"
    using assms by (auto simp: stops_def to_digit_def char_code_def)
  moreover have "unat b < 10 ^ Suc 2" "unat b \<le> 255"
    using unat_u8_le [of b] by simp_all
  ultimately have "read_number 10 3 False 255 (show_radix 10 (unat b) @ ?rest) = Some (unat b, ?rest)"
    using read_number_show_radix [of 10 "unat b" 2 255 ?rest False] by simp
  moreover have "read_octets (Suc i) (length bs) ?rest = Some (bs, r)"
    using Cons [of "Suc i"] by simp
  ultimately show ?case
    unfolding join by (cases "bs = []") (auto simp: read_separator_def)
qed

lemma read_ipv4_show:
  "r = [] \<or> to_digit 10 (hd r) = None \<Longrightarrow> read_ipv4_addr (show_ipv4 a @ r) = Some (a, r)"
  using read_octets_join [of r 0 "be_bytes 4 a"]
  by (simp add: read_ipv4_addr_def show_ipv4_def)


text \<open>IPv6 groups are never taken for an IPv4 address: after the decimal digits there is no dot.\<close>

lemma read_octets_no_dot:
  "s = [] \<or> hd s \<noteq> CHR ''.'' \<Longrightarrow> read_octets (Suc i) (Suc n) s = None"
  by (cases s) (simp_all add: read_separator_def)

lemma read_ipv4_addr_no_dot:
  assumes "\<forall>c r. dropWhile (\<lambda>c. to_digit 10 c \<noteq> None) s = c # r \<longrightarrow> c \<noteq> CHR ''.''"
  shows "read_ipv4_addr s = None"
proof -
  have "r = [] \<or> hd r \<noteq> CHR ''.''" if "read_number 10 3 False 255 s = Some (v, r)" for v r
    using that assms by (cases r) (auto simp: read_number_def Let_def split: if_splits)
  then have "read_octets 1 3 r = None" if "read_number 10 3 False 255 s = Some (v, r)" for v r
    using that read_octets_no_dot [of r 0 2] by simp
  then show ?thesis
    using read_octets.simps(2) [of 0 3 s] by (auto simp: read_ipv4_addr_def read_separator_def split: option.splits)
qed

lemma read_ipv4_addr_Nil: "read_ipv4_addr [] = None"
  by (rule read_ipv4_addr_no_dot) simp

lemma dropWhile_append_hd:
  "dropWhile P (a @ b) = c # r \<Longrightarrow> b = [] \<or> \<not> P (hd b) \<Longrightarrow> c \<in> set a \<or> (b \<noteq> [] \<and> c = hd b)"
  by (induction a) (cases b; auto split: if_splits)+

definition group_end :: "string \<Rightarrow> bool" where
  "group_end r \<longleftrightarrow> r = [] \<or> hd r = CHR '':''"

lemma colon_no_digit: "radix \<le> 16 \<Longrightarrow> to_digit radix CHR '':'' = None"
  by (simp add: to_digit_def char_code_def)

lemma group_text:
  assumes "group_end r"
  shows "read_number 16 4 True 65535 (show_radix 16 (unat (g :: u16)) @ r) = Some (unat g, r)"
    and "read_ipv4_addr (show_radix 16 (unat g) @ r) = None"
proof -
  have "stops 16 r" and r: "r = [] \<or> (to_digit 10 (hd r) = None \<and> hd r \<noteq> CHR ''.'')"
    using assms by (auto simp: group_end_def stops_def colon_no_digit)
  moreover have "unat g < 16 ^ Suc 3" "unat g \<le> 65535"
    using unat_u16_le [of g] by simp_all
  ultimately show "read_number 16 4 True 65535 (show_radix 16 (unat g) @ r) = Some (unat g, r)"
    using read_number_show_radix [of 16 "unat g" 3 65535 r True] by simp
  have "to_digit 16 CHR ''.'' = None" by (simp add: to_digit_def char_code_def)
  then have dots: "\<forall>c \<in> set (show_radix 16 (unat g)). c \<noteq> CHR ''.''"
    using show_radix_digits [of 16 _ "unat g"] by fastforce
  show "read_ipv4_addr (show_radix 16 (unat g) @ r) = None"
  proof (intro read_ipv4_addr_no_dot allI impI)
    fix c s assume drop: "dropWhile (\<lambda>c. to_digit 10 c \<noteq> None) (show_radix 16 (unat g) @ r) = c # s"
    have "r = [] \<or> \<not> to_digit 10 (hd r) \<noteq> None" using r by (cases "r = []") simp_all
    from dropWhile_append_hd [OF drop this] show "c \<noteq> CHR ''.''"
    proof (elim disjE conjE)
      assume "c \<in> set (show_radix 16 (unat g))"
      with dots show ?thesis by simp
    next
      assume "r \<noteq> []" "c = hd r"
      with r show ?thesis by simp
    qed
  qed
qed

text \<open>A text at which no further group starts.\<close>

definition groups_end :: "string \<Rightarrow> bool" where
  "groups_end r \<longleftrightarrow> r = [] \<or> (\<exists>s. r = CHR '':'' # CHR '':'' # s)"

lemma read_groups_end: "groups_end r \<Longrightarrow> read_groups i n r = ([], False, r)"
  by (cases n) (auto simp: groups_end_def read_separator_def read_number_no_digit read_ipv4_addr_no_digit
      read_ipv4_addr_Nil colon_no_digit, simp_all add: read_number_def)

lemma read_groups_join:
  assumes "groups_end r" and "length gs \<le> n"
  shows "read_groups i n ((if i = 0 \<or> gs = [] then [] else '':'') @ fmt_subslice gs @ r) = (gs, False, r)"
  using assms(2)
proof (induction gs arbitrary: i n)
  case Nil
  then show ?case using read_groups_end [OF assms(1)] by (simp add: fmt_subslice_def)
next
  case (Cons g gs)
  then obtain m where n: "n = Suc m" "length gs \<le> m" by (cases n) auto
  let ?rest = "(if gs = [] then [] else '':'') @ fmt_subslice gs @ r"
  have join: "fmt_subslice (g # gs) @ r = show_radix 16 (unat g) @ ?rest"
    by (cases gs) (simp_all add: fmt_subslice_def)
  have "group_end ?rest"
    using assms(1) by (auto simp: group_end_def groups_end_def fmt_subslice_def)
  note group = group_text [OF this, of g]
  have "read_groups (Suc i) m ?rest = (gs, False, r)"
    using Cons.IH [OF n(2), of "Suc i"] by simp
  then show ?case
    unfolding join n(1) using group n(2) by (cases "i = 0"; cases gs) (simp_all add: read_separator_def fmt_subslice_def)
qed


text \<open>The span that is written as \<open>::\<close> consists of zero segments.\<close>

definition zero_span :: "u16 list \<Rightarrow> nat \<times> nat \<Rightarrow> bool" where
  "zero_span gs span \<longleftrightarrow> (case span of (start, len) \<Rightarrow>
     start + len \<le> length gs \<and> (\<forall>j < len. gs ! (start + j) = 0))"

lemma zero_span_append: "zero_span gs span \<Longrightarrow> zero_span (gs @ hs) span"
  by (auto simp: zero_span_def nth_append split: prod.splits)

lemma longest_zero_span_zero:
  assumes "zero_span ps longest" and "zero_span ps cur" and "snd cur = 0 \<or> fst cur + snd cur = length ps"
  shows "zero_span (ps @ gs) (longest_zero_span (length ps) gs longest cur)"
  using assms
proof (induction gs arbitrary: ps longest cur)
  case Nil
  then show ?case by simp
next
  case (Cons g gs)
  let ?cur = "(if snd cur = 0 then length ps else fst cur, snd cur + 1)"
  show ?case
  proof (cases "g = 0")
    case True
    have "zero_span (ps @ [g]) ?cur"
      using Cons.prems(2,3) True by (auto simp: zero_span_def nth_append less_Suc_eq split: prod.splits)
    then show ?thesis
      using Cons.IH [of "ps @ [g]" "if snd ?cur > snd longest then ?cur else longest" ?cur]
        Cons.prems zero_span_append [of ps longest "[g]"] True
      by (auto simp: Let_def)
  next
    case False
    then show ?thesis
      using Cons.IH [of "ps @ [g]" longest "(0, 0)"] Cons.prems(1) zero_span_append [of ps longest "[g]"]
      by (simp add: zero_span_def)
  qed
qed

lemma zero_span_split:
  assumes "zero_span gs (start, len)"
  shows "gs = take start gs @ replicate len 0 @ drop (start + len) gs"
proof -
  have "take len (drop start gs) = replicate len 0"
    using assms by (intro nth_equalityI) (auto simp: zero_span_def)
  then show ?thesis
    by (metis append_take_drop_id drop_drop add.commute)
qed

lemma read_ipv6_compressed:
  assumes "zero_span gs (start, len)" and "1 < len" and "length gs = 8"
  shows "read_ipv6_addr (fmt_subslice (take start gs) @ ''::'' @ fmt_subslice (drop (start + len) gs))
    = Some (from_segments gs, [])"
proof -
  let ?tail = "drop (start + len) gs"
  have len: "start + len \<le> 8" using assms by (simp add: zero_span_def)
  have head: "read_groups 0 8 (fmt_subslice (take start gs) @ ''::'' @ fmt_subslice ?tail)
      = (take start gs, False, ''::'' @ fmt_subslice ?tail)"
    using read_groups_join [of "''::'' @ fmt_subslice ?tail" "take start gs" 8 0] assms(3)
    by (simp add: groups_end_def)
  have tail_groups: "read_groups 0 (8 - Suc start) (fmt_subslice ?tail) = (?tail, False, [])"
    using read_groups_join [of "[]" ?tail "8 - Suc start" 0] assms(2,3) len by (simp add: groups_end_def)
  have "take start gs @ replicate (8 - start - (8 - (start + len))) 0 @ ?tail = gs"
    using zero_span_split [OF assms(1)] len by simp
  then show ?thesis
    using head tail_groups len assms(2,3) by (simp add: read_ipv6_addr_def min_def)
qed


lemma segments_eq: "segments a = [ucast (drop_bit 112 a), ucast (drop_bit 96 a), ucast (drop_bit 80 a),
    ucast (drop_bit 64 a), ucast (drop_bit 48 a), ucast (drop_bit 32 a), ucast (drop_bit 16 a), ucast a]"
proof -
  have "be_segments 2 a = [ucast (drop_bit 16 a), ucast a]"
    by (simp add: numeral_2_eq_2)
  then show ?thesis
    using be_segments.simps(2) [of 7 a] be_segments.simps(2) [of 6 a] be_segments.simps(2) [of 5 a]
      be_segments.simps(2) [of 4 a] be_segments.simps(2) [of 3 a] be_segments.simps(2) [of 2 a]
    by simp
qed

lemma replicate_5: "replicate 5 x = [x, x, x, x, x]"
  by (simp add: numeral_eq_Suc)

lemma read_ipv6_mapped:
  assumes "to_ipv4_mapped a = Some v4"
  shows "read_ipv6_addr (''::ffff:'' @ show_ipv4 v4) = Some (a, [])"
proof -
  have a: "drop_bit 32 a = 0xffff" and v4: "v4 = ucast a"
    using assms by (auto simp: to_ipv4_mapped_def split: if_splits)
  have shift: "drop_bit (32 + n) a = drop_bit n 0xffff" for n
    using a by (metis add.commute drop_bit_drop_bit)
  have "segments a = replicate 5 0 @ [0xffff, ucast (drop_bit 16 a), ucast a]"
    using shift [of 80] shift [of 64] shift [of 48] shift [of 32] shift [of 16] shift [of 0]
    by (simp add: segments_eq replicate_5)
  moreover have "ucast (drop_bit 16 v4) = (ucast (drop_bit 16 a) :: u16)" "ucast v4 = (ucast a :: u16)"
    unfolding v4 by (rule bit_word_eqI; auto simp: bit_simps)+
  ultimately have segs: "from_segments (replicate 5 0 @ [0xffff, ucast (drop_bit 16 v4), ucast v4]) = a"
    by (metis from_segments_segments)
  have "read_ipv4_addr (show_ipv4 v4) = Some (v4, [])"
    using read_ipv4_show [of "[]" v4] by simp
  then have "read_groups 1 6 ('':'' @ show_ipv4 v4) = ([ucast (drop_bit 16 v4), ucast v4], True, [])"
    using read_groups.simps(2) [of 1 5] by (simp add: read_separator_def)
  moreover have "show_radix 16 (unat (0xffff :: u16)) = ''ffff''"
    using show_radix.simps [of 16 65535] show_radix.simps [of 16 4095] show_radix.simps [of 16 255]
      show_radix.simps [of 16 15] by (simp add: digit_char_def char_of_eq_iff)
  ultimately have "read_groups 0 7 (''ffff:'' @ show_ipv4 v4) = ([0xffff, ucast (drop_bit 16 v4), ucast v4], True, [])"
    using group_text [of "'':'' @ show_ipv4 v4" "0xffff"] read_groups.simps(2) [of 0 6]
    by (simp add: read_separator_def group_end_def)
  then show ?thesis
    using segs read_groups_end [of "''::ffff:'' @ show_ipv4 v4" 0 8]
    by (simp add: read_ipv6_addr_def groups_end_def)
qed

lemma read_ipv6_show: "read_ipv6_addr (show_ipv6 a) = Some (a, [])"
proof (cases "to_ipv4_mapped a")
  case (Some v4)
  then show ?thesis using read_ipv6_mapped by (simp add: show_ipv6_def)
next
  case None
  obtain start len where span: "longest_zero_span 0 (segments a) (0, 0) (0, 0) = (start, len)"
    by fastforce
  have "zero_span (segments a) (start, len)"
    using longest_zero_span_zero [of "[]" "(0, 0)" "(0, 0)" "segments a"] span by (simp add: zero_span_def)
  note compressed = read_ipv6_compressed [OF this]
  have plain: "read_ipv6_addr (fmt_subslice (segments a)) = Some (from_segments (segments a), [])"
    using read_groups_join [of "[]" "segments a" 8 0] by (simp add: groups_end_def read_ipv6_addr_def)
  show ?thesis
    using None span compressed plain by (simp add: show_ipv6_def Let_def)
qed

lemma show_ipv6_not_ipv4: "read_ipv4_addr (show_ipv6 a) = None"
proof (cases "to_ipv4_mapped a")
  case (Some v4)
  then show ?thesis by (simp add: show_ipv6_def read_ipv4_addr_no_digit colon_no_digit)
next
  case None
  obtain start len where span: "longest_zero_span 0 (segments a) (0, 0) (0, 0) = (start, len)"
    by fastforce
  have groups: "read_ipv4_addr (fmt_subslice gs @ r) = None" if "gs \<noteq> [] \<or> r \<noteq> []" "group_end r" for gs r
  proof (cases gs)
    case Nil
    with that show ?thesis
      by (cases r) (simp_all add: fmt_subslice_def group_end_def read_ipv4_addr_no_digit colon_no_digit)
  next
    case (Cons g gs')
    have "group_end ((if gs' = [] then [] else '':'' @ fmt_subslice gs') @ r)"
      using that(2) by (auto simp: group_end_def)
    from group_text(2) [OF this, of g] show ?thesis
      by (cases gs') (simp_all add: Cons fmt_subslice_def)
  qed
  have "segments a \<noteq> []" by (metis length_be_segments length_0_conv zero_neq_numeral)
  then show ?thesis
    using None span groups [of "segments a" "[]"]
      groups [of "take start (segments a)" "''::'' @ fmt_subslice (drop (start + len) (segments a))"]
    by (simp add: show_ipv6_def group_end_def Let_def)
qed

text \<open>The text of an IP address parses back to the address, for IPv4 and for IPv6 in its canonical
  form with a compressed run of zeros or an embedded IPv4 address. So a target that carries an address
  as text names that address and no other.\<close>

lemma parse_show_ip: "parse_ip (show_ip ip) = Some ip"
proof (cases ip)
  case (V4 a)
  then show ?thesis using read_ipv4_show [of "[]" a] by (simp add: parse_ip_def)
next
  case (V6 a)
  then show ?thesis by (simp add: parse_ip_def show_ipv6_not_ipv4 read_ipv6_show)
qed

end
