(* ===== verification/Keli_Dns.thy ===== *)
theory Keli_Dns
  imports Keli_Net_Addr Keli_Effects
begin

text \<open>
  \<open>keli-net-core/src/dns.rs\<close>: the DNS wire format (query parser, response builders) and the resolving
  engine with its cache, its leak-prevention policy and its address-family policy. The resolver is
  the trait parameter of the engine: a state and an operation on it.
\<close>

section \<open>Errors and policies\<close>

record resolved_address =
  ra_ip :: ip_addr
  ra_port :: u16

datatype dns_local_resolution_policy = AllowSystem | PreventPublicLeak

datatype dns_address_family_policy = DualStack | Ipv4Only | Ipv6Only

datatype dns_error =
    ResolveFailed string string
  | NoRecords string
  | LocalResolutionBlocked string dns_local_resolution_policy
  | AddressFamilyFiltered string dns_address_family_policy

datatype dns_question_type = QA | QAaaa | QUnsupported u16

definition question_type_from_code :: "u16 \<Rightarrow> dns_question_type" where
  "question_type_from_code code = (if code = 1 then QA else if code = 28 then QAaaa else QUnsupported code)"

fun question_type_code :: "dns_question_type \<Rightarrow> u16" where
  "question_type_code QA = 1"
| "question_type_code QAaaa = 28"
| "question_type_code (QUnsupported code) = code"

fun question_matches_ip :: "dns_question_type \<Rightarrow> ip_addr \<Rightarrow> bool" where
  "question_matches_ip QA ip = is_ipv4 ip"
| "question_matches_ip QAaaa ip = is_ipv6 ip"
| "question_matches_ip (QUnsupported _) ip = False"

record dns_wire_question =
  q_id :: u16
  q_name :: string
  q_type :: dns_question_type
  q_raw_question :: bytes
  q_recursion_desired :: bool

datatype dns_wire_error =
    DnsPacketTooShort
  | ResponsePacket
  | UnsupportedOpcode u16
  | QuestionCount u16
  | LabelOutOfBounds
  | CompressedQuestionName
  | InvalidLabel
  | QuestionTooShort
  | UnsupportedClass u16

section \<open>Wire format\<close>

text \<open>The label loop of \<open>parse_dns_query\<close>: the labels read so far and the offset of the next one.\<close>

function parse_labels :: "bytes \<Rightarrow> usize \<Rightarrow> string list \<Rightarrow> (dns_wire_error, string list \<times> usize) outcome" where
  "parse_labels packet offset labels =
     (if offset < length packet then
        let label_len = packet ! offset in
        if label_len = 0 then Ok (labels, offset + 1)
        else if label_len AND 0xc0 \<noteq> 0 then Err CompressedQuestionName
        else
          (let label_end = offset + 1 + unat label_len in
           case get_range packet (offset + 1) label_end of
             None \<Rightarrow> Err LabelOutOfBounds
           | Some label \<Rightarrow> (case from_utf8 label of
                 None \<Rightarrow> Err InvalidLabel
               | Some l \<Rightarrow> parse_labels packet label_end (labels @ [to_ascii_lowercase l])))
      else Err LabelOutOfBounds)"
  by pat_completeness auto
termination
  by (relation "measure (\<lambda>(packet, offset, labels). length packet - offset)") auto

declare parse_labels.simps [simp del]

definition parse_dns_query :: "bytes \<Rightarrow> (dns_wire_error, dns_wire_question) outcome" where
  "parse_dns_query packet =
     (if length packet < 12 then Err DnsPacketTooShort
      else obind (read_u16 packet 0) (\<lambda>id.
        obind (read_u16 packet 2) (\<lambda>flags.
        if flags AND 0x8000 \<noteq> 0 then Err ResponsePacket
        else
          (let opcode = drop_bit 11 flags AND 0x0f in
           if opcode \<noteq> 0 then Err (UnsupportedOpcode opcode)
           else obind (read_u16 packet 4) (\<lambda>qdcount.
             if qdcount \<noteq> 1 then Err (QuestionCount qdcount)
             else obind (parse_labels packet 12 []) (\<lambda>(labels, offset).
               let question_end = offset + 4 in
               case get_range packet offset question_end of
                 None \<Rightarrow> Err QuestionTooShort
               | Some question_tail \<Rightarrow>
                   obind (read_u16 question_tail 0) (\<lambda>qtype.
                   obind (read_u16 question_tail 2) (\<lambda>qclass.
                   if qclass \<noteq> 1 then Err (UnsupportedClass qclass)
                   else obind (slice packet 12 question_end) (\<lambda>raw.
                     Ok \<lparr>q_id = id, q_name = join_with ''.'' labels,
                         q_type = question_type_from_code qtype,
                         q_raw_question = raw,
                         q_recursion_desired = (flags AND 0x0100 \<noteq> 0)\<rparr>)))))))))"

definition dns_response_header :: "dns_wire_question \<Rightarrow> u8 \<Rightarrow> u16 \<Rightarrow> bytes" where
  "dns_response_header question rcode answer_count =
     (let flags = 0x8000 OR 0x0080 OR (ucast (rcode AND 0x0f) :: u16);
          flags' = (if q_recursion_desired question then flags OR 0x0100 else flags)
      in be_bytes 2 (q_id question) @ be_bytes 2 flags' @ be_bytes 2 (1 :: u16)
         @ be_bytes 2 answer_count @ be_bytes 2 (0 :: u16) @ be_bytes 2 (0 :: u16))"

definition dns_answer :: "dns_question_type \<Rightarrow> u32 \<Rightarrow> ip_addr \<Rightarrow> bytes" where
  "dns_answer qt ttl_seconds ip =
     [0xc0, 0x0c] @ be_bytes 2 (question_type_code qt) @ be_bytes 2 (1 :: u16) @ be_bytes 4 ttl_seconds
     @ (case ip of V4 a \<Rightarrow> be_bytes 2 (4 :: u16) @ octets (V4 a)
        | V6 a \<Rightarrow> be_bytes 2 (16 :: u16) @ octets (V6 a))"

definition build_dns_response :: "dns_wire_question \<Rightarrow> ip_addr list \<Rightarrow> u32 \<Rightarrow> bytes" where
  "build_dns_response question ips ttl_seconds =
     (let answers = filter (question_matches_ip (q_type question)) ips
      in dns_response_header question 0 (of_nat (length answers)) @ q_raw_question question
         @ concat (map (dns_answer (q_type question) ttl_seconds) answers))"

definition build_dns_error_response :: "dns_wire_question \<Rightarrow> u8 \<Rightarrow> bytes" where
  "build_dns_error_response question rcode =
     dns_response_header question (rcode AND 0x0f) 0 @ q_raw_question question"

section \<open>Cache and engine\<close>

definition normalize_host :: "string \<Rightarrow> string" where
  "normalize_host host = to_ascii_lowercase (trim_end_matches CHR ''.'' host)"

record dns_cache_entry =
  ce_ips :: "ip_addr list"
  ce_expires_at :: instant

record dns_cache =
  cache_ttl :: duration
  cache_entries :: "(string, dns_cache_entry) hash_map"

definition dns_cache_new :: "duration \<Rightarrow> dns_cache" where
  "dns_cache_new ttl = \<lparr>cache_ttl = ttl, cache_entries = []\<rparr>"

definition cache_get :: "dns_cache \<Rightarrow> string \<Rightarrow> instant \<Rightarrow> ip_addr list option" where
  "cache_get c host now = (case map_of (cache_entries c) (normalize_host host) of
      None \<Rightarrow> None
    | Some entry \<Rightarrow> if ce_expires_at entry > now then Some (ce_ips entry) else None)"

definition cache_insert :: "dns_cache \<Rightarrow> string \<Rightarrow> ip_addr list \<Rightarrow> instant \<Rightarrow> dns_cache" where
  "cache_insert c host ips now = c\<lparr>cache_entries :=
     AList.update (normalize_host host) \<lparr>ce_ips = ips, ce_expires_at = now + cache_ttl c\<rparr> (cache_entries c)\<rparr>"

record 'r dns_engine =
  dns_resolver :: 'r
  dns_cache :: dns_cache
  dns_policy :: dns_local_resolution_policy
  dns_family :: dns_address_family_policy

type_synonym 'r resolver = "string \<Rightarrow> ('r, dns_error, ip_addr list) op"

definition dns_engine_with_policies :: "'r \<Rightarrow> dns_cache \<Rightarrow> dns_local_resolution_policy
    \<Rightarrow> dns_address_family_policy \<Rightarrow> 'r dns_engine" where
  "dns_engine_with_policies resolver cache policy family =
     \<lparr>dns_resolver = resolver, dns_cache = cache, dns_policy = policy, dns_family = family\<rparr>"

definition dns_engine_with_policy :: "'r \<Rightarrow> dns_cache \<Rightarrow> dns_local_resolution_policy \<Rightarrow> 'r dns_engine" where
  "dns_engine_with_policy resolver cache policy =
     dns_engine_with_policies resolver cache policy DualStack"

definition dns_engine_new :: "'r \<Rightarrow> dns_cache \<Rightarrow> 'r dns_engine" where
  "dns_engine_new resolver cache = dns_engine_with_policy resolver cache AllowSystem"

fun address_family_matches :: "ip_addr \<Rightarrow> dns_address_family_policy \<Rightarrow> bool" where
  "address_family_matches ip DualStack = True"
| "address_family_matches ip Ipv4Only = is_ipv4 ip"
| "address_family_matches ip Ipv6Only = is_ipv6 ip"

fun localhost_ips :: "dns_address_family_policy \<Rightarrow> ip_addr list" where
  "localhost_ips DualStack = [V4 0x7f000001, V6 1]"
| "localhost_ips Ipv4Only = [V4 0x7f000001]"
| "localhost_ips Ipv6Only = [V6 1]"

definition with_port :: "u16 \<Rightarrow> ip_addr \<Rightarrow> resolved_address" where
  "with_port port ip = \<lparr>ra_ip = ip, ra_port = port\<rparr>"

text \<open>The lookup in the cache and, on a miss, at the resolver; a non-empty answer is cached.\<close>

definition resolve_ips :: "'r resolver \<Rightarrow> string \<Rightarrow> instant \<Rightarrow> ('r dns_engine, dns_error, ip_addr list) op" where
  "resolve_ips res host now = (\<lambda>e. case cache_get (dns_cache e) host now of
      Some ips \<Rightarrow> (Ok ips, e)
    | None \<Rightarrow> (case res host (dns_resolver e) of
          (Ok ips, r') \<Rightarrow>
            if ips = [] then (Err (NoRecords host), e\<lparr>dns_resolver := r'\<rparr>)
            else (Ok ips, e\<lparr>dns_resolver := r', dns_cache := cache_insert (dns_cache e) host ips now\<rparr>)
        | (Err err, r') \<Rightarrow> (Err err, e\<lparr>dns_resolver := r'\<rparr>)
        | (Panic, r') \<Rightarrow> (Panic, e\<lparr>dns_resolver := r'\<rparr>)))"

definition dns_resolve :: "'r resolver \<Rightarrow> string \<Rightarrow> u16 \<Rightarrow> instant
    \<Rightarrow> ('r dns_engine, dns_error, resolved_address list) op" where
  "dns_resolve res host port now = (\<lambda>e.
     let normalized_host = normalize_host host in
     case parse_ip normalized_host of
       Some ip \<Rightarrow>
         if \<not> address_family_matches ip (dns_family e)
         then (Err (AddressFamilyFiltered normalized_host (dns_family e)), e)
         else (Ok [with_port port ip], e)
     | None \<Rightarrow>
         if dns_policy e = PreventPublicLeak then
           if normalized_host = ''localhost''
           then (Ok (map (with_port port) (localhost_ips (dns_family e))), e)
           else (Err (LocalResolutionBlocked normalized_host (dns_policy e)), e)
         else sbind (resolve_ips res normalized_host now) (\<lambda>ips e'.
           let kept = filter (\<lambda>ip. address_family_matches ip (dns_family e')) ips in
           if kept = [] then (Err (AddressFamilyFiltered normalized_host (dns_family e')), e')
           else (Ok (map (with_port port) kept), e')) e)"

section \<open>The parser and the builders\<close>

lemma parse_labels_no_panic: "parse_labels packet offset labels \<noteq> Panic"
proof (induction packet offset labels rule: parse_labels.induct)
  case (1 packet offset labels)
  then show ?case
    by (subst parse_labels.simps) (auto simp: Let_def split: option.splits)
qed

lemma parse_labels_bounds:
  "parse_labels packet offset labels = Ok (labels', end) \<Longrightarrow> offset < end \<and> end \<le> length packet"
proof (induction packet offset labels rule: parse_labels.induct)
  case (1 packet offset labels)
  show ?case
    using "1.prems" "1.IH" [OF _ refl _ _ refl]
    by (subst (asm) parse_labels.simps) (fastforce simp: Let_def get_range_def split: if_splits option.splits)
qed

lemma parse_dns_query_no_panic: "parse_dns_query packet \<noteq> Panic"
  using parse_labels_no_panic [of packet 12 "[]"]
  by (auto simp: parse_dns_query_def outcome_simps Let_def get_range_def
      dest!: parse_labels_bounds split: if_splits option.splits)

lemma parse_dns_query_fields:
  assumes "parse_dns_query packet = Ok question"
  obtains n where "4 < n" and "12 + n \<le> length packet" and "q_raw_question question = take n (drop 12 packet)"
    and "q_id question = from_be_bytes [packet ! 0, packet ! 1]"
    and "q_recursion_desired question = ((from_be_bytes [packet ! 2, packet ! 3] :: u16) AND 0x0100 \<noteq> 0)"
proof -
  obtain offset where "12 < offset" "offset + 4 \<le> length packet" "q_raw_question question = take (offset - 8) (drop 12 packet)"
      "q_id question = from_be_bytes [packet ! 0, packet ! 1]"
      "q_recursion_desired question = ((from_be_bytes [packet ! 2, packet ! 3] :: u16) AND 0x0100 \<noteq> 0)"
    using assms
    by (auto simp: parse_dns_query_def outcome_simps Let_def get_range_def dest!: parse_labels_bounds
        split: if_splits option.splits)
  then show thesis
    by (intro that [of "offset - 8"]) auto
qed

lemma be_bytes_from_be_bytes_u16: "be_bytes 2 (from_be_bytes [a, b] :: u16) = [a, b]"
proof -
  have "ucast (drop_bit 8 (push_bit 8 (ucast a) OR ucast b :: u16)) = a"
    "ucast (push_bit 8 (ucast a) OR ucast b :: u16) = b"
    by (rule bit_word_eqI; auto simp: bit_simps dest: bit_imp_le_length)+
  then show ?thesis by (simp add: be_bytes_u16 from_be_bytes_def be_step_def)
qed

lemma length_dns_response_header [simp]: "length (dns_response_header question rcode n) = 12"
  by (simp add: dns_response_header_def Let_def)

definition response_flags :: "dns_wire_question \<Rightarrow> u8 \<Rightarrow> u16" where
  "response_flags question rcode =
     (let flags = 0x8000 OR 0x0080 OR ucast (rcode AND 0x0f)
      in if q_recursion_desired question then flags OR 0x0100 else flags)"

lemma response_flags_bits:
  "response_flags question rcode AND 0x8000 \<noteq> 0"
  "response_flags question rcode AND 0x0100 \<noteq> 0 \<longleftrightarrow> q_recursion_desired question"
  "response_flags question rcode AND 0x000f = ucast (rcode AND 0x0f)"
proof -
  have bit: "(w AND 0x8000 \<noteq> 0) = bit w 15" "(w AND 0x0100 \<noteq> 0) = bit w 8" for w :: u16
    using and_exp_eq_0_iff_not_bit [of w 15] and_exp_eq_0_iff_not_bit [of w 8] by simp_all
  show "response_flags question rcode AND 0x8000 \<noteq> 0"
    "response_flags question rcode AND 0x0100 \<noteq> 0 \<longleftrightarrow> q_recursion_desired question"
    unfolding bit by (auto simp: response_flags_def Let_def bit_simps dest: bit_imp_le_length)
  show "response_flags question rcode AND 0x000f = ucast (rcode AND 0x0f)"
    by (rule bit_word_eqI)
      (auto simp: response_flags_def Let_def bit_simps less_Suc_eq numeral_eq_Suc dest: bit_imp_le_length)
qed

lemma dns_response_header_fields:
  "dns_response_header question rcode n =
    be_bytes 2 (q_id question) @ be_bytes 2 (response_flags question rcode) @ [0, 1] @ be_bytes 2 n @ [0, 0, 0, 0]"
  by (simp add: dns_response_header_def response_flags_def Let_def be_bytes_u16)

lemma response_message:
  assumes "parse_dns_query packet = Ok question"
    and response: "response = dns_response_header question code count @ q_raw_question question @ rest"
  shows "take 2 response = take 2 packet"
    and "\<exists>n > 4. 12 + n \<le> length packet \<and> take n (drop 12 response) = take n (drop 12 packet)"
    and "read_u16 response 2 = (Ok (response_flags question code) :: (dns_wire_error, u16) outcome)"
    and "parse_dns_query response = Err ResponsePacket"
proof -
  obtain n where n: "4 < n" "12 + n \<le> length packet" "q_raw_question question = take n (drop 12 packet)"
      "q_id question = from_be_bytes [packet ! 0, packet ! 1]"
    using assms(1) by (rule parse_dns_query_fields)
  have two: "take 2 packet = [packet ! 0, packet ! 1]"
    using n(2) by (cases packet; cases "List.tl packet") (auto simp: numeral_2_eq_2)
  show flags: "read_u16 response 2 = (Ok (response_flags question code) :: (dns_wire_error, u16) outcome)"
    by (simp add: response dns_response_header_fields read_u16_def index_def be_bytes_u16 from_be_bytes_fields)
  show "take 2 response = take 2 packet"
    by (simp add: response dns_response_header_fields two n(4) be_bytes_from_be_bytes_u16)
  have "take n (drop 12 response) = take n (drop 12 packet)"
    using n(2) by (simp add: response n(3))
  with n show "\<exists>n > 4. 12 + n \<le> length packet \<and> take n (drop 12 response) = take n (drop 12 packet)"
    by blast
  show "parse_dns_query response = Err ResponsePacket"
    using response_flags_bits(1) [of question code] flags read_u16_Ok [of 0 response, where ?'a = dns_wire_error]
    by (simp add: parse_dns_query_def response)
qed


definition sample_query :: bytes where
  "sample_query = [0x12, 0x34, 0x01, 0, 0, 1, 0, 0, 0, 0, 0, 0, 1, 0x61, 2, 0x69, 0x6f, 0, 0, 1, 0, 1]"

lemma sample_query_parses:
  "parse_dns_query sample_query = Ok \<lparr>q_id = 0x1234, q_name = ''a.io'', q_type = QA,
     q_raw_question = [1, 0x61, 2, 0x69, 0x6f, 0, 0, 1, 0, 1], q_recursion_desired = True\<rparr>"
  by code_simp


section \<open>The engine\<close>

lemma resolve_ips_no_panic:
  "(\<And>host r. fst (res host r) \<noteq> Panic) \<Longrightarrow> fst (resolve_ips res host now e) \<noteq> Panic"
  by (auto simp: resolve_ips_def split: option.splits prod.splits outcome.splits) (metis fst_conv)+

lemma dns_resolve_literal:
  "parse_ip (normalize_host host) = Some ip \<Longrightarrow> dns_resolve res host port now e =
    (if address_family_matches ip (dns_family e) then (Ok [with_port port ip], e)
     else (Err (AddressFamilyFiltered (normalize_host host) (dns_family e)), e))"
  by (simp add: dns_resolve_def Let_def)

lemma dns_resolve_blocked:
  "parse_ip (normalize_host host) = None \<Longrightarrow> dns_policy e = PreventPublicLeak \<Longrightarrow> dns_resolve res host port now e =
    (if normalize_host host = ''localhost'' then (Ok (map (with_port port) (localhost_ips (dns_family e))), e)
     else (Err (LocalResolutionBlocked (normalize_host host) PreventPublicLeak), e))"
  by (simp add: dns_resolve_def Let_def)

lemma dns_resolve_system:
  "parse_ip (normalize_host host) = None \<Longrightarrow> dns_policy e \<noteq> PreventPublicLeak \<Longrightarrow> dns_resolve res host port now e =
    (case resolve_ips res (normalize_host host) now e of
       (Ok ips, e') \<Rightarrow>
         (case filter (\<lambda>ip. address_family_matches ip (dns_family e')) ips of
            [] \<Rightarrow> (Err (AddressFamilyFiltered (normalize_host host) (dns_family e')), e')
          | ip # kept \<Rightarrow> (Ok (map (with_port port) (ip # kept)), e'))
     | (Err error, e') \<Rightarrow> (Err error, e')
     | (Panic, e') \<Rightarrow> (Panic, e'))"
  by (simp add: dns_resolve_def Let_def sbind_def split: prod.split outcome.split list.split)

lemmas dns_resolve_simps = dns_resolve_literal dns_resolve_blocked dns_resolve_system

lemma dns_resolve_no_panic:
  assumes "\<And>host r. fst (res host r) \<noteq> Panic"
  shows "fst (dns_resolve res host port now e) \<noteq> Panic"
proof (cases "parse_ip (normalize_host host)")
  case None
  then show ?thesis
    using resolve_ips_no_panic [of res "normalize_host host" now e, OF assms]
    by (cases "dns_policy e = PreventPublicLeak")
      (auto simp: dns_resolve_simps split: prod.splits outcome.splits list.splits)
qed (simp add: dns_resolve_simps)

text \<open>Under the leak-prevention policy no name reaches the resolver: the engine's answer and its
  state after the call do not depend on the resolver at all, the engine is left unchanged, and an
  answer holds only the address written in the name itself or loopback addresses.\<close>

theorem prevent_public_leak:
  assumes "dns_policy e = PreventPublicLeak"
  shows "dns_resolve res host port now e = dns_resolve res' host port now' e
    \<and> snd (dns_resolve res host port now e) = e
    \<and> (case fst (dns_resolve res host port now e) of
         Ok addresses \<Rightarrow> set (map ra_ip addresses) \<subseteq>
           (case parse_ip (normalize_host host) of Some ip \<Rightarrow> {ip} | None \<Rightarrow> {V4 0x7f000001, V6 1})
       | Err error \<Rightarrow> True
       | Panic \<Rightarrow> False)"
proof (cases "parse_ip (normalize_host host)")
  case None
  then show ?thesis
    using assms by (cases "dns_family e") (auto simp: dns_resolve_simps with_port_def)
qed (simp add: dns_resolve_simps with_port_def)

definition sample_engine :: "dns_local_resolution_policy \<Rightarrow> nat dns_engine" where
  "sample_engine policy = dns_engine_with_policy 0 (dns_cache_new 60) policy"

definition counting_resolver :: "nat resolver" where
  "counting_resolver host = (\<lambda>n. (Ok [V4 (of_nat n), V6 2], n + 1))"

theorem prevent_public_leak_witness:
  "dns_resolve counting_resolver ''example.com'' 80 3 (sample_engine PreventPublicLeak)
     = dns_resolve (\<lambda>host r. (Panic, r)) ''example.com'' 80 4 (sample_engine PreventPublicLeak)"
  using prevent_public_leak [of "sample_engine PreventPublicLeak" counting_resolver "''example.com''" 80 3]
  by (simp add: sample_engine_def dns_engine_with_policy_def dns_engine_with_policies_def)

text \<open>A successful resolution gives at least one address, every address belongs to the configured
  family, and every address carries the requested port.\<close>

theorem resolve_respects_family:
  assumes "dns_resolve res host port now e = (Ok addresses, e')"
  shows "addresses \<noteq> [] \<and> (\<forall>a \<in> set addresses. address_family_matches (ra_ip a) (dns_family e) \<and> ra_port a = port)"
proof -
  have "dns_family e1 = dns_family e" if "resolve_ips res h now e = (r, e1)" for h r e1
    using that by (auto simp: resolve_ips_def split: option.splits prod.splits outcome.splits if_splits)
  note family = this
  show ?thesis
  proof (cases "parse_ip (normalize_host host)")
    case None
    then show ?thesis
      using assms family
      by (cases "dns_policy e = PreventPublicLeak"; cases "dns_family e")
        (auto simp: dns_resolve_simps with_port_def filter_eq_Cons_iff
          split: prod.splits outcome.splits list.splits if_splits)
  qed (use assms in \<open>auto simp: dns_resolve_simps with_port_def split: if_splits\<close>)
qed

lemma sample_resolution:
  "dns_resolve counting_resolver ''Www.org.'' 80 3 (sample_engine AllowSystem)
    = (Ok [with_port 80 (V4 0), with_port 80 (V6 2)],
       (sample_engine AllowSystem)\<lparr>dns_resolver := 1, dns_cache := cache_insert (dns_cache_new 60) ''www.org'' [V4 0, V6 2] 3\<rparr>)"
proof -
  have "normalize_host ''Www.org.'' = ''www.org''" by code_simp
  moreover have "parse_ip ''www.org'' = None"
    by (rule parse_ip_no_digit) (simp_all add: to_digit_def char_code_def)
  ultimately show ?thesis
    by (simp add: dns_resolve_simps resolve_ips_def sample_engine_def dns_engine_with_policy_def
        dns_engine_with_policies_def counting_resolver_def dns_cache_new_def cache_get_def)
qed

theorem resolve_respects_family_witness:
  "list_all (\<lambda>a. address_family_matches (ra_ip a) (dns_family (sample_engine AllowSystem)) \<and> ra_port a = 80)
     [with_port 80 (V4 0), with_port 80 (V6 2)]"
  unfolding list_all_iff using resolve_respects_family [OF sample_resolution] by blast

lemma normalize_host_idem [simp]: "normalize_host (normalize_host host) = normalize_host host"
proof -
  have "trim_end_matches CHR ''.'' (to_ascii_lowercase (trim_end_matches CHR ''.'' host))
      = to_ascii_lowercase (trim_end_matches CHR ''.'' (trim_end_matches CHR ''.'' host))"
    for host
    by (simp add: trim_end_matches_def to_ascii_lowercase_def rev_map dropWhile_map comp_def)
  then show ?thesis by (simp add: normalize_host_def trim_end_matches_idem)
qed

lemma cache_insert_get:
  "cache_get (cache_insert c host ips now) host' now' =
    (if normalize_host host = normalize_host host' then (if now' < now + cache_ttl c then Some ips else None)
     else cache_get c host' now')"
  by (auto simp: cache_get_def cache_insert_def update_conv')

text \<open>A cached answer is served without the resolver: when a name (not an address literal) was
  resolved through the resolver at time \<open>now\<close>, every resolution of the same name, in any spelling of
  case and trailing dots, before the time to live has passed gives the same addresses from any resolver
  and leaves the engine as it is.\<close>

theorem cached_resolution:
  assumes "dns_resolve res host port now e = (Ok addresses, e')"
    and "normalize_host host' = normalize_host host"
    and "cache_get (dns_cache e) (normalize_host host) now = None"
    and "now' < now + cache_ttl (dns_cache e)"
  shows "dns_resolve res' host' port now' e' = (Ok addresses, e')"
proof -
  have "cache_get (dns_cache e') (normalize_host host) now' = Some ips"
      "dns_policy e' = dns_policy e" "dns_family e' = dns_family e"
    if "resolve_ips res (normalize_host host) now e = (Ok ips, e')" for ips
    using that assms(3,4)
    by (auto simp: resolve_ips_def cache_insert_get split: prod.splits outcome.splits if_splits)
  note cached = this
  show ?thesis
  proof (cases "parse_ip (normalize_host host)")
    case None
    then show ?thesis
      using assms(1,2) cached
      by (cases "dns_policy e = PreventPublicLeak")
        (auto simp: dns_resolve_simps resolve_ips_def [of res'] split: prod.splits outcome.splits list.splits if_splits)
  qed (use assms(1,2) in \<open>auto simp: dns_resolve_simps split: if_splits\<close>)
qed

theorem cached_resolution_witness:
  "fst (dns_resolve (\<lambda>host r. (Panic, r)) ''WWW.ORG'' 80 62
      ((sample_engine AllowSystem)\<lparr>dns_resolver := 1,
         dns_cache := cache_insert (dns_cache_new 60) ''www.org'' [V4 0, V6 2] 3\<rparr>))
    = Ok [with_port 80 (V4 0), with_port 80 (V6 2)]"
proof -
  have "normalize_host ''WWW.ORG'' = normalize_host ''Www.org.''" by code_simp
  then show ?thesis
    using cached_resolution [OF sample_resolution, of "''WWW.ORG''" 62 "\<lambda>host r. (Panic, r)"]
    by (simp add: sample_engine_def dns_engine_with_policy_def dns_engine_with_policies_def dns_cache_new_def
        cache_get_def)
qed

section \<open>Address literals need no resolver\<close>

text \<open>Text that \<open>normalize_host\<close> leaves alone.\<close>

definition plain_char :: "char \<Rightarrow> bool" where
  "plain_char c \<longleftrightarrow> ascii_lower c = c \<and> c \<noteq> CHR ''.''"

lemma plain_digit_char: "d < 16 \<Longrightarrow> plain_char (digit_char d)"
proof -
  assume d: "d < 16"
  have code: "char_code (digit_char d) = (if d < 10 then 48 + d else 87 + d)"
    using d by (simp add: digit_char_def char_code_def)
  moreover have "char_code CHR ''.'' = 46" by (simp add: char_code_def)
  ultimately show ?thesis using d by (auto simp: plain_char_def ascii_lower_def split: if_splits)
qed

lemma plain_show_radix: "2 \<le> b \<Longrightarrow> b \<le> 16 \<Longrightarrow> list_all plain_char (show_radix b n)"
proof (induction b n rule: show_radix.induct)
  case (1 b n)
  then show ?case
    using plain_digit_char [of n] plain_digit_char [of "n mod b"] mod_less_divisor [of b n]
      less_le_trans [of "n mod b" b 16]
    by (subst show_radix.simps) auto
qed

definition host_text :: "string \<Rightarrow> bool" where
  "host_text s \<longleftrightarrow> list_all (\<lambda>c. ascii_lower c = c) s \<and> s \<noteq> [] \<and> List.last s \<noteq> CHR ''.''"

lemma host_text_normal: "host_text s \<Longrightarrow> normalize_host s = s"
proof -
  assume s: "host_text s"
  then have "dropWhile (\<lambda>x. x = CHR ''.'') (rev s) = rev s"
    by (cases s rule: rev_cases) (auto simp: host_text_def)
  moreover have "map ascii_lower s = s"
    using s by (intro map_idI) (simp add: host_text_def list_all_iff)
  ultimately show ?thesis
    by (simp add: normalize_host_def trim_end_matches_def to_ascii_lowercase_def)
qed

lemma host_text_append: "host_text s \<Longrightarrow> list_all (\<lambda>c. ascii_lower c = c) r \<Longrightarrow> host_text (r @ s)"
  by (simp add: host_text_def)

lemma host_text_digits: "2 \<le> b \<Longrightarrow> b \<le> 16 \<Longrightarrow> host_text (show_radix b n)"
  using plain_show_radix [of b n] show_radix_nonempty [of b n]
  by (auto simp: host_text_def list_all_iff plain_char_def)

lemma ascii_lower_separators [simp]:
  "ascii_lower CHR ''.'' = CHR ''.''" "ascii_lower CHR '':'' = CHR '':''" "ascii_lower CHR ''f'' = CHR ''f''"
  by (simp_all add: ascii_lower_def char_code_def)

lemma host_text_join:
  "list_all host_text xs \<Longrightarrow> xs \<noteq> [] \<Longrightarrow> list_all (\<lambda>c. ascii_lower c = c) sep \<Longrightarrow> host_text (join_with sep xs)"
proof (induction sep xs rule: join_with.induct)
  case (3 sep x y ys)
  then have "list_all (\<lambda>c. ascii_lower c = c) (x @ sep)" by (simp add: host_text_def)
  from host_text_append [OF _ this, of "join_with sep (y # ys)"] 3 show ?case by simp
qed simp_all

lemma host_text_ipv4: "host_text (show_ipv4 a)"
  unfolding show_ipv4_def
proof (rule host_text_join)
  show "list_all host_text (map (\<lambda>b. show_radix 10 (unat b)) (be_bytes 4 a))"
    by (simp add: list_all_iff host_text_digits)
  show "map (\<lambda>b. show_radix 10 (unat b)) (be_bytes 4 a) \<noteq> []"
    by (metis length_be_bytes length_map list.size(3) zero_neq_numeral)
qed simp

lemma host_text_groups: "gs \<noteq> [] \<Longrightarrow> host_text (fmt_subslice gs)"
  unfolding fmt_subslice_def by (rule host_text_join) (simp_all add: list_all_iff host_text_digits)

lemma lower_groups: "list_all (\<lambda>c. ascii_lower c = c) (fmt_subslice gs)"
  using host_text_groups [of gs] by (cases "gs = []") (simp_all add: host_text_def fmt_subslice_def)

lemma host_text_ipv6: "host_text (show_ipv6 a)"
proof -
  have "host_text (fmt_subslice xs @ ''::'' @ fmt_subslice ys)" for xs ys
  proof (cases "ys = []")
    case True
    then show ?thesis using lower_groups [of xs] by (simp add: host_text_def fmt_subslice_def)
  next
    case False
    from host_text_append [OF host_text_groups [OF False], of "fmt_subslice xs @ ''::''"]
    show ?thesis using lower_groups [of xs] by simp
  qed
  moreover have "segments a \<noteq> []" by (metis length_be_segments length_0_conv zero_neq_numeral)
  moreover have "host_text (''::ffff:'' @ show_ipv4 v4)" for v4
    by (rule host_text_append [OF host_text_ipv4]) simp
  ultimately show ?thesis
    by (simp add: show_ipv6_def Let_def host_text_groups del: be_segments.simps split: option.split prod.split)
qed

lemma normalize_host_show_ip: "normalize_host (show_ip ip) = show_ip ip"
  by (cases ip) (simp_all add: host_text_normal host_text_ipv4 host_text_ipv6)

end
