(* ===== verification/Keli_Tun_Packet.thy ===== *)
theory Keli_Tun_Packet
  imports Keli_Route Keli_Dns
begin

text \<open>
  The packet layer of \<open>keli-net-core/src/tun.rs\<close>: flows, TCP flags, packet errors, and the parsers of
  raw IPv4 and IPv6 packets, TCP segments and UDP datagrams. Every byte access of the source is a
  checked access here; the lemmas show that no input makes a parser panic, and what a parsed packet
  satisfies.
\<close>

section \<open>Flows\<close>

datatype tun_ip_version = Ipv4 | Ipv6

datatype tun_transport_protocol = Tcp | Udp | Icmp | Icmpv6 | OtherProtocol u8

definition from_ip_protocol_number :: "u8 \<Rightarrow> tun_transport_protocol" where
  "from_ip_protocol_number value =
     (if value = 1 then Icmp else if value = 6 then Tcp else if value = 17 then Udp
      else if value = 58 then Icmpv6 else OtherProtocol value)"

fun ip_protocol_number :: "tun_transport_protocol \<Rightarrow> u8" where
  "ip_protocol_number Icmp = 1"
| "ip_protocol_number Tcp = 6"
| "ip_protocol_number Udp = 17"
| "ip_protocol_number Icmpv6 = 58"
| "ip_protocol_number (OtherProtocol value) = value"

record tun_packet_flow =
  flow_ip_version :: tun_ip_version
  flow_protocol :: tun_transport_protocol
  flow_source_ip :: ip_addr
  flow_destination_ip :: ip_addr
  flow_source_port :: "u16 option"
  flow_destination_port :: "u16 option"

definition flow_route_destination :: "tun_packet_flow \<Rightarrow> route_destination" where
  "flow_route_destination flow =
     route_destination_new (TargetIp (flow_destination_ip flow))
       (case flow_destination_port flow of Some port \<Rightarrow> port | None \<Rightarrow> 0)"

definition source_socket_addr :: "tun_packet_flow \<Rightarrow> socket_addr option" where
  "source_socket_addr flow =
     map_option (\<lambda>port. \<lparr>sa_ip = flow_source_ip flow, sa_port = port\<rparr>) (flow_source_port flow)"

definition destination_socket_addr :: "tun_packet_flow \<Rightarrow> socket_addr option" where
  "destination_socket_addr flow =
     map_option (\<lambda>port. \<lparr>sa_ip = flow_destination_ip flow, sa_port = port\<rparr>) (flow_destination_port flow)"

definition destination_outbound_target :: "tun_packet_flow \<Rightarrow> outbound_target option" where
  "destination_outbound_target flow =
     map_option (\<lambda>port. outbound_target_new (show_ip (flow_destination_ip flow)) port)
       (flow_destination_port flow)"

definition is_dns_hijack_candidate :: "tun_packet_flow \<Rightarrow> bool" where
  "is_dns_hijack_candidate flow \<longleftrightarrow> flow_protocol flow = Udp \<and> flow_destination_port flow = Some 53"

section \<open>TCP flags and segments\<close>

record tun_tcp_flags =
  flag_bits :: u16

definition flags_from_bits :: "u16 \<Rightarrow> tun_tcp_flags" where
  "flags_from_bits bits = \<lparr>flag_bits = bits AND 0x01ff\<rparr>"

definition flag_ns :: "tun_tcp_flags \<Rightarrow> bool" where "flag_ns f \<longleftrightarrow> flag_bits f AND 0x0100 \<noteq> 0"
definition flag_cwr :: "tun_tcp_flags \<Rightarrow> bool" where "flag_cwr f \<longleftrightarrow> flag_bits f AND 0x0080 \<noteq> 0"
definition flag_ece :: "tun_tcp_flags \<Rightarrow> bool" where "flag_ece f \<longleftrightarrow> flag_bits f AND 0x0040 \<noteq> 0"
definition flag_urg :: "tun_tcp_flags \<Rightarrow> bool" where "flag_urg f \<longleftrightarrow> flag_bits f AND 0x0020 \<noteq> 0"
definition flag_ack :: "tun_tcp_flags \<Rightarrow> bool" where "flag_ack f \<longleftrightarrow> flag_bits f AND 0x0010 \<noteq> 0"
definition flag_psh :: "tun_tcp_flags \<Rightarrow> bool" where "flag_psh f \<longleftrightarrow> flag_bits f AND 0x0008 \<noteq> 0"
definition flag_rst :: "tun_tcp_flags \<Rightarrow> bool" where "flag_rst f \<longleftrightarrow> flag_bits f AND 0x0004 \<noteq> 0"
definition flag_syn :: "tun_tcp_flags \<Rightarrow> bool" where "flag_syn f \<longleftrightarrow> flag_bits f AND 0x0002 \<noteq> 0"
definition flag_fin :: "tun_tcp_flags \<Rightarrow> bool" where "flag_fin f \<longleftrightarrow> flag_bits f AND 0x0001 \<noteq> 0"

lemmas flag_defs = flag_ns_def flag_cwr_def flag_ece_def flag_urg_def flag_ack_def flag_psh_def
  flag_rst_def flag_syn_def flag_fin_def

record tun_tcp_segment =
  seg_flow :: tun_packet_flow
  seg_sequence_number :: u32
  seg_acknowledgment_number :: u32
  seg_header_len :: usize
  seg_flags :: tun_tcp_flags
  seg_window_size :: u16
  seg_payload :: bytes

abbreviation seg_ack :: "tun_tcp_segment \<Rightarrow> bool" where "seg_ack seg \<equiv> flag_ack (seg_flags seg)"
abbreviation seg_rst :: "tun_tcp_segment \<Rightarrow> bool" where "seg_rst seg \<equiv> flag_rst (seg_flags seg)"
abbreviation seg_syn :: "tun_tcp_segment \<Rightarrow> bool" where "seg_syn seg \<equiv> flag_syn (seg_flags seg)"
abbreviation seg_fin :: "tun_tcp_segment \<Rightarrow> bool" where "seg_fin seg \<equiv> flag_fin (seg_flags seg)"

record tun_udp_payload =
  udp_flow :: tun_packet_flow
  udp_payload :: bytes

section \<open>Errors\<close>

datatype tun_packet_error =
    PacketTooShort
  | UnsupportedIpVersion u8
  | Ipv4HeaderTooShort usize usize
  | Ipv4TotalLengthTooShort usize usize
  | Ipv4PacketTruncated usize usize
  | Ipv4FragmentedPacket u16 bool
  | Ipv6PacketTruncated usize usize
  | Ipv6ExtensionHeaderUnsupported u8
  | Ipv6ExtensionHeaderTruncated u8 usize usize
  | TransportHeaderTooShort tun_transport_protocol usize usize
  | ExpectedUdpPayload tun_transport_protocol
  | ExpectedTcpSegment tun_transport_protocol
  | ExpectedTcpSynSegment tun_tcp_flags
  | TcpSessionLimitExceeded usize usize
  | TcpDataOffsetTooSmall usize
  | TcpSegmentTruncated usize usize
  | UdpLengthTooShort usize
  | UdpPacketTruncated usize usize
  | NotDnsHijackCandidate "u16 option"
  | MissingUdpSocketAddress
  | MissingTcpSocketAddress
  | IpVersionAddressMismatch tun_ip_version ip_addr ip_addr
  | UdpResponsePayloadTooLarge tun_ip_version usize usize
  | TcpResponsePayloadTooLarge tun_ip_version usize usize
  | DnsResolve dns_error
  | DnsWire dns_wire_error

section \<open>Parsing packets\<close>

record tun_packet_parts =
  parts_flow :: tun_packet_flow
  parts_transport_payload :: bytes

definition parse_transport_ports :: "tun_transport_protocol \<Rightarrow> bytes
    \<Rightarrow> (tun_packet_error, u16 option \<times> u16 option) outcome" where
  "parse_transport_ports protocol payload =
     (if protocol = Tcp \<or> protocol = Udp then
        if length payload < 4 then Err (TransportHeaderTooShort protocol 4 (length payload))
        else obind (read_u16 payload 0) (\<lambda>source. obind (read_u16 payload 2) (\<lambda>destination.
          Ok (Some source, Some destination)))
      else Ok (None, None))"

definition is_ipv6_skippable_extension_header :: "u8 \<Rightarrow> bool" where
  "is_ipv6_skippable_extension_header next_header \<longleftrightarrow> next_header \<in> {0, 43, 60}"

definition is_ipv6_extension_header :: "u8 \<Rightarrow> bool" where
  "is_ipv6_extension_header next_header \<longleftrightarrow> next_header \<in> {0, 43, 44, 50, 51, 60}"

definition parse_ipv4_packet_parts :: "bytes \<Rightarrow> (tun_packet_error, tun_packet_parts) outcome" where
  "parse_ipv4_packet_parts packet =
     (if length packet < 20 then Err PacketTooShort
      else obind (index packet 0) (\<lambda>b0.
        let header_len = unat (b0 AND 0x0f) * 4 in
        if header_len < 20 \<or> header_len > length packet
        then Err (Ipv4HeaderTooShort header_len (length packet))
        else obind (read_u16 packet 2) (\<lambda>total.
          let total_length = unat total in
          if total_length < header_len then Err (Ipv4TotalLengthTooShort total_length header_len)
          else if total_length > length packet then Err (Ipv4PacketTruncated total_length (length packet))
          else obind (read_u16 packet 6) (\<lambda>fragment_control.
            let more_fragments = (fragment_control AND 0x2000 \<noteq> 0);
                fragment_offset = fragment_control AND 0x1fff in
            if more_fragments \<or> fragment_offset \<noteq> 0
            then Err (Ipv4FragmentedPacket fragment_offset more_fragments)
            else obind (index packet 9) (\<lambda>b9.
              let protocol = from_ip_protocol_number b9 in
              obind (read_u32 packet 12) (\<lambda>source_ip.
              obind (read_u32 packet 16) (\<lambda>destination_ip.
              obind (slice packet header_len total_length) (\<lambda>transport_payload.
              obind (parse_transport_ports protocol transport_payload) (\<lambda>(source_port, destination_port).
                Ok \<lparr>parts_flow = \<lparr>flow_ip_version = Ipv4, flow_protocol = protocol,
                      flow_source_ip = V4 source_ip, flow_destination_ip = V4 destination_ip,
                      flow_source_port = source_port, flow_destination_port = destination_port\<rparr>,
                    parts_transport_payload = transport_payload\<rparr>)))))))))"

text \<open>The loop over IPv6 extension headers; \<open>total_length - offset\<close> panics on underflow.\<close>

function parse_ipv6_extensions :: "bytes \<Rightarrow> usize \<Rightarrow> u8 \<Rightarrow> usize
    \<Rightarrow> (tun_packet_error, u8 \<times> usize) outcome" where
  "parse_ipv6_extensions packet total_length next_header offset =
     (if is_ipv6_skippable_extension_header next_header then
        obind (checked_sub total_length offset) (\<lambda>available_len.
          if available_len < 2 then Err (Ipv6ExtensionHeaderTruncated next_header 2 available_len)
          else obind (index packet (offset + 1)) (\<lambda>len_byte.
            let extension_len = (unat len_byte + 1) * 8 in
            if available_len < extension_len
            then Err (Ipv6ExtensionHeaderTruncated next_header extension_len available_len)
            else obind (index packet offset) (\<lambda>next_header'.
              parse_ipv6_extensions packet total_length next_header' (offset + extension_len))))
      else if is_ipv6_extension_header next_header then Err (Ipv6ExtensionHeaderUnsupported next_header)
      else Ok (next_header, offset))"
  by pat_completeness auto
termination
  by (relation "measure (\<lambda>(packet, total_length, next_header, offset). total_length - offset)")
    (auto simp: checked_sub_def split: if_splits)

declare parse_ipv6_extensions.simps [simp del]

definition parse_ipv6_transport_header :: "bytes \<Rightarrow> usize \<Rightarrow> u8 \<Rightarrow> (tun_packet_error, u8 \<times> usize) outcome" where
  "parse_ipv6_transport_header packet total_length next_header =
     parse_ipv6_extensions packet total_length next_header 40"

definition parse_ipv6_packet_parts :: "bytes \<Rightarrow> (tun_packet_error, tun_packet_parts) outcome" where
  "parse_ipv6_packet_parts packet =
     (if length packet < 40 then Err PacketTooShort
      else obind (read_u16 packet 4) (\<lambda>payload_length.
        let total_length = 40 + unat payload_length in
        if total_length > length packet then Err (Ipv6PacketTruncated total_length (length packet))
        else obind (index packet 6) (\<lambda>b6.
          obind (parse_ipv6_transport_header packet total_length b6) (\<lambda>(next_header, transport_offset).
          let protocol = from_ip_protocol_number next_header in
          obind (slice packet 8 24) (\<lambda>source.
          obind (slice packet 24 40) (\<lambda>destination.
          obind (slice packet transport_offset total_length) (\<lambda>transport_payload.
          obind (parse_transport_ports protocol transport_payload) (\<lambda>(source_port, destination_port).
            Ok \<lparr>parts_flow = \<lparr>flow_ip_version = Ipv6, flow_protocol = protocol,
                  flow_source_ip = V6 (from_be_bytes source),
                  flow_destination_ip = V6 (from_be_bytes destination),
                  flow_source_port = source_port, flow_destination_port = destination_port\<rparr>,
                parts_transport_payload = transport_payload\<rparr>))))))))"

definition parse_tun_packet_parts :: "bytes \<Rightarrow> (tun_packet_error, tun_packet_parts) outcome" where
  "parse_tun_packet_parts packet = (case packet of
      [] \<Rightarrow> Err PacketTooShort
    | first # _ \<Rightarrow>
        let version = drop_bit 4 first in
        if version = 4 then parse_ipv4_packet_parts packet
        else if version = 6 then parse_ipv6_packet_parts packet
        else Err (UnsupportedIpVersion version))"

definition parse_tun_packet_flow :: "bytes \<Rightarrow> (tun_packet_error, tun_packet_flow) outcome" where
  "parse_tun_packet_flow packet = obind (parse_tun_packet_parts packet) (\<lambda>parts. Ok (parts_flow parts))"

definition parse_tun_tcp_segment :: "bytes \<Rightarrow> (tun_packet_error, tun_tcp_segment) outcome" where
  "parse_tun_tcp_segment packet = obind (parse_tun_packet_parts packet) (\<lambda>parts.
     let transport = parts_transport_payload parts in
     if flow_protocol (parts_flow parts) \<noteq> Tcp
     then Err (ExpectedTcpSegment (flow_protocol (parts_flow parts)))
     else if length transport < 20 then Err (TransportHeaderTooShort Tcp 20 (length transport))
     else obind (index transport 12) (\<lambda>b12.
       let header_len = unat (drop_bit 4 b12) * 4 in
       if header_len < 20 then Err (TcpDataOffsetTooSmall header_len)
       else if header_len > length transport then Err (TcpSegmentTruncated header_len (length transport))
       else obind (index transport 13) (\<lambda>b13.
         let flags = push_bit 8 (ucast (b12 AND 0x01) :: u16) OR ucast b13 in
         obind (read_u32 transport 4) (\<lambda>sequence_number.
         obind (read_u32 transport 8) (\<lambda>acknowledgment_number.
         obind (read_u16 transport 14) (\<lambda>window_size.
         obind (slice_from transport header_len) (\<lambda>payload.
           Ok \<lparr>seg_flow = parts_flow parts, seg_sequence_number = sequence_number,
               seg_acknowledgment_number = acknowledgment_number, seg_header_len = header_len,
               seg_flags = flags_from_bits flags, seg_window_size = window_size,
               seg_payload = payload\<rparr>)))))))"

definition parse_tun_udp_payload :: "bytes \<Rightarrow> (tun_packet_error, tun_udp_payload) outcome" where
  "parse_tun_udp_payload packet = obind (parse_tun_packet_parts packet) (\<lambda>parts.
     let transport = parts_transport_payload parts in
     if flow_protocol (parts_flow parts) \<noteq> Udp
     then Err (ExpectedUdpPayload (flow_protocol (parts_flow parts)))
     else if length transport < 8 then Err (TransportHeaderTooShort Udp 8 (length transport))
     else obind (read_u16 transport 4) (\<lambda>len.
       let udp_length = unat len in
       if udp_length < 8 then Err (UdpLengthTooShort udp_length)
       else if udp_length > length transport then Err (UdpPacketTruncated udp_length (length transport))
       else obind (slice transport 8 udp_length) (\<lambda>payload.
         Ok \<lparr>udp_flow = parts_flow parts, udp_payload = payload\<rparr>)))"

section \<open>The parsers do not panic\<close>

definition flow_wf :: "tun_packet_flow \<Rightarrow> bool" where
  "flow_wf flow \<longleftrightarrow>
     (case flow_ip_version flow of
        Ipv4 \<Rightarrow> is_ipv4 (flow_source_ip flow) \<and> is_ipv4 (flow_destination_ip flow)
      | Ipv6 \<Rightarrow> is_ipv6 (flow_source_ip flow) \<and> is_ipv6 (flow_destination_ip flow))
     \<and> (flow_source_port flow \<noteq> None \<longleftrightarrow> flow_protocol flow \<in> {Tcp, Udp})
     \<and> (flow_destination_port flow \<noteq> None \<longleftrightarrow> flow_protocol flow \<in> {Tcp, Udp})"

lemma parse_transport_ports_no_panic: "parse_transport_ports protocol payload \<noteq> Panic"
  by (simp add: parse_transport_ports_def outcome_simps)

lemma parse_transport_ports_wf:
  "parse_transport_ports protocol payload = Ok (s, d) \<Longrightarrow>
    (s \<noteq> None \<longleftrightarrow> protocol \<in> {Tcp, Udp}) \<and> (d \<noteq> None \<longleftrightarrow> protocol \<in> {Tcp, Udp})"
  by (auto simp: parse_transport_ports_def outcome_simps split: if_splits)

text \<open>Within the packet, the checked accesses of the extension loop succeed.\<close>

lemma parse_ipv6_extensions_unfold:
  assumes "offset \<le> total_length" and "total_length \<le> length packet"
  shows "parse_ipv6_extensions packet total_length next_header offset =
    (if is_ipv6_skippable_extension_header next_header then
       if total_length - offset < 2
       then Err (Ipv6ExtensionHeaderTruncated next_header 2 (total_length - offset))
       else
         (let extension_len = (unat (packet ! (offset + 1)) + 1) * 8 in
          if total_length - offset < extension_len
          then Err (Ipv6ExtensionHeaderTruncated next_header extension_len (total_length - offset))
          else parse_ipv6_extensions packet total_length (packet ! offset) (offset + extension_len))
     else if is_ipv6_extension_header next_header then Err (Ipv6ExtensionHeaderUnsupported next_header)
     else Ok (next_header, offset))"
  using assms by (subst parse_ipv6_extensions.simps) (auto simp: checked_sub_def index_def Let_def)

definition extensions_spec :: "usize \<Rightarrow> usize \<Rightarrow> (tun_packet_error, u8 \<times> usize) outcome \<Rightarrow> bool" where
  "extensions_spec offset total_length r \<longleftrightarrow> (case r of
      Ok (next_header, transport_offset) \<Rightarrow>
        offset \<le> transport_offset \<and> transport_offset \<le> total_length
        \<and> \<not> is_ipv6_extension_header next_header
    | Err _ \<Rightarrow> True
    | Panic \<Rightarrow> False)"

lemma extensions_spec_step:
  "extensions_spec (offset + n) total_length r \<Longrightarrow> extensions_spec offset total_length r"
  by (auto simp: extensions_spec_def split: outcome.splits)

lemma parse_ipv6_extensions_spec:
  assumes "offset \<le> total_length" and "total_length \<le> length packet"
  shows "extensions_spec offset total_length (parse_ipv6_extensions packet total_length next_header offset)"
  using assms
proof (induction "total_length - offset" arbitrary: offset next_header rule: less_induct)
  case less
  show ?case
  proof (cases "is_ipv6_skippable_extension_header next_header \<and>
      (unat (packet ! (offset + 1)) + 1) * 8 \<le> total_length - offset")
    case True
    let ?ext = "(unat (packet ! (offset + 1)) + 1) * 8"
    have "extensions_spec (offset + ?ext) total_length
        (parse_ipv6_extensions packet total_length (packet ! offset) (offset + ?ext))"
      using True less.prems by (intro less.hyps) auto
    with True less.prems show ?thesis
      by (simp add: parse_ipv6_extensions_unfold [of offset] Let_def extensions_spec_step)
  next
    case False
    with less.prems show ?thesis
      by (auto simp: parse_ipv6_extensions_unfold [of offset] Let_def extensions_spec_def)
  qed
qed

lemma parse_ipv4_packet_parts_no_panic: "parse_ipv4_packet_parts packet \<noteq> Panic"
  by (auto simp: parse_ipv4_packet_parts_def index_def outcome_simps Let_def parse_transport_ports_no_panic
      split: if_splits prod.splits)

lemma parse_ipv6_packet_parts_no_panic: "parse_ipv6_packet_parts packet \<noteq> Panic"
proof -
  have spec: "extensions_spec 40 (40 + n) (parse_ipv6_transport_header packet (40 + n) b)"
    if "\<not> length packet < 40 + n" for n b
    unfolding parse_ipv6_transport_header_def using that by (intro parse_ipv6_extensions_spec) auto
  have no_panic: "parse_ipv6_transport_header packet (40 + n) b \<noteq> Panic"
    if "\<not> length packet < 40 + n" for n b
    using spec [OF that, of b] by (auto simp: extensions_spec_def)
  have bound: "t \<le> 40 + n"
    if "\<not> length packet < 40 + n" and "parse_ipv6_transport_header packet (40 + n) b = Ok (h, t)" for n b h t
    using spec [OF that(1), of b] that(2) by (simp add: extensions_spec_def)
  show ?thesis
    by (auto simp: parse_ipv6_packet_parts_def outcome_simps Let_def parse_transport_ports_no_panic
        slice_def no_panic split: if_splits prod.splits dest: bound)
qed

lemma parse_tun_packet_parts_no_panic: "parse_tun_packet_parts packet \<noteq> Panic"
  by (auto simp: parse_tun_packet_parts_def Let_def parse_ipv4_packet_parts_no_panic
      parse_ipv6_packet_parts_no_panic split: list.splits)

lemma parse_tun_packet_parts_wf:
  "parse_tun_packet_parts packet = Ok parts \<Longrightarrow> flow_wf (parts_flow parts)"
  by (auto simp: parse_tun_packet_parts_def parse_ipv4_packet_parts_def parse_ipv6_packet_parts_def
      outcome_simps Let_def flow_wf_def split: list.splits if_splits prod.splits
      dest: parse_transport_ports_wf)

lemma parse_tun_tcp_segment_no_panic: "parse_tun_tcp_segment packet \<noteq> Panic"
  by (auto simp: parse_tun_tcp_segment_def parse_tun_packet_parts_no_panic outcome_simps Let_def
      split: if_splits)

lemma parse_tun_udp_payload_no_panic: "parse_tun_udp_payload packet \<noteq> Panic"
  by (auto simp: parse_tun_udp_payload_def parse_tun_packet_parts_no_panic outcome_simps Let_def
      split: if_splits)

lemma parse_tun_packet_flow_no_panic: "parse_tun_packet_flow packet \<noteq> Panic"
  by (auto simp: parse_tun_packet_flow_def parse_tun_packet_parts_no_panic outcome_simps)

text \<open>The parsers accept any bytes a device delivers: none of them panics, whatever the packet's length
  and contents, and a flow that is parsed is well-formed, with addresses of its IP version and with ports
  exactly for TCP and UDP.\<close>

theorem packet_parsers_total:
  "(case parse_tun_packet_flow packet of Ok flow \<Rightarrow> flow_wf flow | Err e \<Rightarrow> True | Panic \<Rightarrow> False)
   \<and> (case parse_tun_tcp_segment packet of
        Ok segment \<Rightarrow> flow_wf (seg_flow segment) \<and> flow_protocol (seg_flow segment) = Tcp
      | Err e \<Rightarrow> True | Panic \<Rightarrow> False)
   \<and> (case parse_tun_udp_payload packet of
        Ok udp \<Rightarrow> flow_wf (udp_flow udp) \<and> flow_protocol (udp_flow udp) = Udp
      | Err e \<Rightarrow> True | Panic \<Rightarrow> False)"
proof (intro conjI)
  show "case parse_tun_packet_flow packet of Ok flow \<Rightarrow> flow_wf flow | Err e \<Rightarrow> True | Panic \<Rightarrow> False"
    using parse_tun_packet_flow_no_panic [of packet]
    by (auto simp: parse_tun_packet_flow_def obind_Ok_iff dest: parse_tun_packet_parts_wf split: outcome.split)
  show "case parse_tun_tcp_segment packet of
      Ok segment \<Rightarrow> flow_wf (seg_flow segment) \<and> flow_protocol (seg_flow segment) = Tcp
    | Err e \<Rightarrow> True | Panic \<Rightarrow> False"
    using parse_tun_tcp_segment_no_panic [of packet]
    by (auto simp: parse_tun_tcp_segment_def obind_Ok_iff Let_def dest: parse_tun_packet_parts_wf
        split: outcome.split if_splits)
  show "case parse_tun_udp_payload packet of
      Ok udp \<Rightarrow> flow_wf (udp_flow udp) \<and> flow_protocol (udp_flow udp) = Udp
    | Err e \<Rightarrow> True | Panic \<Rightarrow> False"
    using parse_tun_udp_payload_no_panic [of packet]
    by (auto simp: parse_tun_udp_payload_def obind_Ok_iff Let_def dest: parse_tun_packet_parts_wf
        split: outcome.split if_splits)
qed

end
