(* ===== verification/Keli_Tun_Build.thy ===== *)
theory Keli_Tun_Build
  imports Keli_Tun_Packet
begin

text \<open>
  The response-packet builders of \<open>keli-net-core/src/tun.rs\<close> with their Internet checksums. A builder
  allocates a zeroed buffer and writes the header fields by slice copies, each of which panics where
  Rust would; the lemmas give the exact layout it produces.
\<close>

section \<open>Internet checksum\<close>

fun add_checksum_bytes :: "u32 \<Rightarrow> bytes \<Rightarrow> ('e, u32) outcome" where
  "add_checksum_bytes acc (a # b # rest) =
     obind (add_u32 acc (ucast (from_be_bytes [a, b] :: u16))) (\<lambda>acc'. add_checksum_bytes acc' rest)"
| "add_checksum_bytes acc [b] = add_u32 acc (push_bit 8 (ucast b))"
| "add_checksum_bytes acc [] = Ok acc"

text \<open>One round of the carry fold, on naturals.\<close>

lemma unat_fold_step:
  "unat ((acc AND 0xffff) + drop_bit 16 acc :: u32) = unat acc mod 65536 + unat acc div 65536"
proof -
  have "acc AND 0xffff = take_bit 16 acc"
    by (simp add: take_bit_eq_mask mask_eq_exp_minus_1)
  then have low: "unat (acc AND 0xffff) = unat acc mod 65536"
    by (simp only: unsigned_take_bit_eq) (simp add: take_bit_eq_mod)
  have high: "unat (drop_bit 16 acc) = unat acc div 65536"
    using unat_u32_less [of acc]
    by (simp only: unsigned_drop_bit_eq) (simp add: drop_bit_eq_div take_bit_nat_eq_self)
  have "unat acc mod 65536 < 65536" and "unat acc div 65536 < 65536"
    using unat_u32_less [of acc] by (simp_all add: less_mult_imp_div_less)
  then show ?thesis
    by (simp add: unat_word_ariths low high)
qed

function fold_checksum :: "u32 \<Rightarrow> u32" where
  "fold_checksum acc =
     (if acc > 0xffff then fold_checksum ((acc AND 0xffff) + drop_bit 16 acc) else acc)"
  by pat_completeness auto
termination
proof (relation "measure unat")
  fix acc :: u32
  assume "0xffff < acc"
  then have "unat acc div 65536 > 0"
    by (simp add: word_less_nat_alt div_greater_zero_iff)
  then have "unat acc mod 65536 + unat acc div 65536 < unat acc"
    using div_mult_mod_eq [of "unat acc" 65536] by linarith
  then show "((acc AND 0xffff) + drop_bit 16 acc, acc) \<in> measure unat"
    by (simp add: unat_fold_step)
qed simp

declare fold_checksum.simps [simp del]

definition finish_checksum :: "u32 \<Rightarrow> u16" where
  "finish_checksum acc = NOT (ucast (fold_checksum acc))"

definition nonzero_checksum :: "u32 \<Rightarrow> u16" where
  "nonzero_checksum acc = (let c = finish_checksum acc in if c = 0 then 0xffff else c)"

definition checksum :: "bytes \<Rightarrow> ('e, u16) outcome" where
  "checksum bs = obind (add_checksum_bytes 0 bs) (\<lambda>acc. Ok (finish_checksum acc))"

definition udp_checksum_ipv4 :: "u32 \<Rightarrow> u32 \<Rightarrow> bytes \<Rightarrow> ('e, u16) outcome" where
  "udp_checksum_ipv4 source_ip destination_ip udp_datagram =
     obind (add_checksum_bytes 0 (be_bytes 4 source_ip)) (\<lambda>s1.
     obind (add_checksum_bytes s1 (be_bytes 4 destination_ip)) (\<lambda>s2.
     obind (add_checksum_bytes s2 [0, ip_protocol_number Udp]) (\<lambda>s3.
     obind (add_checksum_bytes s3 (be_bytes 2 (of_nat (length udp_datagram) :: u16))) (\<lambda>s4.
     obind (add_checksum_bytes s4 udp_datagram) (\<lambda>s5.
     Ok (nonzero_checksum s5))))))"

definition udp_checksum_ipv6 :: "u128 \<Rightarrow> u128 \<Rightarrow> bytes \<Rightarrow> ('e, u16) outcome" where
  "udp_checksum_ipv6 source_ip destination_ip udp_datagram =
     obind (add_checksum_bytes 0 (be_bytes 16 source_ip)) (\<lambda>s1.
     obind (add_checksum_bytes s1 (be_bytes 16 destination_ip)) (\<lambda>s2.
     obind (add_checksum_bytes s2 (be_bytes 4 (of_nat (length udp_datagram) :: u32))) (\<lambda>s3.
     obind (add_checksum_bytes s3 [0, 0, 0, ip_protocol_number Udp]) (\<lambda>s4.
     obind (add_checksum_bytes s4 udp_datagram) (\<lambda>s5.
     Ok (nonzero_checksum s5))))))"

definition tcp_checksum_ipv4 :: "u32 \<Rightarrow> u32 \<Rightarrow> bytes \<Rightarrow> ('e, u16) outcome" where
  "tcp_checksum_ipv4 source_ip destination_ip tcp_segment =
     obind (add_checksum_bytes 0 (be_bytes 4 source_ip)) (\<lambda>s1.
     obind (add_checksum_bytes s1 (be_bytes 4 destination_ip)) (\<lambda>s2.
     obind (add_checksum_bytes s2 [0, ip_protocol_number Tcp]) (\<lambda>s3.
     obind (add_checksum_bytes s3 (be_bytes 2 (of_nat (length tcp_segment) :: u16))) (\<lambda>s4.
     obind (add_checksum_bytes s4 tcp_segment) (\<lambda>s5.
     Ok (finish_checksum s5))))))"

definition tcp_checksum_ipv6 :: "u128 \<Rightarrow> u128 \<Rightarrow> bytes \<Rightarrow> ('e, u16) outcome" where
  "tcp_checksum_ipv6 source_ip destination_ip tcp_segment =
     obind (add_checksum_bytes 0 (be_bytes 16 source_ip)) (\<lambda>s1.
     obind (add_checksum_bytes s1 (be_bytes 16 destination_ip)) (\<lambda>s2.
     obind (add_checksum_bytes s2 (be_bytes 4 (of_nat (length tcp_segment) :: u32))) (\<lambda>s3.
     obind (add_checksum_bytes s3 [0, 0, 0, ip_protocol_number Tcp]) (\<lambda>s4.
     obind (add_checksum_bytes s4 tcp_segment) (\<lambda>s5.
     Ok (finish_checksum s5))))))"

section \<open>Builders\<close>

text \<open>\<open>f(&mut buf[a..])\<close>.\<close>

definition on_tail :: "usize \<Rightarrow> ('a list \<Rightarrow> ('e, 'a list) outcome) \<Rightarrow> 'a list \<Rightarrow> ('e, 'a list) outcome" where
  "on_tail a f buf = obind (slice_from buf a) (\<lambda>tail. obind (f tail) (\<lambda>tail'. Ok (take a buf @ tail')))"

definition write_udp_datagram :: "u16 \<Rightarrow> u16 \<Rightarrow> bytes \<Rightarrow> bytes \<Rightarrow> ('e, bytes) outcome" where
  "write_udp_datagram source_port destination_port payload datagram =
     (let udp_length = 8 + length payload in
      obind (copy_from_slice 0 2 (be_bytes 2 source_port) datagram) (\<lambda>d.
      obind (copy_from_slice 2 4 (be_bytes 2 destination_port) d) (\<lambda>d.
      obind (copy_from_slice 4 6 (be_bytes 2 (of_nat udp_length :: u16)) d) (\<lambda>d.
      obind (copy_from_slice 6 8 (be_bytes 2 (0 :: u16)) d) (\<lambda>d.
      copy_from_slice 8 (length d) payload d)))))"

definition write_tcp_segment :: "u16 \<Rightarrow> u16 \<Rightarrow> u32 \<Rightarrow> u32 \<Rightarrow> tun_tcp_flags \<Rightarrow> u16 \<Rightarrow> bytes
    \<Rightarrow> bytes \<Rightarrow> ('e, bytes) outcome" where
  "write_tcp_segment source_port destination_port sequence_number acknowledgment_number flags
       window_size payload segment =
     obind (copy_from_slice 0 2 (be_bytes 2 source_port) segment) (\<lambda>g.
     obind (copy_from_slice 2 4 (be_bytes 2 destination_port) g) (\<lambda>g.
     obind (copy_from_slice 4 8 (be_bytes 4 sequence_number) g) (\<lambda>g.
     obind (copy_from_slice 8 12 (be_bytes 4 acknowledgment_number) g) (\<lambda>g.
     obind (set_index 12 (push_bit 4 5 OR ucast (drop_bit 8 (flag_bits flags) AND 0x01)) g) (\<lambda>g.
     obind (set_index 13 (ucast (flag_bits flags)) g) (\<lambda>g.
     obind (copy_from_slice 14 16 (be_bytes 2 window_size) g) (\<lambda>g.
     obind (copy_from_slice 16 18 (be_bytes 2 (0 :: u16)) g) (\<lambda>g.
     obind (copy_from_slice 18 20 (be_bytes 2 (0 :: u16)) g) (\<lambda>g.
     copy_from_slice 20 (length g) payload g)))))))))"

definition build_ipv4_udp_response_packet :: "u32 \<Rightarrow> u32 \<Rightarrow> u16 \<Rightarrow> u16 \<Rightarrow> bytes \<Rightarrow> ('e, bytes) outcome" where
  "build_ipv4_udp_response_packet source_ip destination_ip source_port destination_port payload =
     (let udp_length = 8 + length payload;
          total_length = 20 + udp_length;
          packet = replicate total_length 0 in
      obind (set_index 0 0x45 packet) (\<lambda>p.
      obind (copy_from_slice 2 4 (be_bytes 2 (of_nat total_length :: u16)) p) (\<lambda>p.
      obind (set_index 8 64 p) (\<lambda>p.
      obind (set_index 9 (ip_protocol_number Udp) p) (\<lambda>p.
      obind (copy_from_slice 12 16 (be_bytes 4 source_ip) p) (\<lambda>p.
      obind (copy_from_slice 16 20 (be_bytes 4 destination_ip) p) (\<lambda>p.
      obind (on_tail 20 (write_udp_datagram source_port destination_port payload) p) (\<lambda>p.
      obind (slice_from p 20) (\<lambda>datagram.
      obind (udp_checksum_ipv4 source_ip destination_ip datagram) (\<lambda>udp_checksum.
      obind (copy_from_slice 26 28 (be_bytes 2 udp_checksum) p) (\<lambda>p.
      obind (slice p 0 20) (\<lambda>header.
      obind (checksum header) (\<lambda>header_checksum.
      copy_from_slice 10 12 (be_bytes 2 header_checksum) p)))))))))))))"

definition build_ipv6_udp_response_packet :: "u128 \<Rightarrow> u128 \<Rightarrow> u16 \<Rightarrow> u16 \<Rightarrow> bytes \<Rightarrow> ('e, bytes) outcome" where
  "build_ipv6_udp_response_packet source_ip destination_ip source_port destination_port payload =
     (let udp_length = 8 + length payload;
          packet = replicate (40 + udp_length) 0 in
      obind (set_index 0 0x60 packet) (\<lambda>p.
      obind (copy_from_slice 4 6 (be_bytes 2 (of_nat udp_length :: u16)) p) (\<lambda>p.
      obind (set_index 6 (ip_protocol_number Udp) p) (\<lambda>p.
      obind (set_index 7 64 p) (\<lambda>p.
      obind (copy_from_slice 8 24 (be_bytes 16 source_ip) p) (\<lambda>p.
      obind (copy_from_slice 24 40 (be_bytes 16 destination_ip) p) (\<lambda>p.
      obind (on_tail 40 (write_udp_datagram source_port destination_port payload) p) (\<lambda>p.
      obind (slice_from p 40) (\<lambda>datagram.
      obind (udp_checksum_ipv6 source_ip destination_ip datagram) (\<lambda>udp_checksum.
      copy_from_slice 46 48 (be_bytes 2 udp_checksum) p))))))))))"

definition build_ipv4_tcp_response_packet :: "u32 \<Rightarrow> u32 \<Rightarrow> u16 \<Rightarrow> u16 \<Rightarrow> u32 \<Rightarrow> u32 \<Rightarrow> tun_tcp_flags
    \<Rightarrow> u16 \<Rightarrow> bytes \<Rightarrow> ('e, bytes) outcome" where
  "build_ipv4_tcp_response_packet source_ip destination_ip source_port destination_port
       sequence_number acknowledgment_number flags window_size payload =
     (let tcp_length = 20 + length payload;
          total_length = 20 + tcp_length;
          packet = replicate total_length 0 in
      obind (set_index 0 0x45 packet) (\<lambda>p.
      obind (copy_from_slice 2 4 (be_bytes 2 (of_nat total_length :: u16)) p) (\<lambda>p.
      obind (set_index 8 64 p) (\<lambda>p.
      obind (set_index 9 (ip_protocol_number Tcp) p) (\<lambda>p.
      obind (copy_from_slice 12 16 (be_bytes 4 source_ip) p) (\<lambda>p.
      obind (copy_from_slice 16 20 (be_bytes 4 destination_ip) p) (\<lambda>p.
      obind (on_tail 20 (write_tcp_segment source_port destination_port sequence_number
        acknowledgment_number flags window_size payload) p) (\<lambda>p.
      obind (slice_from p 20) (\<lambda>segment.
      obind (tcp_checksum_ipv4 source_ip destination_ip segment) (\<lambda>tcp_checksum.
      obind (copy_from_slice 36 38 (be_bytes 2 tcp_checksum) p) (\<lambda>p.
      obind (slice p 0 20) (\<lambda>header.
      obind (checksum header) (\<lambda>header_checksum.
      copy_from_slice 10 12 (be_bytes 2 header_checksum) p)))))))))))))"

definition build_ipv6_tcp_response_packet :: "u128 \<Rightarrow> u128 \<Rightarrow> u16 \<Rightarrow> u16 \<Rightarrow> u32 \<Rightarrow> u32 \<Rightarrow> tun_tcp_flags
    \<Rightarrow> u16 \<Rightarrow> bytes \<Rightarrow> ('e, bytes) outcome" where
  "build_ipv6_tcp_response_packet source_ip destination_ip source_port destination_port
       sequence_number acknowledgment_number flags window_size payload =
     (let tcp_length = 20 + length payload;
          packet = replicate (40 + tcp_length) 0 in
      obind (set_index 0 0x60 packet) (\<lambda>p.
      obind (copy_from_slice 4 6 (be_bytes 2 (of_nat tcp_length :: u16)) p) (\<lambda>p.
      obind (set_index 6 (ip_protocol_number Tcp) p) (\<lambda>p.
      obind (set_index 7 64 p) (\<lambda>p.
      obind (copy_from_slice 8 24 (be_bytes 16 source_ip) p) (\<lambda>p.
      obind (copy_from_slice 24 40 (be_bytes 16 destination_ip) p) (\<lambda>p.
      obind (on_tail 40 (write_tcp_segment source_port destination_port sequence_number
        acknowledgment_number flags window_size payload) p) (\<lambda>p.
      obind (slice_from p 40) (\<lambda>segment.
      obind (tcp_checksum_ipv6 source_ip destination_ip segment) (\<lambda>tcp_checksum.
      copy_from_slice 56 58 (be_bytes 2 tcp_checksum) p))))))))))"

definition build_tun_udp_response_packet :: "tun_packet_flow \<Rightarrow> bytes \<Rightarrow> (tun_packet_error, bytes) outcome" where
  "build_tun_udp_response_packet flow payload =
     (if flow_protocol flow \<noteq> Udp then Err (ExpectedUdpPayload (flow_protocol flow))
      else obind (ok_or (flow_destination_port flow) MissingUdpSocketAddress) (\<lambda>source_port.
      obind (ok_or (flow_source_port flow) MissingUdpSocketAddress) (\<lambda>destination_port.
      case (flow_ip_version flow, flow_destination_ip flow, flow_source_ip flow) of
        (Ipv4, V4 source_ip, V4 destination_ip) \<Rightarrow>
          (let max_payload_len = 65535 - 20 - 8 in
           if length payload > max_payload_len
           then Err (UdpResponsePayloadTooLarge (flow_ip_version flow) (length payload) max_payload_len)
           else build_ipv4_udp_response_packet source_ip destination_ip source_port destination_port payload)
      | (Ipv6, V6 source_ip, V6 destination_ip) \<Rightarrow>
          (let max_payload_len = 65535 - 8 in
           if length payload > max_payload_len
           then Err (UdpResponsePayloadTooLarge (flow_ip_version flow) (length payload) max_payload_len)
           else build_ipv6_udp_response_packet source_ip destination_ip source_port destination_port payload)
      | _ \<Rightarrow> Err (IpVersionAddressMismatch (flow_ip_version flow) (flow_source_ip flow)
            (flow_destination_ip flow)))))"

definition build_tun_tcp_response_packet :: "tun_packet_flow \<Rightarrow> u32 \<Rightarrow> u32 \<Rightarrow> tun_tcp_flags \<Rightarrow> u16 \<Rightarrow> bytes
    \<Rightarrow> (tun_packet_error, bytes) outcome" where
  "build_tun_tcp_response_packet flow sequence_number acknowledgment_number flags window_size payload =
     (if flow_protocol flow \<noteq> Tcp then Err (ExpectedTcpSegment (flow_protocol flow))
      else obind (ok_or (flow_destination_port flow) MissingTcpSocketAddress) (\<lambda>source_port.
      obind (ok_or (flow_source_port flow) MissingTcpSocketAddress) (\<lambda>destination_port.
      case (flow_ip_version flow, flow_destination_ip flow, flow_source_ip flow) of
        (Ipv4, V4 source_ip, V4 destination_ip) \<Rightarrow>
          (let max_payload_len = 65535 - 20 - 20 in
           if length payload > max_payload_len
           then Err (TcpResponsePayloadTooLarge (flow_ip_version flow) (length payload) max_payload_len)
           else build_ipv4_tcp_response_packet source_ip destination_ip source_port destination_port
             sequence_number acknowledgment_number flags window_size payload)
      | (Ipv6, V6 source_ip, V6 destination_ip) \<Rightarrow>
          (let max_payload_len = 65535 - 20 in
           if length payload > max_payload_len
           then Err (TcpResponsePayloadTooLarge (flow_ip_version flow) (length payload) max_payload_len)
           else build_ipv6_tcp_response_packet source_ip destination_ip source_port destination_port
             sequence_number acknowledgment_number flags window_size payload)
      | _ \<Rightarrow> Err (IpVersionAddressMismatch (flow_ip_version flow) (flow_source_ip flow)
            (flow_destination_ip flow)))))"

section \<open>Sequence numbers and control segments\<close>

definition tcp_segment_sequence_len :: "tun_tcp_segment \<Rightarrow> u32" where
  "tcp_segment_sequence_len segment =
     of_nat (length (seg_payload segment)) + (if seg_syn segment then 1 else 0)
       + (if seg_fin segment then 1 else 0)"

definition tcp_segment_next_sequence_number :: "tun_tcp_segment \<Rightarrow> u32" where
  "tcp_segment_next_sequence_number segment =
     seg_sequence_number segment + tcp_segment_sequence_len segment"

definition is_initial_tcp_syn_segment :: "tun_tcp_segment \<Rightarrow> bool" where
  "is_initial_tcp_syn_segment segment \<longleftrightarrow> seg_syn segment \<and> \<not> seg_ack segment \<and> \<not> seg_rst segment"

definition tcp_reset_sequence_number :: "tun_tcp_segment \<Rightarrow> u32" where
  "tcp_reset_sequence_number segment =
     (if seg_ack segment then seg_acknowledgment_number segment else 0)"

definition tcp_reset_acknowledgment_number :: "tun_tcp_segment \<Rightarrow> u32" where
  "tcp_reset_acknowledgment_number segment = tcp_segment_next_sequence_number segment"

definition build_tun_tcp_reset_response_packet :: "tun_tcp_segment \<Rightarrow> (tun_packet_error, bytes) outcome" where
  "build_tun_tcp_reset_response_packet segment =
     build_tun_tcp_response_packet (seg_flow segment) (tcp_reset_sequence_number segment)
       (tcp_reset_acknowledgment_number segment) (flags_from_bits 0x0014) 0 []"

definition build_tun_tcp_syn_ack_response_packet :: "tun_tcp_segment \<Rightarrow> u32 \<Rightarrow> u16
    \<Rightarrow> (tun_packet_error, bytes) outcome" where
  "build_tun_tcp_syn_ack_response_packet segment server_initial_sequence_number window_size =
     (if \<not> is_initial_tcp_syn_segment segment then Err (ExpectedTcpSynSegment (seg_flags segment))
      else build_tun_tcp_response_packet (seg_flow segment) server_initial_sequence_number
        (tcp_segment_next_sequence_number segment) (flags_from_bits 0x0012) window_size [])"

definition build_tun_tcp_ack_response_packet :: "tun_packet_flow \<Rightarrow> u32 \<Rightarrow> u32 \<Rightarrow> u16
    \<Rightarrow> (tun_packet_error, bytes) outcome" where
  "build_tun_tcp_ack_response_packet flow sequence_number acknowledgment_number window_size =
     build_tun_tcp_response_packet flow sequence_number acknowledgment_number
       (flags_from_bits 0x0010) window_size []"

definition build_tun_tcp_payload_response_packet :: "tun_packet_flow \<Rightarrow> u32 \<Rightarrow> u32 \<Rightarrow> u16 \<Rightarrow> bytes
    \<Rightarrow> (tun_packet_error, bytes) outcome" where
  "build_tun_tcp_payload_response_packet flow sequence_number acknowledgment_number window_size payload =
     build_tun_tcp_response_packet flow sequence_number acknowledgment_number
       (flags_from_bits 0x0018) window_size payload"

definition build_tun_tcp_fin_ack_response_packet :: "tun_packet_flow \<Rightarrow> u32 \<Rightarrow> u32 \<Rightarrow> u16
    \<Rightarrow> (tun_packet_error, bytes) outcome" where
  "build_tun_tcp_fin_ack_response_packet flow sequence_number acknowledgment_number window_size =
     build_tun_tcp_response_packet flow sequence_number acknowledgment_number
       (flags_from_bits 0x0011) window_size []"

section \<open>Checksum sums\<close>

text \<open>The sum of the big-endian 16-bit words of a byte string, without wrap-around.\<close>

fun word_sum :: "bytes \<Rightarrow> nat" where
  "word_sum (a # b # rest) = 256 * unat a + unat b + word_sum rest"
| "word_sum [b] = 256 * unat b"
| "word_sum [] = 0"

lemma unat_from_be_pair: "unat (from_be_bytes [a, b] :: u16) = 256 * unat a + unat b"
proof -
  have "from_be_bytes [a, b] = push_bit 8 (ucast a :: u16) OR ucast b"
    by (simp add: from_be_bytes_def be_step_def)
  also have "\<dots> = push_bit 8 (ucast a) + ucast b"
    by (rule disjunctive_add [symmetric]) (auto simp: bit_simps dest!: bit_imp_le_length)
  also have "unat \<dots> = 256 * unat a + unat b"
    using unat_u8_le [of a] unat_u8_le [of b]
    by (simp add: unat_word_ariths push_bit_eq_mult unat_ucast_up)
  finally show ?thesis .
qed

lemma word_sum_append:
  "even (length xs) \<Longrightarrow> word_sum (xs @ ys) = word_sum xs + word_sum ys"
  by (induction xs rule: word_sum.induct) simp_all

lemma word_sum_bound: "word_sum bs \<le> 65535 * ((length bs + 1) div 2)"
proof (induction bs rule: word_sum.induct)
  case (1 a b rest)
  then show ?case
    using unat_u8_le [of a] unat_u8_le [of b] by simp
next
  case (2 b)
  then show ?case
    using unat_u8_le [of b] by simp
qed simp

lemma add_checksum_bytes_word_sum:
  "unat acc + word_sum bs < 2 ^ 32 \<Longrightarrow>
    add_checksum_bytes acc bs = Ok (acc + of_nat (word_sum bs))"
proof (induction bs arbitrary: acc rule: word_sum.induct)
  case (1 a b rest)
  let ?w = "ucast (from_be_bytes [a, b] :: u16) :: u32"
  have w: "unat ?w = 256 * unat a + unat b"
    by (simp add: unat_ucast_up unat_from_be_pair)
  then have fits: "unat acc + unat ?w < 2 ^ 32" and sum: "unat (acc + ?w) = unat acc + unat ?w"
    using "1.prems" by (simp_all add: unat_word_ariths)
  moreover have "?w = of_nat (256 * unat a + unat b)"
    by (simp flip: w)
  ultimately show ?case
    using "1.IH" [of "acc + ?w"] "1.prems" w by (simp add: add_u32_def ac_simps)
next
  case (2 b)
  have w: "unat (push_bit 8 (ucast b :: u32)) = 256 * unat b"
    using unat_u8_le [of b] by (simp add: push_bit_eq_mult unat_word_ariths unat_ucast_up)
  moreover have "push_bit 8 (ucast b :: u32) = of_nat (256 * unat b)"
    by (simp flip: w)
  ultimately show ?case
    using "2.prems" by (simp add: add_u32_def)
qed simp

definition fold16 :: "nat \<Rightarrow> nat" where
  "fold16 n = (if n = 0 then 0 else (n - 1) mod 65535 + 1)"

lemma fold16_small: "n < 65536 \<Longrightarrow> fold16 n = n"
  by (auto simp: fold16_def)

lemma fold16_step: "65535 < n \<Longrightarrow> fold16 (n mod 65536 + n div 65536) = fold16 n"
proof -
  assume gt: "65535 < n"
  define q r where "q = n div 65536" and "r = n mod 65536"
  have n: "n = q * 65536 + r" and "q > 0"
    using gt by (simp_all add: q_def r_def div_greater_zero_iff)
  have "n - 1 = (r + q - 1) + q * 65535"
    using n \<open>q > 0\<close> by simp
  then have "(n - 1) mod 65535 = (r + q - 1) mod 65535"
    by (simp only: mod_mult_self1)
  with \<open>q > 0\<close> gt show ?thesis
    by (simp add: fold16_def flip: q_def r_def)
qed

lemma unat_fold_checksum: "unat (fold_checksum acc) = fold16 (unat acc)"
proof (induction acc rule: fold_checksum.induct)
  case (1 acc)
  show ?case
  proof (cases "0xffff < acc")
    case True
    then have "65535 < unat acc" by (simp add: word_less_nat_alt)
    with 1 True show ?thesis
      by (subst fold_checksum.simps) (simp add: unat_fold_step fold16_step)
  next
    case False
    then have "unat acc < 65536" by (simp add: word_less_nat_alt)
    with False show ?thesis
      by (subst fold_checksum.simps) (simp add: fold16_small)
  qed
qed

lemma fold16_bound: "fold16 n < 65536"
  by (simp add: fold16_def)

lemma unat_finish_checksum: "unat (finish_checksum acc) = 65535 - fold16 (unat acc)"
proof -
  have "unat (ucast (fold_checksum acc) :: u16) = fold16 (unat acc)"
    using fold16_bound [of "unat acc"]
    by (simp add: unsigned_ucast_eq unat_fold_checksum take_bit_nat_eq_self)
  moreover have "unat (NOT w) = 65535 - unat w" for w :: u16
  proof -
    have "NOT w = 0xffff - w" by (simp add: not_eq_complement)
    moreover have "w \<le> 0xffff" using unat_u16_le [of w] by (simp add: word_le_nat_alt)
    ultimately show ?thesis by (simp add: unat_sub)
  qed
  ultimately show ?thesis
    by (simp add: finish_checksum_def)
qed


section \<open>Packet layout\<close>

definition ipv4_header :: "u16 \<Rightarrow> u8 \<Rightarrow> u16 \<Rightarrow> u32 \<Rightarrow> u32 \<Rightarrow> bytes" where
  "ipv4_header total_length protocol header_checksum source_ip destination_ip =
     [0x45, 0] @ be_bytes 2 total_length @ [0, 0, 0, 0, 64, protocol] @ be_bytes 2 header_checksum
       @ be_bytes 4 source_ip @ be_bytes 4 destination_ip"

definition ipv6_header :: "u16 \<Rightarrow> u8 \<Rightarrow> u128 \<Rightarrow> u128 \<Rightarrow> bytes" where
  "ipv6_header payload_length next_header source_ip destination_ip =
     [0x60, 0, 0, 0] @ be_bytes 2 payload_length @ [next_header, 64]
       @ be_bytes 16 source_ip @ be_bytes 16 destination_ip"

definition udp_datagram :: "u16 \<Rightarrow> u16 \<Rightarrow> u16 \<Rightarrow> bytes \<Rightarrow> bytes" where
  "udp_datagram source_port destination_port udp_checksum payload =
     be_bytes 2 source_port @ be_bytes 2 destination_port
       @ be_bytes 2 (of_nat (8 + length payload) :: u16) @ be_bytes 2 udp_checksum @ payload"

definition tcp_segment_bytes :: "u16 \<Rightarrow> u16 \<Rightarrow> u32 \<Rightarrow> u32 \<Rightarrow> tun_tcp_flags \<Rightarrow> u16 \<Rightarrow> u16 \<Rightarrow> bytes \<Rightarrow> bytes" where
  "tcp_segment_bytes source_port destination_port sequence_number acknowledgment_number flags
       window_size tcp_checksum payload =
     be_bytes 2 source_port @ be_bytes 2 destination_port @ be_bytes 4 sequence_number
       @ be_bytes 4 acknowledgment_number
       @ [0x50 OR ucast (drop_bit 8 (flag_bits flags) AND 0x01), ucast (flag_bits flags)]
       @ be_bytes 2 window_size @ be_bytes 2 tcp_checksum @ [0, 0] @ payload"

lemma length_ipv4_header [simp]: "length (ipv4_header t p c s d) = 20"
  and length_ipv6_header [simp]: "length (ipv6_header n p s6 d6) = 40"
  and length_udp_datagram [simp]: "length (udp_datagram sp dp c payload) = 8 + length payload"
  and length_tcp_segment_bytes [simp]:
    "length (tcp_segment_bytes sp dp sq ak flags w c payload) = 20 + length payload"
  by (simp_all add: ipv4_header_def ipv6_header_def udp_datagram_def tcp_segment_bytes_def)

lemmas layout_eval = copy_from_slice_def set_index_take_drop be_bytes_u16 be_bytes_u32 eval_nat_numeral

lemma write_udp_datagram_layout:
  "write_udp_datagram sp dp payload (replicate (8 + length payload) 0) = Ok (udp_datagram sp dp 0 payload)"
  by (simp add: write_udp_datagram_def udp_datagram_def layout_eval)

lemma write_tcp_segment_layout:
  "write_tcp_segment sp dp sq ak flags w payload (replicate (20 + length payload) 0) =
    Ok (tcp_segment_bytes sp dp sq ak flags w 0 payload)"
  by (simp add: write_tcp_segment_def tcp_segment_bytes_def layout_eval)

lemma set_udp_checksum:
  "length h + 6 = a \<Longrightarrow> length h + 8 = b \<Longrightarrow>
    copy_from_slice a b (be_bytes 2 c) (h @ udp_datagram sp dp 0 payload) =
    Ok (h @ udp_datagram sp dp c payload)"
  by (auto simp add: udp_datagram_def layout_eval)

lemma set_tcp_checksum:
  "length h + 16 = a \<Longrightarrow> length h + 18 = b \<Longrightarrow>
    copy_from_slice a b (be_bytes 2 c) (h @ tcp_segment_bytes sp dp sq ak flags w 0 payload) =
    Ok (h @ tcp_segment_bytes sp dp sq ak flags w c payload)"
  by (auto simp add: tcp_segment_bytes_def layout_eval)

lemma set_header_checksum:
  "copy_from_slice 10 12 (be_bytes 2 c) (ipv4_header t p 0 s d @ rest) = Ok (ipv4_header t p c s d @ rest)"
  by (simp add: ipv4_header_def layout_eval)

lemma write_ipv4_header:
  "obind (set_index 0 0x45 (replicate (20 + n) 0)) (\<lambda>p.
   obind (copy_from_slice 2 4 (be_bytes 2 total_length) p) (\<lambda>p.
   obind (set_index 8 64 p) (\<lambda>p.
   obind (set_index 9 protocol p) (\<lambda>p.
   obind (copy_from_slice 12 16 (be_bytes 4 source_ip) p) (\<lambda>p.
   obind (copy_from_slice 16 20 (be_bytes 4 destination_ip) p) f))))) =
   f (ipv4_header total_length protocol 0 source_ip destination_ip @ replicate n 0)"
  by (simp add: ipv4_header_def layout_eval)

lemma write_ipv6_header:
  "obind (set_index 0 0x60 (replicate (40 + n) 0)) (\<lambda>p.
   obind (copy_from_slice 4 6 (be_bytes 2 payload_length) p) (\<lambda>p.
   obind (set_index 6 next_header p) (\<lambda>p.
   obind (set_index 7 64 p) (\<lambda>p.
   obind (copy_from_slice 8 24 (be_bytes 16 source_ip) p) (\<lambda>p.
   obind (copy_from_slice 24 40 (be_bytes 16 destination_ip) p) f))))) =
   f (ipv6_header payload_length next_header source_ip destination_ip @ replicate n 0)"
  by (simp add: ipv6_header_def copy_from_slice_def set_index_take_drop be_bytes_u16
      replicate_add numeral_3_eq_3)

lemma on_tail_append: "length h = a \<Longrightarrow> on_tail a f (h @ rest) = obind (f rest) (\<lambda>rest'. Ok (h @ rest'))"
  by (auto simp: on_tail_def slice_from_def)

lemma build_ipv4_udp_layout:
  "build_ipv4_udp_response_packet s d sp dp payload =
    obind (udp_checksum_ipv4 s d (udp_datagram sp dp 0 payload)) (\<lambda>c.
    obind (checksum (ipv4_header (of_nat (28 + length payload)) 17 0 s d)) (\<lambda>hc.
    Ok (ipv4_header (of_nat (28 + length payload)) 17 hc s d @ udp_datagram sp dp c payload)))"
  by (simp add: build_ipv4_udp_response_packet_def write_ipv4_header on_tail_append
      write_udp_datagram_layout [simplified] slice_from_append slice_prefix set_udp_checksum
      set_header_checksum)

lemma build_ipv6_udp_layout:
  "build_ipv6_udp_response_packet s d sp dp payload =
    obind (udp_checksum_ipv6 s d (udp_datagram sp dp 0 payload)) (\<lambda>c.
    Ok (ipv6_header (of_nat (8 + length payload)) 17 s d @ udp_datagram sp dp c payload))"
  by (simp add: build_ipv6_udp_response_packet_def write_ipv6_header on_tail_append
      write_udp_datagram_layout [simplified] slice_from_append set_udp_checksum)

lemma build_ipv4_tcp_layout:
  "build_ipv4_tcp_response_packet s d sp dp sq ak flags w payload =
    obind (tcp_checksum_ipv4 s d (tcp_segment_bytes sp dp sq ak flags w 0 payload)) (\<lambda>c.
    obind (checksum (ipv4_header (of_nat (40 + length payload)) 6 0 s d)) (\<lambda>hc.
    Ok (ipv4_header (of_nat (40 + length payload)) 6 hc s d
      @ tcp_segment_bytes sp dp sq ak flags w c payload)))"
  by (simp add: build_ipv4_tcp_response_packet_def write_ipv4_header on_tail_append
      write_tcp_segment_layout [simplified] slice_from_append slice_prefix set_tcp_checksum
      set_header_checksum)

lemma build_ipv6_tcp_layout:
  "build_ipv6_tcp_response_packet s d sp dp sq ak flags w payload =
    obind (tcp_checksum_ipv6 s d (tcp_segment_bytes sp dp sq ak flags w 0 payload)) (\<lambda>c.
    Ok (ipv6_header (of_nat (20 + length payload)) 6 s d
      @ tcp_segment_bytes sp dp sq ak flags w c payload))"
  by (simp add: build_ipv6_tcp_response_packet_def write_ipv6_header on_tail_append
      write_tcp_segment_layout [simplified] slice_from_append set_tcp_checksum)


section \<open>Checksums verify\<close>

lemma add_checksum_bytes_append:
  "even (length xs) \<Longrightarrow>
    add_checksum_bytes acc (xs @ ys) = obind (add_checksum_bytes acc xs) (\<lambda>acc'. add_checksum_bytes acc' ys)"
proof (induction xs arbitrary: acc rule: word_sum.induct)
  case (1 a b rest)
  then show ?case
    by (cases "add_u32 acc (ucast (from_be_bytes [a, b] :: u16)) :: ('a, u32) outcome") simp_all
qed simp_all

definition pseudo_header_v4 :: "u32 \<Rightarrow> u32 \<Rightarrow> u8 \<Rightarrow> nat \<Rightarrow> bytes" where
  "pseudo_header_v4 s d protocol len =
     be_bytes 4 s @ be_bytes 4 d @ [0, protocol] @ be_bytes 2 (of_nat len :: u16)"

definition pseudo_header_v6 :: "u128 \<Rightarrow> u128 \<Rightarrow> u8 \<Rightarrow> nat \<Rightarrow> bytes" where
  "pseudo_header_v6 s d protocol len =
     be_bytes 16 s @ be_bytes 16 d @ be_bytes 4 (of_nat len :: u32) @ [0, 0, 0, protocol]"

lemma length_pseudo_header [simp]:
  "length (pseudo_header_v4 s d p n) = 12" "length (pseudo_header_v6 s6 d6 p n) = 40"
  by (simp_all add: pseudo_header_v4_def pseudo_header_v6_def)

lemma add_checksum_bytes_Ok:
  assumes "length bs \<le> 65600"
  shows "add_checksum_bytes 0 bs = Ok (of_nat (word_sum bs))"
    and "word_sum bs < 2 ^ 32 - 65536"
proof -
  have "word_sum bs \<le> 65535 * ((65600 + 1) div 2)"
    using word_sum_bound [of bs] assms by (meson add_le_mono1 div_le_mono le_trans mult_le_mono2)
  then show *: "word_sum bs < 2 ^ 32 - 65536" by simp
  then show "add_checksum_bytes 0 bs = Ok (of_nat (word_sum bs))"
    using add_checksum_bytes_word_sum [of 0 bs] by simp
qed

lemma pseudo_header_sums:
  "udp_checksum_ipv4 s d bs =
    obind (add_checksum_bytes 0 (pseudo_header_v4 s d 17 (length bs) @ bs)) (\<lambda>x. Ok (nonzero_checksum x))"
  "tcp_checksum_ipv4 s d bs =
    obind (add_checksum_bytes 0 (pseudo_header_v4 s d 6 (length bs) @ bs)) (\<lambda>x. Ok (finish_checksum x))"
  "udp_checksum_ipv6 s6 d6 bs =
    obind (add_checksum_bytes 0 (pseudo_header_v6 s6 d6 17 (length bs) @ bs)) (\<lambda>x. Ok (nonzero_checksum x))"
  "tcp_checksum_ipv6 s6 d6 bs =
    obind (add_checksum_bytes 0 (pseudo_header_v6 s6 d6 6 (length bs) @ bs)) (\<lambda>x. Ok (finish_checksum x))"
  by (simp_all add: udp_checksum_ipv4_def tcp_checksum_ipv4_def udp_checksum_ipv6_def
      tcp_checksum_ipv6_def pseudo_header_v4_def pseudo_header_v6_def add_checksum_bytes_append
      obind_assoc)

lemma checksums_as_word_sum:
  assumes "length bs \<le> 65535"
  shows "checksum bs = Ok (finish_checksum (of_nat (word_sum bs)))"
    and "udp_checksum_ipv4 s d bs =
      Ok (nonzero_checksum (of_nat (word_sum (pseudo_header_v4 s d 17 (length bs) @ bs))))"
    and "tcp_checksum_ipv4 s d bs =
      Ok (finish_checksum (of_nat (word_sum (pseudo_header_v4 s d 6 (length bs) @ bs))))"
    and "udp_checksum_ipv6 s6 d6 bs =
      Ok (nonzero_checksum (of_nat (word_sum (pseudo_header_v6 s6 d6 17 (length bs) @ bs))))"
    and "tcp_checksum_ipv6 s6 d6 bs =
      Ok (finish_checksum (of_nat (word_sum (pseudo_header_v6 s6 d6 6 (length bs) @ bs))))"
  using assms by (simp_all add: checksum_def pseudo_header_sums add_checksum_bytes_Ok(1))

lemma fold16_complement: "fold16 (n + (65535 - fold16 n)) = 65535"
proof (cases "n = 0")
  case False
  define q where "q = (n - 1) div 65535"
  have "n - 1 = q * 65535 + (n - 1) mod 65535" by (simp add: q_def)
  then have "n + (65535 - fold16 n) - 1 = 65534 + q * 65535"
    using False by (simp add: fold16_def)
  then have "(n + (65535 - fold16 n) - 1) mod 65535 = 65534"
    by (simp only: mod_mult_self1) simp
  with False show ?thesis by (simp add: fold16_def)
qed (simp add: fold16_def)

lemma fold16_add_65535: "fold16 n = 65535 \<Longrightarrow> fold16 (n + 65535) = 65535"
proof -
  assume *: "fold16 n = 65535"
  then have "n > 0" by (auto simp: fold16_def split: if_splits)
  then have "n + 65535 - 1 = (n - 1) + 65535" by simp
  then have "(n + 65535 - 1) mod 65535 = (n - 1) mod 65535"
    by (simp only: mod_add_self2)
  with * \<open>n > 0\<close> show ?thesis by (simp add: fold16_def)
qed

lemma word_sum_field:
  "even (length xs) \<Longrightarrow> word_sum (xs @ be_bytes 2 c @ ys) = word_sum (xs @ be_bytes 2 (0 :: u16) @ ys) + unat (c :: u16)"
proof -
  have "word_sum (be_bytes 2 c) = unat c"
    using unat_from_be_pair [of "ucast (drop_bit 8 c)" "ucast c"] from_be_bytes_u16 [of c]
    by (simp add: be_bytes_u16)
  then show "even (length xs) \<Longrightarrow> ?thesis"
    by (simp add: word_sum_append) (simp add: be_bytes_u16)
qed

text \<open>Putting the computed checksum into its field makes the checksum over everything verify.\<close>

lemma finish_checksum_verifies:
  assumes "even (length xs)" and "n = word_sum (xs @ be_bytes 2 (0 :: u16) @ ys)" and "n < 2 ^ 32 - 65536"
  shows "finish_checksum (of_nat (word_sum (xs @ be_bytes 2 (finish_checksum (of_nat n)) @ ys))) = 0"
    and "finish_checksum (of_nat (word_sum (xs @ be_bytes 2 (nonzero_checksum (of_nat n)) @ ys))) = 0"
proof -
  have n: "unat (of_nat n :: u32) = n"
    using assms(3) by (simp add: unat_of_nat)
  have zero: "finish_checksum (of_nat m) = 0" if "fold16 m = 65535" and "m < 2 ^ 32" for m
    using that unat_finish_checksum [of "of_nat m"] by (simp add: unat_of_nat unat_eq_zero)
  have fin: "unat (finish_checksum (of_nat n)) = 65535 - fold16 n"
    by (simp add: unat_finish_checksum n)
  have field: "word_sum (xs @ be_bytes 2 c @ ys) = n + unat c" for c :: u16
    unfolding assms(2) by (rule word_sum_field [OF assms(1)])
  show "finish_checksum (of_nat (word_sum (xs @ be_bytes 2 (finish_checksum (of_nat n)) @ ys))) = 0"
    unfolding field fin using assms(3) fold16_complement [of n] by (intro zero) simp_all
  have "fold16 (n + unat (nonzero_checksum (of_nat n))) = 65535"
    using fin fold16_complement [of n] fold16_add_65535 [of n] fold16_bound [of n]
    by (auto simp: nonzero_checksum_def Let_def)
  then show "finish_checksum (of_nat (word_sum (xs @ be_bytes 2 (nonzero_checksum (of_nat n)) @ ys))) = 0"
    unfolding field using assms(3) unat_u16_le [of "nonzero_checksum (of_nat n)"] by (intro zero) simp_all
qed


section \<open>Parsing what was built\<close>

lemma ipv4_header_reads:
  "index (ipv4_header t p c s d @ rest) 0 = Ok 0x45"
  "read_u16 (ipv4_header t p c s d @ rest) 2 = Ok t"
  "read_u16 (ipv4_header t p c s d @ rest) 6 = Ok 0"
  "index (ipv4_header t p c s d @ rest) 9 = Ok p"
  "read_u32 (ipv4_header t p c s d @ rest) 12 = Ok s"
  "read_u32 (ipv4_header t p c s d @ rest) 16 = Ok d"
  "slice (ipv4_header t p c s d @ rest) 20 (20 + length rest) = Ok rest"
  by (simp_all add: ipv4_header_def be_bytes_u16 be_bytes_u32 index_def read_u16_def read_u32_def
      slice_def from_be_bytes_fields from_be_bytes_zero)

lemma ipv6_header_reads:
  "read_u16 (ipv6_header n p s d @ rest) 4 = Ok n"
  "index (ipv6_header n p s d @ rest) 6 = Ok p"
  "slice (ipv6_header n p s d @ rest) 8 24 = Ok (be_bytes 16 s)"
  "slice (ipv6_header n p s d @ rest) 24 40 = Ok (be_bytes 16 d)"
  "slice (ipv6_header n p s d @ rest) 40 (40 + length rest) = Ok rest"
  by (simp_all add: ipv6_header_def be_bytes_u16 index_def read_u16_def slice_def from_be_bytes_fields)

lemma parse_parts_dispatch:
  "parse_tun_packet_parts (ipv4_header t p c s d @ rest) =
    parse_ipv4_packet_parts (ipv4_header t p c s d @ rest)"
  "parse_tun_packet_parts (ipv6_header n p s6 d6 @ rest) =
    parse_ipv6_packet_parts (ipv6_header n p s6 d6 @ rest)"
  by (simp_all add: parse_tun_packet_parts_def ipv4_header_def ipv6_header_def)

lemma parse_ipv4_header:
  assumes "unat t = 20 + length rest"
  shows "parse_tun_packet_parts (ipv4_header t p c s d @ rest) =
    obind (parse_transport_ports (from_ip_protocol_number p) rest) (\<lambda>(source_port, destination_port).
      Ok \<lparr>parts_flow = \<lparr>flow_ip_version = Ipv4, flow_protocol = from_ip_protocol_number p,
            flow_source_ip = V4 s, flow_destination_ip = V4 d,
            flow_source_port = source_port, flow_destination_port = destination_port\<rparr>,
          parts_transport_payload = rest\<rparr>)"
  using assms
  by (simp add: parse_parts_dispatch parse_ipv4_packet_parts_def ipv4_header_reads Let_def)

lemma parse_ipv6_header:
  assumes "unat n = length rest" and "\<not> is_ipv6_extension_header p"
  shows "parse_tun_packet_parts (ipv6_header n p s d @ rest) =
    obind (parse_transport_ports (from_ip_protocol_number p) rest) (\<lambda>(source_port, destination_port).
      Ok \<lparr>parts_flow = \<lparr>flow_ip_version = Ipv6, flow_protocol = from_ip_protocol_number p,
            flow_source_ip = V6 s, flow_destination_ip = V6 d,
            flow_source_port = source_port, flow_destination_port = destination_port\<rparr>,
          parts_transport_payload = rest\<rparr>)"
proof -
  have "parse_ipv6_transport_header packet total p = Ok (p, 40)" for packet total
    using assms(2) by (subst parse_ipv6_transport_header_def, subst parse_ipv6_extensions.simps)
      (auto simp: is_ipv6_skippable_extension_header_def is_ipv6_extension_header_def)
  with assms show ?thesis
    by (simp add: parse_parts_dispatch parse_ipv6_packet_parts_def ipv6_header_reads Let_def)
qed

lemma parse_datagram_ports:
  "parse_transport_ports Udp (udp_datagram sp dp c payload) = Ok (Some sp, Some dp)"
  "parse_transport_ports Tcp (tcp_segment_bytes sp dp sq ak flags w c payload) = Ok (Some sp, Some dp)"
  by (simp_all add: parse_transport_ports_def udp_datagram_def tcp_segment_bytes_def be_bytes_u16
      read_u16_def index_def from_be_bytes_fields)

lemma udp_datagram_reads:
  "read_u16 (udp_datagram sp dp c payload) 4 = Ok (of_nat (8 + length payload))"
  "slice (udp_datagram sp dp c payload) 8 (8 + length payload) = Ok payload"
  by (simp_all add: udp_datagram_def be_bytes_u16 read_u16_def index_def slice_def from_be_bytes_fields)

lemma tcp_segment_reads:
  "read_u32 (tcp_segment_bytes sp dp sq ak flags w c payload) 4 = Ok sq"
  "read_u32 (tcp_segment_bytes sp dp sq ak flags w c payload) 8 = Ok ak"
  "index (tcp_segment_bytes sp dp sq ak flags w c payload) 12 =
    Ok (0x50 OR ucast (drop_bit 8 (flag_bits flags) AND 0x01))"
  "index (tcp_segment_bytes sp dp sq ak flags w c payload) 13 = Ok (ucast (flag_bits flags))"
  "read_u16 (tcp_segment_bytes sp dp sq ak flags w c payload) 14 = Ok w"
  "slice_from (tcp_segment_bytes sp dp sq ak flags w c payload) 20 = Ok payload"
  by (simp_all add: tcp_segment_bytes_def be_bytes_u16 be_bytes_u32 read_u16_def read_u32_def index_def
      slice_from_def from_be_bytes_fields)

lemma data_offset_byte:
  "unat (drop_bit 4 (0x50 OR ucast ((b :: u16) AND 0x01) :: u8)) = 5"
  "(0x50 OR ucast (b AND 0x01) :: u8) AND 0x01 = ucast (b AND 0x01)"
  by (cases "odd b"; simp add: and_one_eq mod_2_eq_odd)+

lemma flag_bits_bytes:
  "flags_from_bits (push_bit 8 (ucast (ucast (drop_bit 8 b AND 0x01) :: u8) :: u16) OR ucast (ucast b :: u8)) =
    flags_from_bits b"
proof -
  have mask: "(0x1ff :: u16) = mask 9" "(1 :: u16) = mask 1" by (simp_all add: mask_eq_exp_minus_1)
  have eight: "n < 9 \<Longrightarrow> \<not> n < 8 \<Longrightarrow> n = 8" for n :: nat by simp
  have "(push_bit 8 (ucast (ucast (drop_bit 8 b AND 0x01) :: u8) :: u16) OR ucast (ucast b :: u8)) AND 0x1ff = b AND 0x1ff"
    unfolding mask by (rule bit_word_eqI) (auto simp: bit_simps dest: eight)
  then show ?thesis by (simp add: flags_from_bits_def)
qed


section \<open>Round trips\<close>

definition swap_flow :: "tun_packet_flow \<Rightarrow> tun_packet_flow" where
  "swap_flow flow = flow\<lparr>flow_source_ip := flow_destination_ip flow,
     flow_destination_ip := flow_source_ip flow, flow_source_port := flow_destination_port flow,
     flow_destination_port := flow_source_port flow\<rparr>"

definition ipv4_header_checksum :: "u16 \<Rightarrow> u8 \<Rightarrow> u32 \<Rightarrow> u32 \<Rightarrow> u16" where
  "ipv4_header_checksum t p s d = finish_checksum (of_nat (word_sum (ipv4_header t p 0 s d)))"

definition udp4_checksum :: "u32 \<Rightarrow> u32 \<Rightarrow> bytes \<Rightarrow> u16" where
  "udp4_checksum s d dg = nonzero_checksum (of_nat (word_sum (pseudo_header_v4 s d 17 (length dg) @ dg)))"

definition udp6_checksum :: "u128 \<Rightarrow> u128 \<Rightarrow> bytes \<Rightarrow> u16" where
  "udp6_checksum s d dg = nonzero_checksum (of_nat (word_sum (pseudo_header_v6 s d 17 (length dg) @ dg)))"

definition tcp4_checksum :: "u32 \<Rightarrow> u32 \<Rightarrow> bytes \<Rightarrow> u16" where
  "tcp4_checksum s d sg = finish_checksum (of_nat (word_sum (pseudo_header_v4 s d 6 (length sg) @ sg)))"

definition tcp6_checksum :: "u128 \<Rightarrow> u128 \<Rightarrow> bytes \<Rightarrow> u16" where
  "tcp6_checksum s d sg = finish_checksum (of_nat (word_sum (pseudo_header_v6 s d 6 (length sg) @ sg)))"

lemmas checksum_values = ipv4_header_checksum_def udp4_checksum_def udp6_checksum_def
  tcp4_checksum_def tcp6_checksum_def

definition udp4_packet :: "u32 \<Rightarrow> u32 \<Rightarrow> u16 \<Rightarrow> u16 \<Rightarrow> bytes \<Rightarrow> bytes" where
  "udp4_packet s d sp dp payload =
     (let t = of_nat (28 + length payload) in
      ipv4_header t 17 (ipv4_header_checksum t 17 s d) s d
        @ udp_datagram sp dp (udp4_checksum s d (udp_datagram sp dp 0 payload)) payload)"

definition udp6_packet :: "u128 \<Rightarrow> u128 \<Rightarrow> u16 \<Rightarrow> u16 \<Rightarrow> bytes \<Rightarrow> bytes" where
  "udp6_packet s d sp dp payload =
     ipv6_header (of_nat (8 + length payload)) 17 s d
       @ udp_datagram sp dp (udp6_checksum s d (udp_datagram sp dp 0 payload)) payload"

definition tcp4_packet :: "u32 \<Rightarrow> u32 \<Rightarrow> u16 \<Rightarrow> u16 \<Rightarrow> u32 \<Rightarrow> u32 \<Rightarrow> tun_tcp_flags \<Rightarrow> u16 \<Rightarrow> bytes \<Rightarrow> bytes" where
  "tcp4_packet s d sp dp sq ak flags w payload =
     (let t = of_nat (40 + length payload) in
      ipv4_header t 6 (ipv4_header_checksum t 6 s d) s d
        @ tcp_segment_bytes sp dp sq ak flags w
            (tcp4_checksum s d (tcp_segment_bytes sp dp sq ak flags w 0 payload)) payload)"

definition tcp6_packet :: "u128 \<Rightarrow> u128 \<Rightarrow> u16 \<Rightarrow> u16 \<Rightarrow> u32 \<Rightarrow> u32 \<Rightarrow> tun_tcp_flags \<Rightarrow> u16 \<Rightarrow> bytes \<Rightarrow> bytes" where
  "tcp6_packet s d sp dp sq ak flags w payload =
     ipv6_header (of_nat (20 + length payload)) 6 s d
       @ tcp_segment_bytes sp dp sq ak flags w
           (tcp6_checksum s d (tcp_segment_bytes sp dp sq ak flags w 0 payload)) payload"

text \<open>Within the size limits the builders succeed, and this is the packet they give.\<close>

lemma build_ipv4_udp_Ok:
  "length payload \<le> 65507 \<Longrightarrow>
    build_ipv4_udp_response_packet s d sp dp payload = Ok (udp4_packet s d sp dp payload)"
  by (simp add: build_ipv4_udp_layout udp4_packet_def Let_def checksums_as_word_sum checksum_values)

lemma build_ipv6_udp_Ok:
  "length payload \<le> 65527 \<Longrightarrow>
    build_ipv6_udp_response_packet s d sp dp payload = Ok (udp6_packet s d sp dp payload)"
  by (simp add: build_ipv6_udp_layout udp6_packet_def checksums_as_word_sum checksum_values)

lemma build_ipv4_tcp_Ok:
  "length payload \<le> 65495 \<Longrightarrow>
    build_ipv4_tcp_response_packet s d sp dp sq ak flags w payload =
      Ok (tcp4_packet s d sp dp sq ak flags w payload)"
  by (simp add: build_ipv4_tcp_layout tcp4_packet_def Let_def checksums_as_word_sum checksum_values)

lemma build_ipv6_tcp_Ok:
  "length payload \<le> 65515 \<Longrightarrow>
    build_ipv6_tcp_response_packet s d sp dp sq ak flags w payload =
      Ok (tcp6_packet s d sp dp sq ak flags w payload)"
  by (simp add: build_ipv6_tcp_layout tcp6_packet_def checksums_as_word_sum checksum_values)

lemma parse_udp_packets:
  "length payload \<le> 65507 \<Longrightarrow> parse_tun_udp_payload (udp4_packet s d sp dp payload) =
    Ok \<lparr>udp_flow = \<lparr>flow_ip_version = Ipv4, flow_protocol = Udp, flow_source_ip = V4 s,
          flow_destination_ip = V4 d, flow_source_port = Some sp, flow_destination_port = Some dp\<rparr>,
        udp_payload = payload\<rparr>"
  "length payload \<le> 65527 \<Longrightarrow> parse_tun_udp_payload (udp6_packet s6 d6 sp dp payload) =
    Ok \<lparr>udp_flow = \<lparr>flow_ip_version = Ipv6, flow_protocol = Udp, flow_source_ip = V6 s6,
          flow_destination_ip = V6 d6, flow_source_port = Some sp, flow_destination_port = Some dp\<rparr>,
        udp_payload = payload\<rparr>"
  by (simp_all add: parse_tun_udp_payload_def udp4_packet_def udp6_packet_def Let_def
      parse_ipv4_header parse_ipv6_header unat_of_nat_u16
      is_ipv6_extension_header_def from_ip_protocol_number_def parse_datagram_ports
      udp_datagram_reads del: of_nat_add)

lemma parse_tcp_packets:
  "length payload \<le> 65495 \<Longrightarrow> parse_tun_tcp_segment (tcp4_packet s d sp dp sq ak flags w payload) =
    Ok \<lparr>seg_flow = \<lparr>flow_ip_version = Ipv4, flow_protocol = Tcp, flow_source_ip = V4 s,
          flow_destination_ip = V4 d, flow_source_port = Some sp, flow_destination_port = Some dp\<rparr>,
        seg_sequence_number = sq, seg_acknowledgment_number = ak, seg_header_len = 20,
        seg_flags = flags_from_bits (flag_bits flags), seg_window_size = w, seg_payload = payload\<rparr>"
  "length payload \<le> 65515 \<Longrightarrow> parse_tun_tcp_segment (tcp6_packet s6 d6 sp dp sq ak flags w payload) =
    Ok \<lparr>seg_flow = \<lparr>flow_ip_version = Ipv6, flow_protocol = Tcp, flow_source_ip = V6 s6,
          flow_destination_ip = V6 d6, flow_source_port = Some sp, flow_destination_port = Some dp\<rparr>,
        seg_sequence_number = sq, seg_acknowledgment_number = ak, seg_header_len = 20,
        seg_flags = flags_from_bits (flag_bits flags), seg_window_size = w, seg_payload = payload\<rparr>"
  by (simp_all add: parse_tun_tcp_segment_def tcp4_packet_def tcp6_packet_def Let_def
      parse_ipv4_header parse_ipv6_header unat_of_nat_u16
      is_ipv6_extension_header_def from_ip_protocol_number_def parse_datagram_ports
      tcp_segment_reads data_offset_byte [simplified] data_offset_byte flag_bits_bytes del: of_nat_add)


lemma build_tun_udp_cases:
  assumes "build_tun_udp_response_packet flow payload = Ok packet"
  obtains
    (v4) s d sp dp where "flow = \<lparr>flow_ip_version = Ipv4, flow_protocol = Udp, flow_source_ip = V4 d,
          flow_destination_ip = V4 s, flow_source_port = Some dp, flow_destination_port = Some sp\<rparr>"
        and "length payload \<le> 65507" and "packet = udp4_packet s d sp dp payload"
  | (v6) s d sp dp where "flow = \<lparr>flow_ip_version = Ipv6, flow_protocol = Udp, flow_source_ip = V6 d,
          flow_destination_ip = V6 s, flow_source_port = Some dp, flow_destination_port = Some sp\<rparr>"
        and "length payload \<le> 65527" and "packet = udp6_packet s d sp dp payload"
  using assms
  by (cases flow; cases "flow_ip_version flow"; cases "flow_source_ip flow"; cases "flow_destination_ip flow")
    (auto simp: build_tun_udp_response_packet_def obind_Ok_iff Let_def build_ipv4_udp_Ok
      build_ipv6_udp_Ok split: if_splits)

lemma build_tun_tcp_cases:
  assumes "build_tun_tcp_response_packet flow sq ak flags w payload = Ok packet"
  obtains
    (v4) s d sp dp where "flow = \<lparr>flow_ip_version = Ipv4, flow_protocol = Tcp, flow_source_ip = V4 d,
          flow_destination_ip = V4 s, flow_source_port = Some dp, flow_destination_port = Some sp\<rparr>"
        and "length payload \<le> 65495" and "packet = tcp4_packet s d sp dp sq ak flags w payload"
  | (v6) s d sp dp where "flow = \<lparr>flow_ip_version = Ipv6, flow_protocol = Tcp, flow_source_ip = V6 d,
          flow_destination_ip = V6 s, flow_source_port = Some dp, flow_destination_port = Some sp\<rparr>"
        and "length payload \<le> 65515" and "packet = tcp6_packet s d sp dp sq ak flags w payload"
  using assms
  by (cases flow; cases "flow_ip_version flow"; cases "flow_source_ip flow"; cases "flow_destination_ip flow")
    (auto simp: build_tun_tcp_response_packet_def obind_Ok_iff Let_def build_ipv4_tcp_Ok
      build_ipv6_tcp_Ok split: if_splits)

lemma build_tun_udp_no_panic: "build_tun_udp_response_packet flow payload \<noteq> Panic"
  by (auto simp: build_tun_udp_response_packet_def obind_Panic_iff Let_def build_ipv4_udp_Ok
      build_ipv6_udp_Ok split: tun_ip_version.splits ip_addr.splits)

lemma build_tun_tcp_no_panic: "build_tun_tcp_response_packet flow sq ak flags w payload \<noteq> Panic"
  by (auto simp: build_tun_tcp_response_packet_def obind_Panic_iff Let_def build_ipv4_tcp_Ok
      build_ipv6_tcp_Ok split: tun_ip_version.splits ip_addr.splits)

text \<open>For a well-formed flow the only possible failure is an oversized payload.\<close>

definition max_tcp_response_payload :: "tun_ip_version \<Rightarrow> nat" where
  "max_tcp_response_payload v = (case v of Ipv4 \<Rightarrow> 65495 | Ipv6 \<Rightarrow> 65515)"

definition max_udp_response_payload :: "tun_ip_version \<Rightarrow> nat" where
  "max_udp_response_payload v = (case v of Ipv4 \<Rightarrow> 65507 | Ipv6 \<Rightarrow> 65527)"

lemma build_tun_tcp_defined:
  assumes "flow_wf flow" and "flow_protocol flow = Tcp"
  shows "(\<exists>packet. build_tun_tcp_response_packet flow sq ak flags w payload = Ok packet) \<longleftrightarrow>
    length payload \<le> max_tcp_response_payload (flow_ip_version flow)"
  using assms
  by (cases flow) (auto simp: build_tun_tcp_response_packet_def flow_wf_def Let_def build_ipv4_tcp_Ok
      build_ipv6_tcp_Ok max_tcp_response_payload_def
      split: tun_ip_version.splits ip_addr.splits if_splits elim!: is_ipv4.elims is_ipv6.elims)

lemma build_tun_udp_defined:
  assumes "flow_wf flow" and "flow_protocol flow = Udp"
  shows "(\<exists>packet. build_tun_udp_response_packet flow payload = Ok packet) \<longleftrightarrow>
    length payload \<le> max_udp_response_payload (flow_ip_version flow)"
  using assms
  by (cases flow) (auto simp: build_tun_udp_response_packet_def flow_wf_def Let_def build_ipv4_udp_Ok
      build_ipv6_udp_Ok max_udp_response_payload_def
      split: tun_ip_version.splits ip_addr.splits if_splits elim!: is_ipv4.elims is_ipv6.elims)

text \<open>The contract of a packet codec: what is built is read back, and building never panics.\<close>

locale packet_codec =
  fixes build :: "'m \<Rightarrow> ('e, bytes) outcome"
    and parse :: "bytes \<Rightarrow> ('e, 'r) outcome"
    and view :: "'m \<Rightarrow> 'r"
  assumes build_total: "build m \<noteq> Panic"
    and parse_build: "build m = Ok packet \<Longrightarrow> parse packet = Ok (view m)"
begin

lemma build_determines_view: "build m = Ok packet \<Longrightarrow> build m' = Ok packet \<Longrightarrow> view m = view m'"
  using parse_build [of m packet] parse_build [of m' packet] by simp

lemma build_cases: obtains packet where "build m = Ok packet" | e where "build m = Err e"
  using build_total by (cases "build m") auto

end

definition udp_view :: "tun_packet_flow \<times> bytes \<Rightarrow> tun_udp_payload" where
  "udp_view = (\<lambda>(flow, payload). \<lparr>udp_flow = swap_flow flow, udp_payload = payload\<rparr>)"

definition tcp_view :: "tun_packet_flow \<times> u32 \<times> u32 \<times> tun_tcp_flags \<times> u16 \<times> bytes \<Rightarrow> tun_tcp_segment" where
  "tcp_view = (\<lambda>(flow, sq, ak, flags, w, payload).
     \<lparr>seg_flow = swap_flow flow, seg_sequence_number = sq, seg_acknowledgment_number = ak,
      seg_header_len = 20, seg_flags = flags_from_bits (flag_bits flags), seg_window_size = w,
      seg_payload = payload\<rparr>)"

interpretation udp_codec: packet_codec
  "\<lambda>(flow, payload). build_tun_udp_response_packet flow payload" parse_tun_udp_payload udp_view
  by unfold_locales
    (auto simp: udp_view_def swap_flow_def build_tun_udp_no_panic parse_udp_packets
      split: prod.splits elim!: build_tun_udp_cases)

interpretation tcp_codec: packet_codec
  "\<lambda>(flow, sq, ak, flags, w, payload). build_tun_tcp_response_packet flow sq ak flags w payload"
  parse_tun_tcp_segment tcp_view
  by unfold_locales
    (auto simp: tcp_view_def swap_flow_def build_tun_tcp_no_panic parse_tcp_packets
      split: prod.splits elim!: build_tun_tcp_cases)

definition tcp_checksums_verify :: "tun_packet_flow \<Rightarrow> bytes \<Rightarrow> bool" where
  "tcp_checksums_verify flow packet = (case (flow_source_ip flow, flow_destination_ip flow) of
      (V4 s, V4 d) \<Rightarrow> checksum (take 20 packet) = (Ok 0 :: (unit, u16) outcome)
        \<and> tcp_checksum_ipv4 s d (drop 20 packet) = (Ok 0 :: (unit, u16) outcome)
    | (V6 s, V6 d) \<Rightarrow> tcp_checksum_ipv6 s d (drop 40 packet) = (Ok 0 :: (unit, u16) outcome)
    | _ \<Rightarrow> False)"

definition udp_checksums_verify :: "tun_packet_flow \<Rightarrow> bytes \<Rightarrow> bool" where
  "udp_checksums_verify flow packet = (case (flow_source_ip flow, flow_destination_ip flow) of
      (V4 s, V4 d) \<Rightarrow> checksum (take 20 packet) = (Ok 0 :: (unit, u16) outcome)
        \<and> udp_checksum_ipv4 s d (drop 20 packet) = (Ok 0xffff :: (unit, u16) outcome)
    | (V6 s, V6 d) \<Rightarrow> udp_checksum_ipv6 s d (drop 40 packet) = (Ok 0xffff :: (unit, u16) outcome)
    | _ \<Rightarrow> False)"

lemma ipv4_header_verifies:
  "finish_checksum (of_nat (word_sum (ipv4_header t p (ipv4_header_checksum t p s d) s d))) = 0"
proof -
  let ?xs = "[0x45, 0] @ be_bytes 2 t @ [0, 0, 0, 0, 64, p]" and ?ys = "be_bytes 4 s @ be_bytes 4 d"
  have split: "ipv4_header t p c s d = ?xs @ be_bytes 2 c @ ?ys" for c
    by (simp add: ipv4_header_def)
  have "word_sum (ipv4_header t p 0 s d) < 2 ^ 32 - 65536"
    by (rule add_checksum_bytes_Ok(2)) simp
  then show ?thesis
    using finish_checksum_verifies(1) [of ?xs "word_sum (ipv4_header t p 0 s d)" ?ys]
    unfolding ipv4_header_checksum_def split by simp
qed

lemma transport_verifies:
  fixes pre :: bytes
  assumes "even (length pre)" and "length pre \<le> 40"
  shows "length payload \<le> 65527 \<Longrightarrow> finish_checksum (of_nat (word_sum (pre @ udp_datagram sp dp
        (nonzero_checksum (of_nat (word_sum (pre @ udp_datagram sp dp 0 payload)))) payload))) = 0"
    and "length payload \<le> 65515 \<Longrightarrow> finish_checksum (of_nat (word_sum (pre @ tcp_segment_bytes sp dp sq ak flags w
        (finish_checksum (of_nat (word_sum (pre @ tcp_segment_bytes sp dp sq ak flags w 0 payload)))) payload))) = 0"
proof -
  define xs where "xs = pre @ be_bytes 2 sp @ be_bytes 2 dp @ be_bytes 2 (of_nat (8 + length payload) :: u16)"
  have split: "pre @ udp_datagram sp dp c payload = xs @ be_bytes 2 c @ payload" for c
    by (simp add: xs_def udp_datagram_def)
  show "finish_checksum (of_nat (word_sum (pre @ udp_datagram sp dp
        (nonzero_checksum (of_nat (word_sum (pre @ udp_datagram sp dp 0 payload)))) payload))) = 0"
    if "length payload \<le> 65527"
    unfolding split using that assms
    by (intro finish_checksum_verifies(2) [OF _ refl] add_checksum_bytes_Ok(2)) (simp_all add: xs_def)
next
  define xs where "xs = pre @ be_bytes 2 sp @ be_bytes 2 dp @ be_bytes 4 sq @ be_bytes 4 ak
    @ [0x50 OR ucast (drop_bit 8 (flag_bits flags) AND 0x01), ucast (flag_bits flags)] @ be_bytes 2 w"
  have split: "pre @ tcp_segment_bytes sp dp sq ak flags w c payload = xs @ be_bytes 2 c @ [0, 0] @ payload" for c
    by (simp add: xs_def tcp_segment_bytes_def)
  show "finish_checksum (of_nat (word_sum (pre @ tcp_segment_bytes sp dp sq ak flags w
        (finish_checksum (of_nat (word_sum (pre @ tcp_segment_bytes sp dp sq ak flags w 0 payload)))) payload))) = 0"
    if "length payload \<le> 65515"
    unfolding split using that assms
    by (intro finish_checksum_verifies(1) [OF _ refl] add_checksum_bytes_Ok(2)) (simp_all add: xs_def)
qed

lemma nonzero_checksum_of_zero: "finish_checksum n = 0 \<Longrightarrow> nonzero_checksum n = 0xffff"
  by (simp add: nonzero_checksum_def)

section \<open>Properties\<close>

definition sample_flow :: "tun_transport_protocol \<Rightarrow> tun_packet_flow" where
  "sample_flow protocol = \<lparr>flow_ip_version = Ipv4, flow_protocol = protocol,
     flow_source_ip = V4 0x0a000002, flow_destination_ip = V4 0x08080808,
     flow_source_port = Some 40000, flow_destination_port = Some 443\<rparr>"

lemma sample_flow_builds:
  "length payload \<le> 65495 \<Longrightarrow> \<exists>packet. build_tun_tcp_response_packet (sample_flow Tcp) sq ak flags w payload = Ok packet"
  "length payload \<le> 65507 \<Longrightarrow> \<exists>packet. build_tun_udp_response_packet (sample_flow Udp) payload = Ok packet"
  by (subst build_tun_tcp_defined build_tun_udp_defined;
      simp add: sample_flow_def flow_wf_def max_tcp_response_payload_def max_udp_response_payload_def)+

text \<open>C5. Every TCP response packet the builder produces, for IPv4 and IPv6, is parsed back by the
  TUN parser into exactly the segment that was asked for: the flow with its endpoints swapped, the
  given sequence and acknowledgment numbers, flags (the nine defined bits), window and payload.\<close>

theorem tcp_response_roundtrip:
  assumes "build_tun_tcp_response_packet flow sequence_number acknowledgment_number flags window_size payload
    = Ok packet"
  shows "parse_tun_tcp_segment packet =
    Ok \<lparr>seg_flow = swap_flow flow, seg_sequence_number = sequence_number,
        seg_acknowledgment_number = acknowledgment_number, seg_header_len = 20,
        seg_flags = flags_from_bits (flag_bits flags), seg_window_size = window_size,
        seg_payload = payload\<rparr>"
  using tcp_codec.parse_build [of "(flow, sequence_number, acknowledgment_number, flags, window_size, payload)"]
    assms by (simp add: tcp_view_def)

theorem tcp_response_roundtrip_witness:
  "\<exists>packet. build_tun_tcp_response_packet (sample_flow Tcp) 1 2 (flags_from_bits 0x18) 3 [7, 9] = Ok packet
    \<and> parse_tun_tcp_segment packet =
      Ok \<lparr>seg_flow = swap_flow (sample_flow Tcp), seg_sequence_number = 1,
          seg_acknowledgment_number = 2, seg_header_len = 20,
          seg_flags = flags_from_bits 0x18, seg_window_size = 3, seg_payload = [7, 9]\<rparr>"
  using sample_flow_builds(1) [of "[7, 9]" 1 2 "flags_from_bits 0x18" 3]
    tcp_response_roundtrip [of "sample_flow Tcp" 1 2 "flags_from_bits 0x18" 3 "[7, 9]"]
  by (auto simp: flags_from_bits_def)

text \<open>Every UDP response packet the builder produces is parsed back into the payload it was
  built from, on the flow with its endpoints swapped.\<close>

theorem udp_response_roundtrip:
  assumes "build_tun_udp_response_packet flow payload = Ok packet"
  shows "parse_tun_udp_payload packet = Ok \<lparr>udp_flow = swap_flow flow, udp_payload = payload\<rparr>"
  using udp_codec.parse_build [of "(flow, payload)"] assms by (simp add: udp_view_def)

theorem udp_response_roundtrip_witness:
  "\<exists>packet. build_tun_udp_response_packet (sample_flow Udp) [1, 2, 3] = Ok packet
    \<and> parse_tun_udp_payload packet =
      Ok \<lparr>udp_flow = swap_flow (sample_flow Udp), udp_payload = [1, 2, 3]\<rparr>"
  using sample_flow_builds(2) [of "[1, 2, 3]"] udp_response_roundtrip [of "sample_flow Udp" "[1, 2, 3]"]
  by auto



text \<open>The checksums of a UDP response verify at a receiver: the IPv4 header sums to zero, and the
  datagram with its pseudo-header sums to the value that stands for zero in UDP.\<close>

theorem udp_response_checksums:
  assumes "build_tun_udp_response_packet flow payload = Ok packet"
  shows "udp_checksums_verify (swap_flow flow) packet"
  using assms
  by (cases rule: build_tun_udp_cases)
    (simp_all add: udp_checksums_verify_def swap_flow_def udp4_packet_def udp6_packet_def Let_def
      checksums_as_word_sum ipv4_header_verifies transport_verifies udp4_checksum_def udp6_checksum_def
      nonzero_checksum_of_zero)

theorem udp_response_checksums_witness:
  "\<exists>packet. build_tun_udp_response_packet (sample_flow Udp) [1, 2, 3] = Ok packet
    \<and> udp_checksums_verify (swap_flow (sample_flow Udp)) packet"
  using sample_flow_builds(2) [of "[1, 2, 3]"] udp_response_checksums [of "sample_flow Udp" "[1, 2, 3]"]
  by auto

text \<open>No input makes a builder panic, and for a well-formed flow the builders succeed exactly
  when the payload fits the 16-bit length fields of the IP packet.\<close>

theorem response_builders_total:
  "build_tun_tcp_response_packet flow sequence_number acknowledgment_number flags window_size payload \<noteq> Panic
    \<and> build_tun_udp_response_packet flow payload \<noteq> Panic
    \<and> (flow_wf flow \<and> flow_protocol flow = Tcp \<longrightarrow>
        ((\<exists>packet. build_tun_tcp_response_packet flow sequence_number acknowledgment_number flags
            window_size payload = Ok packet)
          \<longleftrightarrow> length payload \<le> max_tcp_response_payload (flow_ip_version flow)))
    \<and> (flow_wf flow \<and> flow_protocol flow = Udp \<longrightarrow>
        ((\<exists>packet. build_tun_udp_response_packet flow payload = Ok packet)
          \<longleftrightarrow> length payload \<le> max_udp_response_payload (flow_ip_version flow)))"
  using build_tun_tcp_no_panic build_tun_udp_no_panic build_tun_tcp_defined build_tun_udp_defined by blast

theorem response_builders_total_witness:
  "\<exists>packet. build_tun_tcp_response_packet (sample_flow Tcp) 1 2 (flags_from_bits 0x18) 3 [7] = Ok packet"
  using response_builders_total [of "sample_flow Tcp" 1 2 "flags_from_bits 0x18" 3 "[7]"]
  by (simp add: sample_flow_def flow_wf_def max_tcp_response_payload_def)

end
