(* ===== verification/Keli_Tun_Session.thy ===== *)
theory Keli_Tun_Session
  imports Keli_Effects Keli_Tun_Build
begin

text \<open>
  The userspace TCP session table of \<open>keli-net-core/src/tun.rs\<close> (\<open>TunTcpSessionTable\<close>): the half-open
  and established sessions, the sessions the server side has closed, and the sessions that are past
  their close. Every method is an operation on the table; \<open>now\<close> is the reading of \<open>Instant::now()\<close> it
  makes.
\<close>

section \<open>Sessions\<close>

record tun_tcp_session_key =
  key_source_ip :: ip_addr
  key_source_port :: u16
  key_destination_ip :: ip_addr
  key_destination_port :: u16

definition session_key_from_flow :: "tun_packet_flow \<Rightarrow> (tun_packet_error, tun_tcp_session_key) outcome" where
  "session_key_from_flow flow =
     (if flow_protocol flow \<noteq> Tcp then Err (ExpectedTcpSegment (flow_protocol flow))
      else obind (ok_or (flow_source_port flow) MissingTcpSocketAddress) (\<lambda>source_port.
           obind (ok_or (flow_destination_port flow) MissingTcpSocketAddress) (\<lambda>destination_port.
           Ok \<lparr>key_source_ip = flow_source_ip flow, key_source_port = source_port,
               key_destination_ip = flow_destination_ip flow,
               key_destination_port = destination_port\<rparr>)))"

datatype tun_tcp_session_phase = SynReceived | Established | ClientFinReceived

record tun_tcp_server_unacked_payload =
  una_sequence_number :: u32
  una_acknowledgment_number :: u32
  una_payload :: bytes

record tun_tcp_session_record =
  ses_key :: tun_tcp_session_key
  ses_flow :: tun_packet_flow
  ses_client_initial_sequence_number :: u32
  ses_client_next_sequence_number :: u32
  ses_server_initial_sequence_number :: u32
  ses_server_next_sequence_number :: u32
  ses_server_unacked_payload :: "tun_tcp_server_unacked_payload option"
  ses_window_size :: u16
  ses_phase :: tun_tcp_session_phase
  ses_last_activity_at :: instant

record tun_tcp_client_payload_frame =
  cpf_session :: tun_tcp_session_record
  cpf_sequence_number :: u32
  cpf_acknowledgment_number :: u32
  cpf_payload :: bytes
  cpf_ack_packet :: bytes

record tun_tcp_duplicate_client_payload_ack =
  dup_session :: tun_tcp_session_record
  dup_sequence_number :: u32
  dup_acknowledgment_number :: u32
  dup_payload :: bytes
  dup_ack_packet :: bytes

record tun_tcp_out_of_order_client_payload_ack =
  ooo_session :: tun_tcp_session_record
  ooo_sequence_number :: u32
  ooo_acknowledgment_number :: u32
  ooo_payload :: bytes
  ooo_ack_packet :: bytes

record tun_tcp_server_payload_frame =
  spf_session :: tun_tcp_session_record
  spf_sequence_number :: u32
  spf_acknowledgment_number :: u32
  spf_payload :: bytes
  spf_packet :: bytes

record tun_tcp_server_close_frame =
  scf_session :: tun_tcp_session_record
  scf_sequence_number :: u32
  scf_acknowledgment_number :: u32
  scf_packet :: bytes

record tun_tcp_server_closed_session =
  closed_response :: tun_tcp_server_close_frame
  closed_last_activity_at :: instant

record tun_tcp_post_close_session =
  post_session :: tun_tcp_session_record
  post_server_next_sequence_number :: u32
  post_client_next_sequence_number :: u32
  post_client_fin_sequence_number :: "u32 option"
  post_client_fin_ack_packet :: "bytes option"
  post_last_activity_at :: instant

record tun_tcp_close_frame =
  clf_session :: tun_tcp_session_record
  clf_sequence_number :: u32
  clf_acknowledgment_number :: u32
  clf_packet :: bytes

record tun_tcp_syn_ack_response =
  sar_session :: tun_tcp_session_record
  sar_packet :: bytes

record tun_tcp_session_table_state =
  st_active_sessions :: usize
  st_server_close_markers :: usize
  st_post_close_markers :: usize
  st_max_active_sessions :: usize

record tun_tcp_session_table =
  sessions :: "(tun_tcp_session_key, tun_tcp_session_record) hash_map"
  server_closed_sessions :: "(tun_tcp_session_key, tun_tcp_server_closed_session) hash_map"
  post_closed_sessions :: "(tun_tcp_session_key, tun_tcp_post_close_session) hash_map"
  max_active_sessions :: usize

type_synonym 'a table_op = "(tun_tcp_session_table, tun_packet_error, 'a) op"

section \<open>Segment checks\<close>

definition tcp_segment_acknowledges_known_server_sequence ::
    "tun_tcp_segment \<Rightarrow> tun_tcp_session_record \<Rightarrow> bool" where
  "tcp_segment_acknowledges_known_server_sequence segment session =
     (let acknowledged_syn = ses_server_initial_sequence_number session + 1 in
      if acknowledged_syn \<le> ses_server_next_sequence_number session
      then seg_acknowledgment_number segment \<ge> acknowledged_syn
        \<and> seg_acknowledgment_number segment \<le> ses_server_next_sequence_number session
      else seg_acknowledgment_number segment \<ge> acknowledged_syn
        \<or> seg_acknowledgment_number segment \<le> ses_server_next_sequence_number session)"

definition clear_server_unacked_payload_if_latest_acknowledged ::
    "tun_tcp_segment \<Rightarrow> tun_tcp_session_record \<Rightarrow> tun_tcp_session_record" where
  "clear_server_unacked_payload_if_latest_acknowledged segment session =
     (if seg_acknowledgment_number segment = ses_server_next_sequence_number session
      then session\<lparr>ses_server_unacked_payload := None\<rparr> else session)"

definition server_close_next_sequence_number :: "tun_tcp_server_close_frame \<Rightarrow> u32" where
  "server_close_next_sequence_number response = scf_sequence_number response + 1"

definition tun_tcp_phase_accepts_server_response :: "tun_tcp_session_phase \<Rightarrow> bool" where
  "tun_tcp_phase_accepts_server_response phase \<longleftrightarrow> phase = Established \<or> phase = ClientFinReceived"

fun tcp_close_segment_matches_session :: "tun_tcp_segment \<Rightarrow> tun_tcp_session_record \<Rightarrow> bool" where
  "tcp_close_segment_matches_session segment session = (case ses_phase session of
      SynReceived \<Rightarrow> True
    | Established \<Rightarrow>
        seg_ack segment
          \<and> seg_sequence_number segment = ses_client_next_sequence_number session
          \<and> seg_acknowledgment_number segment = ses_server_next_sequence_number session
    | ClientFinReceived \<Rightarrow>
        seg_rst segment \<and> seg_ack segment \<and> \<not> seg_fin segment
          \<and> seg_sequence_number segment = ses_client_next_sequence_number session
          \<and> tcp_segment_acknowledges_known_server_sequence segment session)"

text \<open>
  The guard most methods start with, for a pure acknowledgment, and the one for a segment that carries
  FIN and ACK.
\<close>

abbreviation is_pure_ack :: "tun_tcp_segment \<Rightarrow> bool" where
  "is_pure_ack segment \<equiv> seg_ack segment \<and> \<not> seg_syn segment \<and> \<not> seg_rst segment
     \<and> \<not> seg_fin segment \<and> seg_payload segment = []"

abbreviation is_fin_ack :: "tun_tcp_segment \<Rightarrow> bool" where
  "is_fin_ack segment \<equiv> seg_ack segment \<and> seg_fin segment \<and> \<not> seg_syn segment \<and> \<not> seg_rst segment"

section \<open>Access to the table\<close>

text \<open>
  \<open>let key = TunTcpSessionKey::from_flow(flow)?; let Some(x) = self.map.get(&key) else { return Ok(None) };\<close>
  and the writes through the reference obtained from \<open>get_mut\<close>.
\<close>

definition with_entry :: "(tun_tcp_session_table \<Rightarrow> (tun_tcp_session_key, 'v) hash_map) \<Rightarrow> tun_packet_flow
    \<Rightarrow> (tun_tcp_session_key \<Rightarrow> 'v \<Rightarrow> 'a option table_op) \<Rightarrow> 'a option table_op" where
  "with_entry field flow f = sbind (lift (session_key_from_flow flow)) (\<lambda>key table.
     case map_of (field table) key of None \<Rightarrow> (Ok None, table) | Some v \<Rightarrow> f key v table)"

definition modify :: "('s \<Rightarrow> 's) \<Rightarrow> ('s, 'e, unit) op" where
  "modify f = (\<lambda>s. (Ok (), f s))"

definition put_session :: "tun_tcp_session_key \<Rightarrow> tun_tcp_session_record \<Rightarrow> unit table_op" where
  "put_session key session = modify (\<lambda>table. table\<lparr>sessions := AList.update key session (sessions table)\<rparr>)"

definition put_server_closed :: "tun_tcp_session_key \<Rightarrow> tun_tcp_server_closed_session \<Rightarrow> unit table_op" where
  "put_server_closed key closed = modify (\<lambda>table.
     table\<lparr>server_closed_sessions := AList.update key closed (server_closed_sessions table)\<rparr>)"

definition put_post_closed :: "tun_tcp_session_key \<Rightarrow> tun_tcp_post_close_session \<Rightarrow> unit table_op" where
  "put_post_closed key post_close = modify (\<lambda>table.
     table\<lparr>post_closed_sessions := AList.update key post_close (post_closed_sessions table)\<rparr>)"

definition remove_session :: "tun_tcp_session_key \<Rightarrow> unit table_op" where
  "remove_session key = modify (\<lambda>table. table\<lparr>sessions := AList.delete key (sessions table)\<rparr>)"

definition remove_server_closed :: "tun_tcp_session_key \<Rightarrow> unit table_op" where
  "remove_server_closed key = modify (\<lambda>table.
     table\<lparr>server_closed_sessions := AList.delete key (server_closed_sessions table)\<rparr>)"

definition remove_post_closed :: "tun_tcp_session_key \<Rightarrow> unit table_op" where
  "remove_post_closed key = modify (\<lambda>table.
     table\<lparr>post_closed_sessions := AList.delete key (post_closed_sessions table)\<rparr>)"

section \<open>Methods of the table\<close>

definition with_max_active_sessions :: "usize \<Rightarrow> tun_tcp_session_table" where
  "with_max_active_sessions n =
     \<lparr>sessions = [], server_closed_sessions = [], post_closed_sessions = [],
      max_active_sessions = max n 1\<rparr>"

definition default_session_table :: tun_tcp_session_table where
  "default_session_table = with_max_active_sessions 4096"

definition state_counts :: "tun_tcp_session_table \<Rightarrow> tun_tcp_session_table_state" where
  "state_counts table =
     \<lparr>st_active_sessions = length (sessions table),
      st_server_close_markers = length (server_closed_sessions table),
      st_post_close_markers = length (post_closed_sessions table),
      st_max_active_sessions = max_active_sessions table\<rparr>"

definition get_flow :: "tun_tcp_session_table \<Rightarrow> tun_packet_flow
    \<Rightarrow> (tun_packet_error, tun_tcp_session_record option) outcome" where
  "get_flow table flow = obind (session_key_from_flow flow) (\<lambda>key. Ok (map_of (sessions table) key))"

definition start_from_syn :: "instant \<Rightarrow> tun_tcp_segment \<Rightarrow> u32 \<Rightarrow> u16
    \<Rightarrow> tun_tcp_syn_ack_response table_op" where
  "start_from_syn now segment server_initial_sequence_number window_size =
     (if \<not> is_initial_tcp_syn_segment segment then lift (Err (ExpectedTcpSynSegment (seg_flags segment)))
      else sbind (lift (session_key_from_flow (seg_flow segment))) (\<lambda>key table.
        if map_of (sessions table) key = None
            \<and> length (sessions table) \<ge> max_active_sessions table
        then (Err (TcpSessionLimitExceeded (length (sessions table)) (max_active_sessions table)), table)
        else
          (let session = \<lparr>ses_key = key, ses_flow = seg_flow segment,
                 ses_client_initial_sequence_number = seg_sequence_number segment,
                 ses_client_next_sequence_number = tcp_segment_next_sequence_number segment,
                 ses_server_initial_sequence_number = server_initial_sequence_number,
                 ses_server_next_sequence_number = server_initial_sequence_number + 1,
                 ses_server_unacked_payload = None, ses_window_size = window_size,
                 ses_phase = SynReceived, ses_last_activity_at = now\<rparr> in
           sbind (lift (build_tun_tcp_syn_ack_response_packet segment
             server_initial_sequence_number window_size)) (\<lambda>packet.
           sbind (remove_server_closed key) (\<lambda>_.
           sbind (remove_post_closed key) (\<lambda>_.
           sbind (put_session key session) (\<lambda>_.
           ret \<lparr>sar_session = session, sar_packet = packet\<rparr>))))) table))"

definition acknowledge_retransmitted_syn :: "instant \<Rightarrow> tun_tcp_segment
    \<Rightarrow> tun_tcp_syn_ack_response option table_op" where
  "acknowledge_retransmitted_syn now segment =
     (if \<not> is_initial_tcp_syn_segment segment then ret None
      else with_entry sessions (seg_flow segment) (\<lambda>key session.
        if ses_phase session \<noteq> SynReceived
          \<or> seg_sequence_number segment \<noteq> ses_client_initial_sequence_number session
        then ret None
        else let session' = session\<lparr>ses_last_activity_at := now\<rparr> in
          sbind (put_session key session') (\<lambda>_.
          sbind (lift (build_tun_tcp_syn_ack_response_packet segment
            (ses_server_initial_sequence_number session') (ses_window_size session'))) (\<lambda>packet.
          ret (Some \<lparr>sar_session = session', sar_packet = packet\<rparr>)))))"

definition apply_ack :: "instant \<Rightarrow> tun_tcp_segment \<Rightarrow> tun_tcp_session_record option table_op" where
  "apply_ack now segment = with_entry sessions (seg_flow segment) (\<lambda>key session.
     if ses_phase session = SynReceived \<and> seg_ack segment \<and> \<not> seg_syn segment \<and> \<not> seg_rst segment
       \<and> seg_sequence_number segment = ses_client_next_sequence_number session
       \<and> seg_acknowledgment_number segment = ses_server_next_sequence_number session
     then let session' = session\<lparr>ses_phase := Established, ses_last_activity_at := now\<rparr> in
       sbind (put_session key session') (\<lambda>_. ret (Some session'))
     else ret None)"

definition accept_client_payload :: "instant \<Rightarrow> tun_tcp_segment
    \<Rightarrow> tun_tcp_client_payload_frame option table_op" where
  "accept_client_payload now segment = with_entry sessions (seg_flow segment) (\<lambda>key session.
     if ses_phase session \<noteq> Established \<or> seg_payload segment = [] \<or> \<not> seg_ack segment
       \<or> seg_syn segment \<or> seg_rst segment
       \<or> seg_sequence_number segment \<noteq> ses_client_next_sequence_number session
       \<or> \<not> tcp_segment_acknowledges_known_server_sequence segment session
     then ret None
     else
       let session' = (clear_server_unacked_payload_if_latest_acknowledged segment session)
             \<lparr>ses_client_next_sequence_number := tcp_segment_next_sequence_number segment,
              ses_last_activity_at := now\<rparr> in
       sbind (put_session key session') (\<lambda>_.
       sbind (lift (build_tun_tcp_ack_response_packet (ses_flow session')
         (ses_server_next_sequence_number session') (ses_client_next_sequence_number session')
         (ses_window_size session'))) (\<lambda>ack_packet.
       ret (Some \<lparr>cpf_session = session', cpf_sequence_number = seg_sequence_number segment,
         cpf_acknowledgment_number = ses_client_next_sequence_number session',
         cpf_payload = seg_payload segment, cpf_ack_packet = ack_packet\<rparr>))))"

definition accept_overlapping_client_payload :: "instant \<Rightarrow> tun_tcp_segment
    \<Rightarrow> tun_tcp_client_payload_frame option table_op" where
  "accept_overlapping_client_payload now segment = with_entry sessions (seg_flow segment) (\<lambda>key session.
     let segment_next_sequence_number = tcp_segment_next_sequence_number segment in
     if ses_phase session \<noteq> Established \<or> seg_payload segment = [] \<or> \<not> seg_ack segment
       \<or> seg_syn segment \<or> seg_rst segment \<or> seg_fin segment
       \<or> seg_sequence_number segment \<ge> ses_client_next_sequence_number session
       \<or> segment_next_sequence_number \<le> ses_client_next_sequence_number session
       \<or> \<not> tcp_segment_acknowledges_known_server_sequence segment session
     then ret None
     else
       let payload_offset =
             unat (ses_client_next_sequence_number session - seg_sequence_number segment) in
       case get_range (seg_payload segment) payload_offset (length (seg_payload segment)) of
         None \<Rightarrow> ret None
       | Some payload \<Rightarrow>
           let sequence_number = ses_client_next_sequence_number session;
               session' = (clear_server_unacked_payload_if_latest_acknowledged segment session)
                 \<lparr>ses_client_next_sequence_number := segment_next_sequence_number,
                  ses_last_activity_at := now\<rparr> in
           sbind (put_session key session') (\<lambda>_.
           sbind (lift (build_tun_tcp_ack_response_packet (ses_flow session')
             (ses_server_next_sequence_number session') (ses_client_next_sequence_number session')
             (ses_window_size session'))) (\<lambda>ack_packet.
           ret (Some \<lparr>cpf_session = session', cpf_sequence_number = sequence_number,
             cpf_acknowledgment_number = ses_client_next_sequence_number session',
             cpf_payload = payload, cpf_ack_packet = ack_packet\<rparr>))))"

definition acknowledge_duplicate_client_payload :: "instant \<Rightarrow> tun_tcp_segment
    \<Rightarrow> tun_tcp_duplicate_client_payload_ack option table_op" where
  "acknowledge_duplicate_client_payload now segment = with_entry sessions (seg_flow segment) (\<lambda>key session.
     let segment_next_sequence_number = tcp_segment_next_sequence_number segment in
     if ses_phase session \<noteq> Established \<or> seg_payload segment = [] \<or> \<not> seg_ack segment
       \<or> seg_syn segment \<or> seg_rst segment \<or> seg_fin segment
       \<or> seg_sequence_number segment \<ge> ses_client_next_sequence_number session
       \<or> segment_next_sequence_number > ses_client_next_sequence_number session
       \<or> \<not> tcp_segment_acknowledges_known_server_sequence segment session
     then ret None
     else
       let session' = (clear_server_unacked_payload_if_latest_acknowledged segment session)
             \<lparr>ses_last_activity_at := now\<rparr> in
       sbind (put_session key session') (\<lambda>_.
       sbind (lift (build_tun_tcp_ack_response_packet (ses_flow session')
         (ses_server_next_sequence_number session') (ses_client_next_sequence_number session')
         (ses_window_size session'))) (\<lambda>ack_packet.
       ret (Some \<lparr>dup_session = session', dup_sequence_number = seg_sequence_number segment,
         dup_acknowledgment_number = ses_client_next_sequence_number session',
         dup_payload = seg_payload segment, dup_ack_packet = ack_packet\<rparr>))))"

definition acknowledge_out_of_order_client_payload :: "instant \<Rightarrow> tun_tcp_segment
    \<Rightarrow> tun_tcp_out_of_order_client_payload_ack option table_op" where
  "acknowledge_out_of_order_client_payload now segment = with_entry sessions (seg_flow segment) (\<lambda>key session.
     if ses_phase session \<noteq> Established \<or> seg_payload segment = [] \<or> \<not> seg_ack segment
       \<or> seg_syn segment \<or> seg_rst segment \<or> seg_fin segment
       \<or> seg_sequence_number segment \<le> ses_client_next_sequence_number session
       \<or> \<not> tcp_segment_acknowledges_known_server_sequence segment session
     then ret None
     else
       let session' = (clear_server_unacked_payload_if_latest_acknowledged segment session)
             \<lparr>ses_last_activity_at := now\<rparr> in
       sbind (put_session key session') (\<lambda>_.
       sbind (lift (build_tun_tcp_ack_response_packet (ses_flow session')
         (ses_server_next_sequence_number session') (ses_client_next_sequence_number session')
         (ses_window_size session'))) (\<lambda>ack_packet.
       ret (Some \<lparr>ooo_session = session', ooo_sequence_number = seg_sequence_number segment,
         ooo_acknowledgment_number = ses_client_next_sequence_number session',
         ooo_payload = seg_payload segment, ooo_ack_packet = ack_packet\<rparr>))))"

definition send_server_payload :: "instant \<Rightarrow> tun_packet_flow \<Rightarrow> bytes
    \<Rightarrow> tun_tcp_server_payload_frame option table_op" where
  "send_server_payload now flow payload = with_entry sessions flow (\<lambda>key session.
     if \<not> tun_tcp_phase_accepts_server_response (ses_phase session) \<or> payload = [] then ret None
     else
       let sequence_number = ses_server_next_sequence_number session;
           acknowledgment_number = ses_client_next_sequence_number session in
       sbind (lift (build_tun_tcp_payload_response_packet (ses_flow session) sequence_number
         acknowledgment_number (ses_window_size session) payload)) (\<lambda>packet.
       let session' = session\<lparr>
             ses_server_next_sequence_number :=
               ses_server_next_sequence_number session + of_nat (length payload),
             ses_server_unacked_payload := Some \<lparr>una_sequence_number = sequence_number,
               una_acknowledgment_number = acknowledgment_number, una_payload = payload\<rparr>,
             ses_last_activity_at := now\<rparr> in
       sbind (put_session key session') (\<lambda>_.
       ret (Some \<lparr>spf_session = session', spf_sequence_number = sequence_number,
         spf_acknowledgment_number = acknowledgment_number, spf_payload = payload,
         spf_packet = packet\<rparr>))))"

definition retransmit_server_payload :: "instant \<Rightarrow> tun_tcp_segment
    \<Rightarrow> tun_tcp_server_payload_frame option table_op" where
  "retransmit_server_payload now segment =
     (if \<not> is_pure_ack segment then ret None
      else with_entry sessions (seg_flow segment) (\<lambda>key session.
        case ses_server_unacked_payload session of
          None \<Rightarrow> ret None
        | Some unacked \<Rightarrow>
            if \<not> tun_tcp_phase_accepts_server_response (ses_phase session)
              \<or> seg_sequence_number segment \<noteq> ses_client_next_sequence_number session
              \<or> seg_acknowledgment_number segment \<noteq> una_sequence_number unacked
            then ret None
            else
              let acknowledgment_number = ses_client_next_sequence_number session in
              sbind (lift (build_tun_tcp_payload_response_packet (ses_flow session)
                (una_sequence_number unacked) acknowledgment_number (ses_window_size session)
                (una_payload unacked))) (\<lambda>packet.
              let session' = session\<lparr>ses_last_activity_at := now\<rparr> in
              sbind (put_session key session') (\<lambda>_.
              ret (Some \<lparr>spf_session = session', spf_sequence_number = una_sequence_number unacked,
                spf_acknowledgment_number = acknowledgment_number,
                spf_payload = una_payload unacked, spf_packet = packet\<rparr>)))))"

definition retransmit_server_payload_for_duplicate_client_fin :: "instant \<Rightarrow> tun_tcp_segment
    \<Rightarrow> tun_tcp_server_payload_frame option table_op" where
  "retransmit_server_payload_for_duplicate_client_fin now segment =
     (if \<not> is_fin_ack segment then ret None
      else with_entry sessions (seg_flow segment) (\<lambda>key session.
        case ses_server_unacked_payload session of
          None \<Rightarrow> ret None
        | Some unacked \<Rightarrow>
            if ses_phase session \<noteq> ClientFinReceived
              \<or> tcp_segment_next_sequence_number segment \<noteq> ses_client_next_sequence_number session
              \<or> seg_acknowledgment_number segment \<noteq> una_sequence_number unacked
            then ret None
            else
              let acknowledgment_number = ses_client_next_sequence_number session in
              sbind (lift (build_tun_tcp_payload_response_packet (ses_flow session)
                (una_sequence_number unacked) acknowledgment_number (ses_window_size session)
                (una_payload unacked))) (\<lambda>packet.
              let session' = session\<lparr>ses_last_activity_at := now\<rparr> in
              sbind (put_session key session') (\<lambda>_.
              ret (Some \<lparr>spf_session = session', spf_sequence_number = una_sequence_number unacked,
                spf_acknowledgment_number = acknowledgment_number,
                spf_payload = una_payload unacked, spf_packet = packet\<rparr>)))))"

definition close_server_side :: "instant \<Rightarrow> tun_tcp_session_key
    \<Rightarrow> tun_tcp_server_close_frame option table_op" where
  "close_server_side now key = (\<lambda>table. case map_of (sessions table) key of
      None \<Rightarrow> (Ok None, table)
    | Some session \<Rightarrow>
        sbind (remove_session key) (\<lambda>_.
        if \<not> tun_tcp_phase_accepts_server_response (ses_phase session) then ret None
        else
          let sequence_number = ses_server_next_sequence_number session;
              acknowledgment_number = ses_client_next_sequence_number session in
          sbind (lift (build_tun_tcp_fin_ack_response_packet (ses_flow session) sequence_number
            acknowledgment_number (ses_window_size session))) (\<lambda>packet.
          let response = \<lparr>scf_session = session, scf_sequence_number = sequence_number,
                scf_acknowledgment_number = acknowledgment_number, scf_packet = packet\<rparr> in
          sbind (put_server_closed key \<lparr>closed_response = response, closed_last_activity_at = now\<rparr>) (\<lambda>_.
          ret (Some response)))) table)"

definition retransmit_server_close :: "instant \<Rightarrow> tun_tcp_segment
    \<Rightarrow> tun_tcp_server_close_frame option table_op" where
  "retransmit_server_close now segment =
     (if \<not> is_pure_ack segment then ret None
      else with_entry server_closed_sessions (seg_flow segment) (\<lambda>key closed.
        if seg_sequence_number segment \<noteq> scf_acknowledgment_number (closed_response closed)
          \<or> seg_acknowledgment_number segment \<noteq> scf_sequence_number (closed_response closed)
        then ret None
        else sbind (put_server_closed key (closed\<lparr>closed_last_activity_at := now\<rparr>)) (\<lambda>_.
          ret (Some (closed_response closed)))))"

definition retransmit_server_close_for_duplicate_client_fin :: "instant \<Rightarrow> tun_tcp_segment
    \<Rightarrow> tun_tcp_server_close_frame option table_op" where
  "retransmit_server_close_for_duplicate_client_fin now segment =
     (if \<not> is_fin_ack segment then ret None
      else with_entry server_closed_sessions (seg_flow segment) (\<lambda>key closed.
        if tcp_segment_next_sequence_number segment \<noteq> scf_acknowledgment_number (closed_response closed)
          \<or> seg_acknowledgment_number segment \<noteq> scf_sequence_number (closed_response closed)
        then ret None
        else sbind (put_server_closed key (closed\<lparr>closed_last_activity_at := now\<rparr>)) (\<lambda>_.
          ret (Some (closed_response closed)))))"

definition acknowledge_server_close :: "instant \<Rightarrow> tun_tcp_segment
    \<Rightarrow> tun_tcp_session_record option table_op" where
  "acknowledge_server_close now segment =
     (if \<not> is_pure_ack segment then ret None
      else with_entry server_closed_sessions (seg_flow segment) (\<lambda>key closed.
        if seg_sequence_number segment \<noteq> scf_acknowledgment_number (closed_response closed)
          \<or> seg_acknowledgment_number segment \<noteq> server_close_next_sequence_number (closed_response closed)
        then ret None
        else
          sbind (remove_server_closed key) (\<lambda>_.
          let session = scf_session (closed_response closed) in
          sbind (put_post_closed key
            \<lparr>post_session = session,
             post_server_next_sequence_number = server_close_next_sequence_number (closed_response closed),
             post_client_next_sequence_number = scf_acknowledgment_number (closed_response closed),
             post_client_fin_sequence_number = None, post_client_fin_ack_packet = None,
             post_last_activity_at = now\<rparr>) (\<lambda>_.
          ret (Some session)))))"

definition acknowledge_server_close_with_client_fin :: "instant \<Rightarrow> tun_tcp_segment
    \<Rightarrow> tun_tcp_close_frame option table_op" where
  "acknowledge_server_close_with_client_fin now segment =
     (if \<not> is_fin_ack segment \<or> seg_payload segment \<noteq> [] then ret None
      else with_entry server_closed_sessions (seg_flow segment) (\<lambda>key closed.
        if seg_sequence_number segment \<noteq> scf_acknowledgment_number (closed_response closed)
          \<or> seg_acknowledgment_number segment \<noteq> server_close_next_sequence_number (closed_response closed)
        then ret None
        else
          sbind (remove_server_closed key) (\<lambda>_.
          let sequence_number = server_close_next_sequence_number (closed_response closed);
              acknowledgment_number = tcp_segment_next_sequence_number segment;
              session = scf_session (closed_response closed) in
          sbind (lift (build_tun_tcp_ack_response_packet (ses_flow session) sequence_number
            acknowledgment_number (ses_window_size session))) (\<lambda>packet.
          sbind (put_post_closed key
            \<lparr>post_session = session, post_server_next_sequence_number = sequence_number,
             post_client_next_sequence_number = acknowledgment_number,
             post_client_fin_sequence_number = Some (seg_sequence_number segment),
             post_client_fin_ack_packet = Some packet, post_last_activity_at = now\<rparr>) (\<lambda>_.
          ret (Some \<lparr>clf_session = session, clf_sequence_number = sequence_number,
            clf_acknowledgment_number = acknowledgment_number, clf_packet = packet\<rparr>))))))"

definition matches_post_close_client_sequence :: "tun_tcp_segment \<Rightarrow> tun_tcp_post_close_session \<Rightarrow> bool" where
  "matches_post_close_client_sequence segment post_close \<longleftrightarrow>
     seg_sequence_number segment = post_client_next_sequence_number post_close
     \<or> post_client_fin_sequence_number post_close = Some (seg_sequence_number segment)"

definition acknowledge_post_close_ack :: "instant \<Rightarrow> tun_tcp_segment
    \<Rightarrow> tun_tcp_session_record option table_op" where
  "acknowledge_post_close_ack now segment =
     (if \<not> is_pure_ack segment then ret None
      else with_entry post_closed_sessions (seg_flow segment) (\<lambda>key post_close.
        if \<not> matches_post_close_client_sequence segment post_close
          \<or> seg_acknowledgment_number segment \<noteq> post_server_next_sequence_number post_close
        then ret None
        else sbind (put_post_closed key (post_close\<lparr>post_last_activity_at := now\<rparr>)) (\<lambda>_.
          ret (Some (post_session post_close)))))"

definition acknowledge_post_close_client_fin :: "instant \<Rightarrow> tun_tcp_segment
    \<Rightarrow> tun_tcp_close_frame option table_op" where
  "acknowledge_post_close_client_fin now segment =
     (if \<not> is_fin_ack segment then ret None
      else with_entry post_closed_sessions (seg_flow segment) (\<lambda>key post_close.
        if seg_acknowledgment_number segment \<noteq> post_server_next_sequence_number post_close then ret None
        else case post_client_fin_sequence_number post_close of
          Some client_fin_sequence_number \<Rightarrow>
            if seg_sequence_number segment \<noteq> client_fin_sequence_number
              \<or> tcp_segment_next_sequence_number segment \<noteq> post_client_next_sequence_number post_close
            then ret None
            else (case post_client_fin_ack_packet post_close of
                None \<Rightarrow> ret None
              | Some packet \<Rightarrow>
                  sbind (put_post_closed key (post_close\<lparr>post_last_activity_at := now\<rparr>)) (\<lambda>_.
                  ret (Some \<lparr>clf_session = post_session post_close,
                    clf_sequence_number = post_server_next_sequence_number post_close,
                    clf_acknowledgment_number = post_client_next_sequence_number post_close,
                    clf_packet = packet\<rparr>)))
        | None \<Rightarrow>
            if seg_sequence_number segment \<noteq> post_client_next_sequence_number post_close then ret None
            else
              let sequence_number = post_server_next_sequence_number post_close;
                  acknowledgment_number = tcp_segment_next_sequence_number segment in
              sbind (lift (build_tun_tcp_ack_response_packet (ses_flow (post_session post_close))
                sequence_number acknowledgment_number
                (ses_window_size (post_session post_close)))) (\<lambda>packet.
              sbind (put_post_closed key (post_close\<lparr>
                post_client_next_sequence_number := acknowledgment_number,
                post_client_fin_sequence_number := Some (seg_sequence_number segment),
                post_client_fin_ack_packet := Some packet, post_last_activity_at := now\<rparr>)) (\<lambda>_.
              ret (Some \<lparr>clf_session = post_session post_close, clf_sequence_number = sequence_number,
                clf_acknowledgment_number = acknowledgment_number, clf_packet = packet\<rparr>)))))"

definition remove_server_close_on_rst :: "tun_tcp_segment \<Rightarrow> tun_tcp_session_record option table_op" where
  "remove_server_close_on_rst segment =
     (if \<not> seg_rst segment \<or> seg_syn segment \<or> seg_fin segment then ret None
      else with_entry server_closed_sessions (seg_flow segment) (\<lambda>key closed.
        if seg_sequence_number segment \<noteq> scf_acknowledgment_number (closed_response closed) then ret None
        else if seg_ack segment
          \<and> seg_acknowledgment_number segment \<noteq> scf_sequence_number (closed_response closed)
          \<and> seg_acknowledgment_number segment \<noteq> server_close_next_sequence_number (closed_response closed)
        then ret None
        else sbind (remove_server_closed key) (\<lambda>_. ret (Some (scf_session (closed_response closed))))))"

definition remove_post_close_on_rst :: "tun_tcp_segment \<Rightarrow> tun_tcp_session_record option table_op" where
  "remove_post_close_on_rst segment =
     (if \<not> seg_rst segment \<or> seg_syn segment \<or> seg_fin segment then ret None
      else with_entry post_closed_sessions (seg_flow segment) (\<lambda>key post_close.
        if \<not> matches_post_close_client_sequence segment post_close then ret None
        else if seg_ack segment
          \<and> seg_acknowledgment_number segment \<noteq> post_server_next_sequence_number post_close
        then ret None
        else sbind (remove_post_closed key) (\<lambda>_. ret (Some (post_session post_close)))))"

definition accept_client_fin_with_payload :: "instant \<Rightarrow> tun_tcp_segment
    \<Rightarrow> (tun_tcp_client_payload_frame \<times> tun_tcp_close_frame) option table_op" where
  "accept_client_fin_with_payload now segment =
     (if \<not> is_fin_ack segment \<or> seg_payload segment = [] then ret None
      else with_entry sessions (seg_flow segment) (\<lambda>key session.
        if ses_phase session \<noteq> Established
          \<or> seg_sequence_number segment \<noteq> ses_client_next_sequence_number session
          \<or> \<not> tcp_segment_acknowledges_known_server_sequence segment session
        then ret None
        else
          let session1 = clear_server_unacked_payload_if_latest_acknowledged segment session;
              sequence_number = ses_server_next_sequence_number session1;
              acknowledgment_number = tcp_segment_next_sequence_number segment in
          sbind (put_session key session1) (\<lambda>_.
          sbind (lift (build_tun_tcp_ack_response_packet (ses_flow session1) sequence_number
            acknowledgment_number (ses_window_size session1))) (\<lambda>packet.
          let session2 = session1\<lparr>ses_client_next_sequence_number := acknowledgment_number,
                ses_phase := ClientFinReceived, ses_last_activity_at := now\<rparr> in
          sbind (put_session key session2) (\<lambda>_.
          ret (Some
            (\<lparr>cpf_session = session2, cpf_sequence_number = seg_sequence_number segment,
              cpf_acknowledgment_number = acknowledgment_number,
              cpf_payload = seg_payload segment, cpf_ack_packet = packet\<rparr>,
             \<lparr>clf_session = session2, clf_sequence_number = sequence_number,
              clf_acknowledgment_number = acknowledgment_number, clf_packet = packet\<rparr>)))))))"

definition acknowledge_client_fin :: "instant \<Rightarrow> tun_tcp_segment \<Rightarrow> tun_tcp_close_frame option table_op" where
  "acknowledge_client_fin now segment =
     (if \<not> is_fin_ack segment \<or> seg_payload segment \<noteq> [] then ret None
      else with_entry sessions (seg_flow segment) (\<lambda>key session.
        if ses_phase session \<noteq> Established
          \<or> seg_sequence_number segment \<noteq> ses_client_next_sequence_number session
          \<or> \<not> tcp_segment_acknowledges_known_server_sequence segment session
        then ret None
        else
          let session1 = clear_server_unacked_payload_if_latest_acknowledged segment session;
              sequence_number = ses_server_next_sequence_number session1;
              acknowledgment_number = tcp_segment_next_sequence_number segment in
          sbind (put_session key session1) (\<lambda>_.
          sbind (lift (build_tun_tcp_ack_response_packet (ses_flow session1) sequence_number
            acknowledgment_number (ses_window_size session1))) (\<lambda>packet.
          let session2 = session1\<lparr>ses_client_next_sequence_number := acknowledgment_number,
                ses_phase := ClientFinReceived, ses_last_activity_at := now\<rparr> in
          sbind (put_session key session2) (\<lambda>_.
          ret (Some \<lparr>clf_session = session2, clf_sequence_number = sequence_number,
            clf_acknowledgment_number = acknowledgment_number, clf_packet = packet\<rparr>))))))"

definition acknowledge_duplicate_client_fin :: "instant \<Rightarrow> tun_tcp_segment
    \<Rightarrow> tun_tcp_close_frame option table_op" where
  "acknowledge_duplicate_client_fin now segment =
     (if \<not> is_fin_ack segment then ret None
      else with_entry sessions (seg_flow segment) (\<lambda>key session.
        if ses_phase session \<noteq> ClientFinReceived
          \<or> tcp_segment_next_sequence_number segment \<noteq> ses_client_next_sequence_number session
          \<or> \<not> tcp_segment_acknowledges_known_server_sequence segment session
        then ret None
        else
          let sequence_number = ses_server_next_sequence_number session;
              acknowledgment_number = ses_client_next_sequence_number session in
          sbind (lift (build_tun_tcp_ack_response_packet (ses_flow session) sequence_number
            acknowledgment_number (ses_window_size session))) (\<lambda>packet.
          let session' = (clear_server_unacked_payload_if_latest_acknowledged segment session)
                \<lparr>ses_last_activity_at := now\<rparr> in
          sbind (put_session key session') (\<lambda>_.
          ret (Some \<lparr>clf_session = session', clf_sequence_number = sequence_number,
            clf_acknowledgment_number = acknowledgment_number, clf_packet = packet\<rparr>)))))"

definition server_payload_poll_session :: "instant \<Rightarrow> tun_tcp_segment
    \<Rightarrow> tun_tcp_session_record option table_op" where
  "server_payload_poll_session now segment =
     (if \<not> is_pure_ack segment then ret None
      else with_entry sessions (seg_flow segment) (\<lambda>key session.
        if tun_tcp_phase_accepts_server_response (ses_phase session)
          \<and> seg_sequence_number segment = ses_client_next_sequence_number session
          \<and> seg_acknowledgment_number segment = ses_server_next_sequence_number session
        then let session' = (clear_server_unacked_payload_if_latest_acknowledged segment session)
               \<lparr>ses_last_activity_at := now\<rparr> in
          sbind (put_session key session') (\<lambda>_. ret (Some session'))
        else ret None))"

definition acknowledge_client_ack :: "instant \<Rightarrow> tun_tcp_segment
    \<Rightarrow> tun_tcp_session_record option table_op" where
  "acknowledge_client_ack now segment =
     (if \<not> is_pure_ack segment then ret None
      else with_entry sessions (seg_flow segment) (\<lambda>key session.
        if tun_tcp_phase_accepts_server_response (ses_phase session)
          \<and> seg_sequence_number segment = ses_client_next_sequence_number session
          \<and> tcp_segment_acknowledges_known_server_sequence segment session
        then let session' = (clear_server_unacked_payload_if_latest_acknowledged segment session)
               \<lparr>ses_last_activity_at := now\<rparr> in
          sbind (put_session key session') (\<lambda>_. ret (Some session'))
        else ret None))"

text \<open>\<open>keys.filter_map(|key| map.remove(&key))\<close>.\<close>

fun remove_all :: "'k list \<Rightarrow> ('k, 'v) hash_map \<Rightarrow> 'v list \<times> ('k, 'v) hash_map" where
  "remove_all [] m = ([], m)"
| "remove_all (key # keys) m =
     (case remove_all keys (AList.delete key m) of (removed, m') \<Rightarrow>
        (case map_of m key of Some v \<Rightarrow> (v # removed, m') | None \<Rightarrow> (removed, m')))"

definition expired_keys :: "instant \<Rightarrow> duration \<Rightarrow> ('v \<Rightarrow> instant) \<Rightarrow> ('k, 'v) hash_map \<Rightarrow> 'k list" where
  "expired_keys now idle_timeout last_activity m =
     map fst (filter (\<lambda>(_, v). saturating_duration_since now (last_activity v) \<ge> idle_timeout) m)"

definition prune_idle :: "instant \<Rightarrow> duration \<Rightarrow> tun_tcp_session_table
    \<Rightarrow> tun_tcp_session_record list \<times> tun_tcp_session_table" where
  "prune_idle now idle_timeout table =
     (let (pruned_sessions, active) =
            remove_all (expired_keys now idle_timeout ses_last_activity_at (sessions table)) (sessions table);
          (_, server_closed) =
            remove_all (expired_keys now idle_timeout closed_last_activity_at (server_closed_sessions table))
              (server_closed_sessions table);
          (_, post_closed) =
            remove_all (expired_keys now idle_timeout post_last_activity_at (post_closed_sessions table))
              (post_closed_sessions table) in
      (pruned_sessions, table\<lparr>sessions := active, server_closed_sessions := server_closed,
         post_closed_sessions := post_closed\<rparr>))"

definition remove_on_close :: "instant \<Rightarrow> tun_tcp_segment
    \<Rightarrow> (tun_tcp_session_record \<times> tun_tcp_close_frame option) option table_op" where
  "remove_on_close now segment =
     (if \<not> (seg_rst segment \<or> seg_fin segment) then ret None
      else with_entry sessions (seg_flow segment) (\<lambda>key session.
        if \<not> tcp_close_segment_matches_session segment session then ret None
        else sbind (remove_session key) (\<lambda>_.
          sbind
            (if seg_fin segment \<and> \<not> seg_rst segment then
               let sequence_number = ses_server_next_sequence_number session;
                   acknowledgment_number = tcp_segment_next_sequence_number segment in
               sbind (lift (build_tun_tcp_ack_response_packet (ses_flow session) sequence_number
                 acknowledgment_number (ses_window_size session))) (\<lambda>packet.
               ret (Some \<lparr>clf_session = session, clf_sequence_number = sequence_number,
                 clf_acknowledgment_number = acknowledgment_number, clf_packet = packet\<rparr>))
             else ret None) (\<lambda>response.
          sbind
            (case response of
               Some frame \<Rightarrow> put_post_closed key
                 \<lparr>post_session = clf_session frame,
                  post_server_next_sequence_number = clf_sequence_number frame,
                  post_client_next_sequence_number = clf_acknowledgment_number frame,
                  post_client_fin_sequence_number = Some (seg_sequence_number segment),
                  post_client_fin_ack_packet = Some (clf_packet frame), post_last_activity_at = now\<rparr>
             | None \<Rightarrow> ret ()) (\<lambda>_.
          ret (Some (session, response)))))))"

section \<open>Invariant\<close>

definition unacked_ok :: "tun_tcp_session_record \<Rightarrow> bool" where
  "unacked_ok s = (case ses_server_unacked_payload s of
      None \<Rightarrow> True
    | Some u \<Rightarrow> una_payload u \<noteq> []
        \<and> length (una_payload u) \<le> max_tcp_response_payload (flow_ip_version (ses_flow s))
        \<and> una_sequence_number u + of_nat (length (una_payload u)) = ses_server_next_sequence_number s)"

definition session_ok :: "tun_tcp_session_key \<Rightarrow> tun_tcp_session_record \<Rightarrow> bool" where
  "session_ok key s \<longleftrightarrow>
     flow_wf (ses_flow s) \<and> session_key_from_flow (ses_flow s) = Ok key \<and> ses_key s = key
     \<and> unacked_ok s
     \<and> (ses_phase s = SynReceived \<longrightarrow> ses_server_unacked_payload s = None
         \<and> ses_server_next_sequence_number s = ses_server_initial_sequence_number s + 1)"

definition closed_ok :: "tun_tcp_session_key \<Rightarrow> tun_tcp_server_closed_session \<Rightarrow> bool" where
  "closed_ok key c = (let r = closed_response c; s = scf_session r in
     session_ok key s \<and> tun_tcp_phase_accepts_server_response (ses_phase s)
     \<and> scf_sequence_number r = ses_server_next_sequence_number s
     \<and> scf_acknowledgment_number r = ses_client_next_sequence_number s
     \<and> build_tun_tcp_fin_ack_response_packet (ses_flow s) (scf_sequence_number r)
         (scf_acknowledgment_number r) (ses_window_size s) = Ok (scf_packet r))"

definition post_ok :: "tun_tcp_session_key \<Rightarrow> tun_tcp_post_close_session \<Rightarrow> bool" where
  "post_ok key p = (let s = post_session p in
     session_ok key s
     \<and> (case post_client_fin_ack_packet p of
          None \<Rightarrow> post_client_fin_sequence_number p = None
        | Some packet \<Rightarrow> post_client_fin_sequence_number p \<noteq> None
            \<and> build_tun_tcp_ack_response_packet (ses_flow s) (post_server_next_sequence_number p)
                (post_client_next_sequence_number p) (ses_window_size s) = Ok packet))"

definition entry_ok :: "tun_tcp_session_key \<Rightarrow> tun_tcp_session_record option
    \<Rightarrow> tun_tcp_server_closed_session option \<Rightarrow> tun_tcp_post_close_session option \<Rightarrow> bool" where
  "entry_ok key a c p \<longleftrightarrow>
     pred_option (session_ok key) a \<and> pred_option (closed_ok key) c \<and> pred_option (post_ok key) p
     \<and> (a \<noteq> None \<longrightarrow> c = None \<and> p = None) \<and> (c \<noteq> None \<longrightarrow> p = None)"

definition table_inv :: "tun_tcp_session_table \<Rightarrow> bool" where
  "table_inv t \<longleftrightarrow>
     distinct (map fst (sessions t)) \<and> distinct (map fst (server_closed_sessions t))
     \<and> distinct (map fst (post_closed_sessions t))
     \<and> 1 \<le> max_active_sessions t \<and> length (sessions t) \<le> max_active_sessions t
     \<and> (\<forall>key. entry_ok key (map_of (sessions t) key) (map_of (server_closed_sessions t) key)
           (map_of (post_closed_sessions t) key))"

lemma table_inv_entries:
  assumes "table_inv t"
  shows "map_of (sessions t) key = Some s \<Longrightarrow> session_ok key s
      \<and> map_of (server_closed_sessions t) key = None \<and> map_of (post_closed_sessions t) key = None"
    and "map_of (server_closed_sessions t) key = Some c \<Longrightarrow> closed_ok key c
      \<and> map_of (sessions t) key = None \<and> map_of (post_closed_sessions t) key = None"
    and "map_of (post_closed_sessions t) key = Some p \<Longrightarrow> post_ok key p
      \<and> map_of (sessions t) key = None \<and> map_of (server_closed_sessions t) key = None"
  using assms
  by (auto simp: table_inv_def entry_ok_def simp del: map_of_eq_Some_iff dest!: spec [of _ key])

lemma map_of_insert: "map_of (AList.update k v m) = (map_of m)(k \<mapsto> v)"
  by (simp add: update_conv')

lemma map_of_remove: "map_of (AList.delete k m) = (map_of m)(k := None)"
  by (simp add: delete_conv')

lemmas table_simps = map_of_insert map_of_remove hm.len_insert hm.len_remove hm.invar_insert
  hm.invar_remove

lemma table_inv_put_session:
  assumes "table_inv t" and "map_of (sessions t) key \<noteq> None" and "session_ok key s"
  shows "table_inv (t\<lparr>sessions := AList.update key s (sessions t)\<rparr>)"
  using assms by (auto simp: table_inv_def entry_ok_def table_simps simp del: map_of_eq_Some_iff)

lemma table_inv_new_session:
  assumes "table_inv t" and "session_ok key s"
    and "map_of (sessions t) key \<noteq> None \<or> length (sessions t) < max_active_sessions t"
  shows "table_inv (t\<lparr>server_closed_sessions := AList.delete key (server_closed_sessions t),
    post_closed_sessions := AList.delete key (post_closed_sessions t),
    sessions := AList.update key s (sessions t)\<rparr>)"
  using assms by (auto simp: table_inv_def entry_ok_def table_simps simp del: map_of_eq_Some_iff)

lemma table_inv_put_server_closed:
  assumes "table_inv t" and "map_of (server_closed_sessions t) key = Some c'" and "closed_ok key c"
  shows "table_inv (t\<lparr>server_closed_sessions := AList.update key c (server_closed_sessions t)\<rparr>)"
  using assms table_inv_entries(2) [OF assms(1,2)] by (auto simp: table_inv_def entry_ok_def table_simps simp del: map_of_eq_Some_iff)

lemma table_inv_put_post_closed:
  assumes "table_inv t" and "map_of (post_closed_sessions t) key = Some p'" and "post_ok key p"
  shows "table_inv (t\<lparr>post_closed_sessions := AList.update key p (post_closed_sessions t)\<rparr>)"
  using assms table_inv_entries(3) [OF assms(1,2)] by (auto simp: table_inv_def entry_ok_def table_simps simp del: map_of_eq_Some_iff)

lemma table_inv_removes:
  assumes "table_inv t"
  shows "table_inv (t\<lparr>sessions := AList.delete key (sessions t)\<rparr>)"
    and "table_inv (t\<lparr>server_closed_sessions := AList.delete key (server_closed_sessions t)\<rparr>)"
    and "table_inv (t\<lparr>post_closed_sessions := AList.delete key (post_closed_sessions t)\<rparr>)"
  using assms by (auto simp: table_inv_def entry_ok_def table_simps simp del: map_of_eq_Some_iff)

lemma table_inv_close_session:
  assumes "table_inv t" and "map_of (sessions t) key = Some s" and "closed_ok key c"
  shows "table_inv (t\<lparr>sessions := AList.delete key (sessions t),
    server_closed_sessions := AList.update key c (server_closed_sessions t)\<rparr>)"
  using assms table_inv_entries(1) [OF assms(1,2)]
  by (auto simp: table_inv_def entry_ok_def table_simps simp del: map_of_eq_Some_iff)

lemma table_inv_finish_session:
  assumes "table_inv t" and "map_of (sessions t) key = Some s" and "post_ok key p"
  shows "table_inv (t\<lparr>sessions := AList.delete key (sessions t),
    post_closed_sessions := AList.update key p (post_closed_sessions t)\<rparr>)"
  using assms table_inv_entries(1) [OF assms(1,2)]
  by (auto simp: table_inv_def entry_ok_def table_simps simp del: map_of_eq_Some_iff)

lemma table_inv_finish_closed:
  assumes "table_inv t" and "map_of (server_closed_sessions t) key = Some c" and "post_ok key p"
  shows "table_inv (t\<lparr>server_closed_sessions := AList.delete key (server_closed_sessions t),
    post_closed_sessions := AList.update key p (post_closed_sessions t)\<rparr>)"
  using assms table_inv_entries(2) [OF assms(1,2)]
  by (auto simp: table_inv_def entry_ok_def table_simps simp del: map_of_eq_Some_iff)


section \<open>Every method keeps the invariant\<close>

definition only_key :: "tun_packet_flow \<Rightarrow> tun_tcp_session_table \<Rightarrow> tun_tcp_session_table \<Rightarrow> bool" where
  "only_key flow t t' \<longleftrightarrow> max_active_sessions t' = max_active_sessions t
     \<and> (\<forall>k. session_key_from_flow flow \<noteq> Ok k \<longrightarrow>
          map_of (sessions t') k = map_of (sessions t) k
          \<and> map_of (server_closed_sessions t') k = map_of (server_closed_sessions t) k
          \<and> map_of (post_closed_sessions t') k = map_of (post_closed_sessions t) k)"

definition tcp_flow :: "tun_packet_flow \<Rightarrow> bool" where
  "tcp_flow flow \<longleftrightarrow> flow_wf flow \<and> flow_protocol flow = Tcp"

text \<open>
  What a method gives back: sessions stored under their own key, and packets that are replies on the
  flow of that key.
\<close>

definition reply :: "tun_tcp_session_key \<Rightarrow> bytes \<Rightarrow> bool" where
  "reply key packet \<longleftrightarrow> (\<exists>flow a b flags w payload. session_key_from_flow flow = Ok key
     \<and> build_tun_tcp_response_packet flow a b flags w payload = Ok packet)"

definition cpf_ok :: "tun_tcp_session_key \<Rightarrow> tun_tcp_client_payload_frame \<Rightarrow> bool" where
  "cpf_ok key f \<longleftrightarrow> session_ok key (cpf_session f) \<and> reply key (cpf_ack_packet f)"

definition dup_ok :: "tun_tcp_session_key \<Rightarrow> tun_tcp_duplicate_client_payload_ack \<Rightarrow> bool" where
  "dup_ok key f \<longleftrightarrow> session_ok key (dup_session f) \<and> reply key (dup_ack_packet f)"

definition ooo_ok :: "tun_tcp_session_key \<Rightarrow> tun_tcp_out_of_order_client_payload_ack \<Rightarrow> bool" where
  "ooo_ok key f \<longleftrightarrow> session_ok key (ooo_session f) \<and> reply key (ooo_ack_packet f)"

definition spf_ok :: "tun_tcp_session_key \<Rightarrow> tun_tcp_server_payload_frame \<Rightarrow> bool" where
  "spf_ok key f \<longleftrightarrow> session_ok key (spf_session f) \<and> reply key (spf_packet f)"

definition scf_ok :: "tun_tcp_session_key \<Rightarrow> tun_tcp_server_close_frame \<Rightarrow> bool" where
  "scf_ok key f \<longleftrightarrow> session_ok key (scf_session f) \<and> reply key (scf_packet f)"

definition clf_ok :: "tun_tcp_session_key \<Rightarrow> tun_tcp_close_frame \<Rightarrow> bool" where
  "clf_ok key f \<longleftrightarrow> session_ok key (clf_session f) \<and> reply key (clf_packet f)"

definition sar_ok :: "tun_tcp_session_key \<Rightarrow> tun_tcp_syn_ack_response \<Rightarrow> bool" where
  "sar_ok key f \<longleftrightarrow> session_ok key (sar_session f) \<and> reply key (sar_packet f)"

definition fin_payload_ok :: "tun_tcp_session_key
    \<Rightarrow> tun_tcp_client_payload_frame \<times> tun_tcp_close_frame \<Rightarrow> bool" where
  "fin_payload_ok key x \<longleftrightarrow> cpf_ok key (fst x) \<and> clf_ok key (snd x)"

definition closed_result_ok :: "tun_tcp_session_key
    \<Rightarrow> tun_tcp_session_record \<times> tun_tcp_close_frame option \<Rightarrow> bool" where
  "closed_result_ok key x \<longleftrightarrow> session_ok key (fst x) \<and> pred_option (clf_ok key) (snd x)"

lemmas result_defs = cpf_ok_def dup_ok_def ooo_ok_def spf_ok_def scf_ok_def clf_ok_def sar_ok_def
  fin_payload_ok_def closed_result_ok_def

definition step_ok :: "tun_packet_flow \<Rightarrow> (tun_tcp_session_key \<Rightarrow> 'a \<Rightarrow> bool) \<Rightarrow> tun_tcp_session_table
    \<Rightarrow> (tun_packet_error, 'a option) outcome \<Rightarrow> tun_tcp_session_table \<Rightarrow> bool" where
  "step_ok flow R t r t' \<longleftrightarrow> table_inv t' \<and> only_key flow t t' \<and> r \<noteq> Panic
     \<and> (tcp_flow flow \<longrightarrow> (\<forall>e. r \<noteq> Err e))
     \<and> (\<forall>key x. session_key_from_flow flow = Ok key \<longrightarrow> r = Ok (Some x) \<longrightarrow> R key x)"

lemma session_key_from_flow_total:
  "session_key_from_flow flow \<noteq> Panic"
  "tcp_flow flow \<Longrightarrow> session_key_from_flow flow \<noteq> Err e"
  by (auto simp: session_key_from_flow_def tcp_flow_def flow_wf_def outcome_simps)

lemma session_key_from_flow_Tcp: "session_key_from_flow flow = Ok key \<Longrightarrow> flow_protocol flow = Tcp"
  by (auto simp: session_key_from_flow_def split: if_splits)

lemma session_builds:
  assumes "session_ok key s"
  shows "build_tun_tcp_ack_response_packet (ses_flow s) a b w \<noteq> Err e"
    and "build_tun_tcp_fin_ack_response_packet (ses_flow s) a b w \<noteq> Err e"
    and "length payload \<le> max_tcp_response_payload (flow_ip_version (ses_flow s)) \<Longrightarrow>
      build_tun_tcp_payload_response_packet (ses_flow s) a b w payload \<noteq> Err e"
proof -
  have "flow_wf (ses_flow s)" and "flow_protocol (ses_flow s) = Tcp"
    using assms by (auto simp: session_ok_def intro: session_key_from_flow_Tcp)
  note * = build_tun_tcp_defined [OF this]
  have "0 \<le> max_tcp_response_payload (flow_ip_version (ses_flow s))" by simp
  then show "build_tun_tcp_ack_response_packet (ses_flow s) a b w \<noteq> Err e"
    "build_tun_tcp_fin_ack_response_packet (ses_flow s) a b w \<noteq> Err e"
    "length payload \<le> max_tcp_response_payload (flow_ip_version (ses_flow s)) \<Longrightarrow>
      build_tun_tcp_payload_response_packet (ses_flow s) a b w payload \<noteq> Err e"
    using * [of a b "flags_from_bits 0x10" w "[]"] * [of a b "flags_from_bits 0x11" w "[]"]
      * [of a b "flags_from_bits 0x18" w payload]
    by (auto simp: build_tun_tcp_ack_response_packet_def build_tun_tcp_fin_ack_response_packet_def
        build_tun_tcp_payload_response_packet_def)
qed

lemma control_builds_no_panic:
  "build_tun_tcp_ack_response_packet flow a b w \<noteq> Panic"
  "build_tun_tcp_fin_ack_response_packet flow a b w \<noteq> Panic"
  "build_tun_tcp_payload_response_packet flow a b w payload \<noteq> Panic"
  "build_tun_tcp_syn_ack_response_packet segment a w \<noteq> Panic"
  by (simp_all add: build_tun_tcp_ack_response_packet_def build_tun_tcp_fin_ack_response_packet_def
      build_tun_tcp_payload_response_packet_def build_tun_tcp_syn_ack_response_packet_def
      build_tun_tcp_no_panic)

lemma syn_ack_builds:
  "tcp_flow (seg_flow segment) \<Longrightarrow> is_initial_tcp_syn_segment segment \<Longrightarrow>
    build_tun_tcp_syn_ack_response_packet segment a w \<noteq> Err e"
  using build_tun_tcp_defined [of "seg_flow segment" a "tcp_segment_next_sequence_number segment"
    "flags_from_bits 0x12" w "[]"]
  by (auto simp: tcp_flow_def build_tun_tcp_syn_ack_response_packet_def)

lemma clear_unacked_simps [simp]:
  "ses_flow (clear_server_unacked_payload_if_latest_acknowledged segment s) = ses_flow s"
  "ses_key (clear_server_unacked_payload_if_latest_acknowledged segment s) = ses_key s"
  "ses_phase (clear_server_unacked_payload_if_latest_acknowledged segment s) = ses_phase s"
  "ses_window_size (clear_server_unacked_payload_if_latest_acknowledged segment s) = ses_window_size s"
  "ses_client_initial_sequence_number (clear_server_unacked_payload_if_latest_acknowledged segment s) =
    ses_client_initial_sequence_number s"
  "ses_client_next_sequence_number (clear_server_unacked_payload_if_latest_acknowledged segment s) =
    ses_client_next_sequence_number s"
  "ses_server_initial_sequence_number (clear_server_unacked_payload_if_latest_acknowledged segment s) =
    ses_server_initial_sequence_number s"
  "ses_server_next_sequence_number (clear_server_unacked_payload_if_latest_acknowledged segment s) =
    ses_server_next_sequence_number s"
  by (simp_all add: clear_server_unacked_payload_if_latest_acknowledged_def)

lemma clear_unacked_cases:
  "ses_server_unacked_payload (clear_server_unacked_payload_if_latest_acknowledged segment s) =
    (if seg_acknowledgment_number segment = ses_server_next_sequence_number s then None
     else ses_server_unacked_payload s)"
  by (simp add: clear_server_unacked_payload_if_latest_acknowledged_def)

text \<open>A session stays well-formed when a method only advances the client side or its phase.\<close>

lemma session_ok_evolve:
  assumes "session_ok key s" and "ses_flow s' = ses_flow s" and "ses_key s' = ses_key s"
    and "ses_server_unacked_payload s' \<in> {None, ses_server_unacked_payload s}"
    and "ses_server_next_sequence_number s' = ses_server_next_sequence_number s"
    and "ses_server_initial_sequence_number s' = ses_server_initial_sequence_number s"
    and "ses_phase s' = SynReceived \<Longrightarrow> ses_phase s = SynReceived"
  shows "session_ok key s'"
  using assms by (auto simp: session_ok_def unacked_ok_def split: option.splits)

lemma step_ok_refl: "table_inv t \<Longrightarrow> step_ok flow R t (Ok None) t"
  by (simp add: step_ok_def only_key_def)

lemma step_ok_guard:
  assumes "table_inv t" and "(if b then ret None else m) t = (r, t')"
    and "\<not> b \<Longrightarrow> m t = (r, t') \<Longrightarrow> step_ok flow R t r t'"
  shows "step_ok flow R t r t'"
  using assms by (auto simp: ret_def step_ok_refl split: if_splits)

lemma step_ok_with_entry:
  assumes "table_inv t" and "with_entry field flow f t = (r, t')"
    and "\<And>key v. session_key_from_flow flow = Ok key \<Longrightarrow> map_of (field t) key = Some v
      \<Longrightarrow> f key v t = (r, t') \<Longrightarrow> step_ok flow R t r t'"
  shows "step_ok flow R t r t'"
  using assms session_key_from_flow_total [of flow]
  by (cases "session_key_from_flow flow")
    (auto simp: with_entry_def sbind_def lift_def step_ok_def only_key_def split: option.splits)

lemma step_ok_with_session:
  assumes "table_inv t" and "with_entry sessions flow f t = (r, t')"
    and "\<And>key s. table_inv t \<Longrightarrow> session_key_from_flow flow = Ok key \<Longrightarrow> map_of (sessions t) key = Some s
      \<Longrightarrow> session_ok key s \<Longrightarrow> f key s t = (r, t') \<Longrightarrow> step_ok flow R t r t'"
  shows "step_ok flow R t r t'"
  using assms table_inv_entries(1) [OF assms(1)] by (blast intro: step_ok_with_entry)

lemma step_ok_with_server_closed:
  assumes "table_inv t" and "with_entry server_closed_sessions flow f t = (r, t')"
    and "\<And>key c. table_inv t \<Longrightarrow> session_key_from_flow flow = Ok key \<Longrightarrow> map_of (server_closed_sessions t) key = Some c
      \<Longrightarrow> closed_ok key c \<Longrightarrow> f key c t = (r, t') \<Longrightarrow> step_ok flow R t r t'"
  shows "step_ok flow R t r t'"
  using assms table_inv_entries(2) [OF assms(1)] by (blast intro: step_ok_with_entry)

lemma step_ok_with_post_closed:
  assumes "table_inv t" and "with_entry post_closed_sessions flow f t = (r, t')"
    and "\<And>key p. table_inv t \<Longrightarrow> session_key_from_flow flow = Ok key \<Longrightarrow> map_of (post_closed_sessions t) key = Some p
      \<Longrightarrow> post_ok key p \<Longrightarrow> f key p t = (r, t') \<Longrightarrow> step_ok flow R t r t'"
  shows "step_ok flow R t r t'"
  using assms table_inv_entries(3) [OF assms(1)] by (blast intro: step_ok_with_entry)

lemmas table_writes = put_session_def put_server_closed_def put_post_closed_def remove_session_def
  remove_server_closed_def remove_post_closed_def modify_def

lemmas run_op = sbind_def lift_def ret_def table_writes Let_def

lemmas method_simps = run_op step_ok_def result_defs only_key_def table_simps control_builds_no_panic
  session_builds clear_unacked_cases

lemma reply_controls:
  assumes "session_ok key s"
  shows "build_tun_tcp_ack_response_packet (ses_flow s) a b w = Ok packet \<Longrightarrow> reply key packet"
    and "build_tun_tcp_fin_ack_response_packet (ses_flow s) a b w = Ok packet \<Longrightarrow> reply key packet"
    and "build_tun_tcp_payload_response_packet (ses_flow s) a b w payload = Ok packet \<Longrightarrow> reply key packet"
  using assms unfolding reply_def session_ok_def build_tun_tcp_ack_response_packet_def
    build_tun_tcp_fin_ack_response_packet_def build_tun_tcp_payload_response_packet_def
  by blast+

lemma reply_syn_ack:
  "session_key_from_flow (seg_flow segment) = Ok key \<Longrightarrow>
    build_tun_tcp_syn_ack_response_packet segment a w = Ok packet \<Longrightarrow> reply key packet"
  unfolding build_tun_tcp_syn_ack_response_packet_def reply_def by (auto split: if_splits) blast

lemma reply_stored:
  "closed_ok key c \<Longrightarrow> reply key (scf_packet (closed_response c))"
  "post_ok key p \<Longrightarrow> post_client_fin_ack_packet p = Some packet \<Longrightarrow> reply key packet"
  by (auto simp: closed_ok_def post_ok_def Let_def intro: reply_controls)

lemma unacked_fits:
  "session_ok key s \<Longrightarrow> ses_server_unacked_payload s = Some u \<Longrightarrow>
    length (una_payload u) \<le> max_tcp_response_payload (flow_ip_version (ses_flow s))"
  by (simp add: session_ok_def unacked_ok_def)

lemma closed_session_ok: "closed_ok key c \<Longrightarrow> session_ok key (scf_session (closed_response c))"
  by (simp add: closed_ok_def Let_def)

lemma post_session_ok: "post_ok key p \<Longrightarrow> session_ok key (post_session p)"
  by (simp add: post_ok_def Let_def)

lemma closed_ok_touch: "closed_ok key c \<Longrightarrow> closed_ok key (c\<lparr>closed_last_activity_at := now\<rparr>)"
  by (simp add: closed_ok_def)

lemma post_ok_touch: "post_ok key p \<Longrightarrow> post_ok key (p\<lparr>post_last_activity_at := now\<rparr>)"
  by (simp add: post_ok_def Let_def split: option.splits)

lemma post_ok_new:
  "session_ok key s \<Longrightarrow> post_ok key \<lparr>post_session = s, post_server_next_sequence_number = a,
    post_client_next_sequence_number = b, post_client_fin_sequence_number = None,
    post_client_fin_ack_packet = None, post_last_activity_at = now\<rparr>"
  "session_ok key s \<Longrightarrow> build_tun_tcp_ack_response_packet (ses_flow s) a b (ses_window_size s) = Ok packet \<Longrightarrow>
    post_ok key \<lparr>post_session = s, post_server_next_sequence_number = a,
      post_client_next_sequence_number = b, post_client_fin_sequence_number = Some c,
      post_client_fin_ack_packet = Some packet, post_last_activity_at = now\<rparr>"
  by (simp_all add: post_ok_def)

lemma post_ok_fin:
  "post_ok key p \<Longrightarrow> build_tun_tcp_ack_response_packet (ses_flow (post_session p))
      (post_server_next_sequence_number p) b (ses_window_size (post_session p)) = Ok packet \<Longrightarrow>
    post_ok key (p\<lparr>post_client_next_sequence_number := b, post_client_fin_sequence_number := Some c,
      post_client_fin_ack_packet := Some packet\<rparr>)"
  by (simp add: post_ok_def Let_def)

lemma table_inv_put_session_twice:
  assumes "table_inv t" and "map_of (sessions t) key \<noteq> None" and "session_ok key s"
  shows "table_inv (t\<lparr>sessions := AList.update key s (AList.update key s0 (sessions t))\<rparr>)"
  using assms by (auto simp: table_inv_def entry_ok_def table_simps simp del: map_of_eq_Some_iff)

lemma acknowledge_retransmitted_syn_ok:
  assumes inv: "table_inv t" and run: "acknowledge_retransmitted_syn now segment t = (r, t')"
  shows "step_ok (seg_flow segment) sar_ok t r t'"
  by (rule step_ok_guard [OF inv run [unfolded acknowledge_retransmitted_syn_def]],
      rule step_ok_with_session [OF inv], assumption)
    (auto simp: method_simps syn_ack_builds intro!: table_inv_put_session table_inv_put_session_twice
      table_inv_removes post_ok_new elim!: session_ok_evolve
      intro: table_inv_finish_session reply_controls reply_syn_ack
      split: if_splits outcome.splits option.splits)

lemma apply_ack_ok:
  assumes inv: "table_inv t" and run: "apply_ack now segment t = (r, t')"
  shows "step_ok (seg_flow segment) session_ok t r t'"
  by (rule step_ok_with_session [OF inv run [unfolded apply_ack_def]])
    (auto simp: method_simps intro!: table_inv_put_session table_inv_put_session_twice
      table_inv_removes post_ok_new elim!: session_ok_evolve
      intro: table_inv_finish_session reply_controls reply_syn_ack
      split: if_splits outcome.splits option.splits)

lemma accept_client_payload_ok:
  assumes inv: "table_inv t" and run: "accept_client_payload now segment t = (r, t')"
  shows "step_ok (seg_flow segment) cpf_ok t r t'"
  by (rule step_ok_with_session [OF inv run [unfolded accept_client_payload_def]])
    (auto simp: method_simps intro!: table_inv_put_session table_inv_put_session_twice
      table_inv_removes post_ok_new elim!: session_ok_evolve
      intro: table_inv_finish_session reply_controls reply_syn_ack
      split: if_splits outcome.splits option.splits)

lemma accept_overlapping_client_payload_ok:
  assumes inv: "table_inv t" and run: "accept_overlapping_client_payload now segment t = (r, t')"
  shows "step_ok (seg_flow segment) cpf_ok t r t'"
  by (rule step_ok_with_session [OF inv run [unfolded accept_overlapping_client_payload_def]])
    (auto simp: method_simps intro!: table_inv_put_session table_inv_put_session_twice
      table_inv_removes post_ok_new elim!: session_ok_evolve
      intro: table_inv_finish_session reply_controls reply_syn_ack
      split: if_splits outcome.splits option.splits)

lemma acknowledge_duplicate_client_payload_ok:
  assumes inv: "table_inv t" and run: "acknowledge_duplicate_client_payload now segment t = (r, t')"
  shows "step_ok (seg_flow segment) dup_ok t r t'"
  by (rule step_ok_with_session [OF inv run [unfolded acknowledge_duplicate_client_payload_def]])
    (auto simp: method_simps intro!: table_inv_put_session table_inv_put_session_twice
      table_inv_removes post_ok_new elim!: session_ok_evolve
      intro: table_inv_finish_session reply_controls reply_syn_ack
      split: if_splits outcome.splits option.splits)

lemma acknowledge_out_of_order_client_payload_ok:
  assumes inv: "table_inv t" and run: "acknowledge_out_of_order_client_payload now segment t = (r, t')"
  shows "step_ok (seg_flow segment) ooo_ok t r t'"
  by (rule step_ok_with_session [OF inv run [unfolded acknowledge_out_of_order_client_payload_def]])
    (auto simp: method_simps intro!: table_inv_put_session table_inv_put_session_twice
      table_inv_removes post_ok_new elim!: session_ok_evolve
      intro: table_inv_finish_session reply_controls reply_syn_ack
      split: if_splits outcome.splits option.splits)

lemma retransmit_server_payload_ok:
  assumes inv: "table_inv t" and run: "retransmit_server_payload now segment t = (r, t')"
  shows "step_ok (seg_flow segment) spf_ok t r t'"
  by (rule step_ok_guard [OF inv run [unfolded retransmit_server_payload_def]],
      rule step_ok_with_session [OF inv], assumption)
    (auto simp: method_simps unacked_fits intro!: table_inv_put_session table_inv_put_session_twice
      table_inv_removes post_ok_new elim!: session_ok_evolve
      intro: table_inv_finish_session reply_controls reply_syn_ack
      split: if_splits outcome.splits option.splits)

lemma retransmit_server_payload_for_duplicate_client_fin_ok:
  assumes inv: "table_inv t" and run: "retransmit_server_payload_for_duplicate_client_fin now segment t = (r, t')"
  shows "step_ok (seg_flow segment) spf_ok t r t'"
  by (rule step_ok_guard [OF inv run [unfolded retransmit_server_payload_for_duplicate_client_fin_def]],
      rule step_ok_with_session [OF inv], assumption)
    (auto simp: method_simps unacked_fits intro!: table_inv_put_session table_inv_put_session_twice
      table_inv_removes post_ok_new elim!: session_ok_evolve
      intro: table_inv_finish_session reply_controls reply_syn_ack
      split: if_splits outcome.splits option.splits)

lemma accept_client_fin_with_payload_ok:
  assumes inv: "table_inv t" and run: "accept_client_fin_with_payload now segment t = (r, t')"
  shows "step_ok (seg_flow segment) fin_payload_ok t r t'"
  by (rule step_ok_guard [OF inv run [unfolded accept_client_fin_with_payload_def]],
      rule step_ok_with_session [OF inv], assumption)
    (auto simp: method_simps intro!: table_inv_put_session table_inv_put_session_twice
      table_inv_removes post_ok_new elim!: session_ok_evolve
      intro: table_inv_finish_session reply_controls reply_syn_ack
      split: if_splits outcome.splits option.splits)

lemma acknowledge_client_fin_ok:
  assumes inv: "table_inv t" and run: "acknowledge_client_fin now segment t = (r, t')"
  shows "step_ok (seg_flow segment) clf_ok t r t'"
  by (rule step_ok_guard [OF inv run [unfolded acknowledge_client_fin_def]],
      rule step_ok_with_session [OF inv], assumption)
    (auto simp: method_simps intro!: table_inv_put_session table_inv_put_session_twice
      table_inv_removes post_ok_new elim!: session_ok_evolve
      intro: table_inv_finish_session reply_controls reply_syn_ack
      split: if_splits outcome.splits option.splits)

lemma acknowledge_duplicate_client_fin_ok:
  assumes inv: "table_inv t" and run: "acknowledge_duplicate_client_fin now segment t = (r, t')"
  shows "step_ok (seg_flow segment) clf_ok t r t'"
  by (rule step_ok_guard [OF inv run [unfolded acknowledge_duplicate_client_fin_def]],
      rule step_ok_with_session [OF inv], assumption)
    (auto simp: method_simps intro!: table_inv_put_session table_inv_put_session_twice
      table_inv_removes post_ok_new elim!: session_ok_evolve
      intro: table_inv_finish_session reply_controls reply_syn_ack
      split: if_splits outcome.splits option.splits)

lemma server_payload_poll_session_ok:
  assumes inv: "table_inv t" and run: "server_payload_poll_session now segment t = (r, t')"
  shows "step_ok (seg_flow segment) session_ok t r t'"
  by (rule step_ok_guard [OF inv run [unfolded server_payload_poll_session_def]],
      rule step_ok_with_session [OF inv], assumption)
    (auto simp: method_simps intro!: table_inv_put_session table_inv_put_session_twice
      table_inv_removes post_ok_new elim!: session_ok_evolve
      intro: table_inv_finish_session reply_controls reply_syn_ack
      split: if_splits outcome.splits option.splits)

lemma acknowledge_client_ack_ok:
  assumes inv: "table_inv t" and run: "acknowledge_client_ack now segment t = (r, t')"
  shows "step_ok (seg_flow segment) session_ok t r t'"
  by (rule step_ok_guard [OF inv run [unfolded acknowledge_client_ack_def]],
      rule step_ok_with_session [OF inv], assumption)
    (auto simp: method_simps intro!: table_inv_put_session table_inv_put_session_twice
      table_inv_removes post_ok_new elim!: session_ok_evolve
      intro: table_inv_finish_session reply_controls reply_syn_ack
      split: if_splits outcome.splits option.splits)

lemma remove_on_close_ok:
  assumes inv: "table_inv t" and run: "remove_on_close now segment t = (r, t')"
  shows "step_ok (seg_flow segment) closed_result_ok t r t'"
  by (rule step_ok_guard [OF inv run [unfolded remove_on_close_def]],
      rule step_ok_with_session [OF inv], assumption)
    (auto simp: method_simps intro!: table_inv_put_session table_inv_put_session_twice
      table_inv_removes post_ok_new elim!: session_ok_evolve
      intro: table_inv_finish_session reply_controls reply_syn_ack
      split: if_splits outcome.splits option.splits)

lemma retransmit_server_close_ok:
  assumes inv: "table_inv t" and run: "retransmit_server_close now segment t = (r, t')"
  shows "step_ok (seg_flow segment) scf_ok t r t'"
  by (rule step_ok_guard [OF inv run [unfolded retransmit_server_close_def]],
      rule step_ok_with_server_closed [OF inv], assumption)
    (auto simp: method_simps session_builds [OF closed_session_ok] intro!: table_inv_put_server_closed table_inv_finish_closed table_inv_removes
      closed_ok_touch post_ok_new closed_session_ok
      intro: reply_controls [OF closed_session_ok] reply_stored
      split: if_splits outcome.splits option.splits)

lemma retransmit_server_close_for_duplicate_client_fin_ok:
  assumes inv: "table_inv t" and run: "retransmit_server_close_for_duplicate_client_fin now segment t = (r, t')"
  shows "step_ok (seg_flow segment) scf_ok t r t'"
  by (rule step_ok_guard [OF inv run [unfolded retransmit_server_close_for_duplicate_client_fin_def]],
      rule step_ok_with_server_closed [OF inv], assumption)
    (auto simp: method_simps session_builds [OF closed_session_ok] intro!: table_inv_put_server_closed table_inv_finish_closed table_inv_removes
      closed_ok_touch post_ok_new closed_session_ok
      intro: reply_controls [OF closed_session_ok] reply_stored
      split: if_splits outcome.splits option.splits)

lemma acknowledge_server_close_ok:
  assumes inv: "table_inv t" and run: "acknowledge_server_close now segment t = (r, t')"
  shows "step_ok (seg_flow segment) session_ok t r t'"
  by (rule step_ok_guard [OF inv run [unfolded acknowledge_server_close_def]],
      rule step_ok_with_server_closed [OF inv], assumption)
    (auto simp: method_simps session_builds [OF closed_session_ok] intro!: table_inv_put_server_closed table_inv_finish_closed table_inv_removes
      closed_ok_touch post_ok_new closed_session_ok
      intro: reply_controls [OF closed_session_ok] reply_stored
      split: if_splits outcome.splits option.splits)

lemma acknowledge_server_close_with_client_fin_ok:
  assumes inv: "table_inv t" and run: "acknowledge_server_close_with_client_fin now segment t = (r, t')"
  shows "step_ok (seg_flow segment) clf_ok t r t'"
  by (rule step_ok_guard [OF inv run [unfolded acknowledge_server_close_with_client_fin_def]],
      rule step_ok_with_server_closed [OF inv], assumption)
    (auto simp: method_simps session_builds [OF closed_session_ok] intro!: table_inv_put_server_closed table_inv_finish_closed table_inv_removes
      closed_ok_touch post_ok_new closed_session_ok
      intro: reply_controls [OF closed_session_ok] reply_stored
      split: if_splits outcome.splits option.splits)

lemma remove_server_close_on_rst_ok:
  assumes inv: "table_inv t" and run: "remove_server_close_on_rst segment t = (r, t')"
  shows "step_ok (seg_flow segment) session_ok t r t'"
  by (rule step_ok_guard [OF inv run [unfolded remove_server_close_on_rst_def]],
      rule step_ok_with_server_closed [OF inv], assumption)
    (auto simp: method_simps session_builds [OF closed_session_ok] intro!: table_inv_put_server_closed table_inv_finish_closed table_inv_removes
      closed_ok_touch post_ok_new closed_session_ok
      intro: reply_controls [OF closed_session_ok] reply_stored
      split: if_splits outcome.splits option.splits)

lemma acknowledge_post_close_ack_ok:
  assumes inv: "table_inv t" and run: "acknowledge_post_close_ack now segment t = (r, t')"
  shows "step_ok (seg_flow segment) session_ok t r t'"
  by (rule step_ok_guard [OF inv run [unfolded acknowledge_post_close_ack_def]],
      rule step_ok_with_post_closed [OF inv], assumption)
    (auto simp: method_simps session_builds [OF post_session_ok] intro!: table_inv_put_post_closed table_inv_removes
      post_ok_touch post_ok_fin post_session_ok
      intro: reply_controls [OF post_session_ok] reply_stored
      split: if_splits outcome.splits option.splits)

lemma acknowledge_post_close_client_fin_ok:
  assumes inv: "table_inv t" and run: "acknowledge_post_close_client_fin now segment t = (r, t')"
  shows "step_ok (seg_flow segment) clf_ok t r t'"
  by (rule step_ok_guard [OF inv run [unfolded acknowledge_post_close_client_fin_def]],
      rule step_ok_with_post_closed [OF inv], assumption)
    (auto simp: method_simps session_builds [OF post_session_ok] intro!: table_inv_put_post_closed table_inv_removes
      post_ok_touch post_ok_fin post_session_ok
      intro: reply_controls [OF post_session_ok] reply_stored
      split: if_splits outcome.splits option.splits)

lemma remove_post_close_on_rst_ok:
  assumes inv: "table_inv t" and run: "remove_post_close_on_rst segment t = (r, t')"
  shows "step_ok (seg_flow segment) session_ok t r t'"
  by (rule step_ok_guard [OF inv run [unfolded remove_post_close_on_rst_def]],
      rule step_ok_with_post_closed [OF inv], assumption)
    (auto simp: method_simps session_builds [OF post_session_ok] intro!: table_inv_put_post_closed table_inv_removes
      post_ok_touch post_ok_fin post_session_ok
      intro: reply_controls [OF post_session_ok] reply_stored
      split: if_splits outcome.splits option.splits)

lemma build_Ok_tcp_flow:
  "build_tun_tcp_response_packet flow a b flags w payload = Ok packet \<Longrightarrow> tcp_flow flow"
  by (cases rule: build_tun_tcp_cases, assumption) (auto simp: tcp_flow_def flow_wf_def)

lemma build_Ok_fits:
  "build_tun_tcp_response_packet flow a b flags w payload = Ok packet \<Longrightarrow>
    length payload \<le> max_tcp_response_payload (flow_ip_version flow)"
  by (cases rule: build_tun_tcp_cases, assumption) (auto simp: max_tcp_response_payload_def)

lemma start_from_syn_ok:
  assumes inv: "table_inv t" and run: "start_from_syn now segment isn w t = (r, t')"
  shows "table_inv t' \<and> only_key (seg_flow segment) t t' \<and> r \<noteq> Panic
    \<and> (\<forall>e. r = Err e \<longrightarrow> t' = t
        \<and> (tcp_flow (seg_flow segment) \<and> is_initial_tcp_syn_segment segment \<longrightarrow>
            e = TcpSessionLimitExceeded (length (sessions t)) (max_active_sessions t)
            \<and> length (sessions t) = max_active_sessions t))
    \<and> (\<forall>key x. session_key_from_flow (seg_flow segment) = Ok key \<longrightarrow> r = Ok x \<longrightarrow> sar_ok key x)"
proof (cases "is_initial_tcp_syn_segment segment")
  case False
  with inv run show ?thesis by (auto simp: start_from_syn_def lift_def only_key_def)
next
  case syn: True
  show ?thesis
  proof (cases "session_key_from_flow (seg_flow segment)")
    case (Ok key)
    have "length (sessions t) \<le> max_active_sessions t" using inv by (simp add: table_inv_def)
    moreover have "session_ok key \<lparr>ses_key = key, ses_flow = seg_flow segment,
        ses_client_initial_sequence_number = a, ses_client_next_sequence_number = b,
        ses_server_initial_sequence_number = isn, ses_server_next_sequence_number = isn + 1,
        ses_server_unacked_payload = None, ses_window_size = w, ses_phase = SynReceived,
        ses_last_activity_at = now\<rparr>" if "tcp_flow (seg_flow segment)" for a b
      using that Ok by (simp add: session_ok_def tcp_flow_def unacked_ok_def)
    moreover have "tcp_flow (seg_flow segment)"
      if "build_tun_tcp_syn_ack_response_packet segment isn w = Ok packet" for packet
      using that syn by (auto simp: build_tun_tcp_syn_ack_response_packet_def intro: build_Ok_tcp_flow)
    ultimately show ?thesis
      using inv run syn Ok table_inv_new_session [OF inv, of key]
      by (auto simp: start_from_syn_def run_op only_key_def table_simps control_builds_no_panic
          syn_ack_builds not_le sar_ok_def intro: reply_syn_ack
          split: if_splits outcome.splits simp del: map_of_eq_Some_iff)
  qed (use inv run syn session_key_from_flow_total [of "seg_flow segment"] in
      \<open>auto simp: start_from_syn_def run_op only_key_def\<close>)
qed

lemma key_determines_flow:
  assumes "session_key_from_flow f = Ok key" and "session_key_from_flow g = Ok key"
    and "flow_wf f" and "flow_wf g"
  shows "f = g"
  using assms
  by (cases f; cases g; cases "flow_source_ip f")
    (auto simp: session_key_from_flow_def flow_wf_def obind_Ok_iff
      split: if_splits tun_ip_version.splits)

lemma send_server_payload_ok:
  assumes inv: "table_inv t" and run: "send_server_payload now flow payload t = (r, t')"
  shows "table_inv t' \<and> only_key flow t t' \<and> r \<noteq> Panic
    \<and> (\<forall>e. r = Err e \<longrightarrow> t' = t
        \<and> (tcp_flow flow \<longrightarrow> length payload > max_tcp_response_payload (flow_ip_version flow)))
    \<and> (\<forall>key x. session_key_from_flow flow = Ok key \<longrightarrow> r = Ok (Some x) \<longrightarrow> spf_ok key x)"
proof (cases "\<exists>key s. session_key_from_flow flow = Ok key \<and> map_of (sessions t) key = Some s")
  case False
  with inv run session_key_from_flow_total [of flow] show ?thesis
    by (cases "session_key_from_flow flow")
      (auto simp: send_server_payload_def with_entry_def run_op only_key_def split: option.splits)
next
  case True
  then obtain key s where key: "session_key_from_flow flow = Ok key" and entry: "map_of (sessions t) key = Some s"
    by blast
  then have ok: "session_ok key s" using table_inv_entries(1) [OF inv] by blast
  let ?build = "build_tun_tcp_payload_response_packet (ses_flow s) (ses_server_next_sequence_number s)
    (ses_client_next_sequence_number s) (ses_window_size s) payload"
  have small: "length payload \<le> max_tcp_response_payload (flow_ip_version (ses_flow s))" if "?build = Ok packet" for packet
    using that by (auto simp: build_tun_tcp_payload_response_packet_def intro: build_Ok_fits)
  have big: "length payload > max_tcp_response_payload (flow_ip_version flow)" if "?build = Err e" and "tcp_flow flow" for e
    using that session_builds(3) [OF ok, of payload] ok key_determines_flow [OF key, of "ses_flow s"]
    by (fastforce simp: tcp_flow_def session_ok_def not_less)
  have sent: "session_ok key (s\<lparr>ses_server_next_sequence_number := ses_server_next_sequence_number s + of_nat (length payload),
      ses_server_unacked_payload := Some \<lparr>una_sequence_number = ses_server_next_sequence_number s,
        una_acknowledgment_number = ses_client_next_sequence_number s, una_payload = payload\<rparr>,
      ses_last_activity_at := now\<rparr>)"
    if "tun_tcp_phase_accepts_server_response (ses_phase s)" and "payload \<noteq> []" and "?build = Ok packet" for packet
    using that ok small by (auto simp: session_ok_def unacked_ok_def tun_tcp_phase_accepts_server_response_def)
  show ?thesis
    using inv run key entry ok sent big
    by (auto simp: send_server_payload_def with_entry_def run_op only_key_def table_simps
        control_builds_no_panic spf_ok_def intro!: table_inv_put_session intro: reply_controls
        split: if_splits outcome.splits)
qed

lemma close_server_side_ok:
  assumes inv: "table_inv t" and run: "close_server_side now key t = (r, t')"
  shows "table_inv t' \<and> (\<forall>flow. session_key_from_flow flow = Ok key \<longrightarrow> only_key flow t t')
    \<and> (\<exists>x. r = Ok x \<and> pred_option (scf_ok key) x)"
proof (cases "map_of (sessions t) key")
  case (Some s)
  then have ok: "session_ok key s" using table_inv_entries(1) [OF inv] by blast
  have "closed_ok key \<lparr>closed_response = \<lparr>scf_session = s,
      scf_sequence_number = ses_server_next_sequence_number s,
      scf_acknowledgment_number = ses_client_next_sequence_number s, scf_packet = packet\<rparr>,
      closed_last_activity_at = now\<rparr>"
    if "tun_tcp_phase_accepts_server_response (ses_phase s)"
      and "build_tun_tcp_fin_ack_response_packet (ses_flow s) (ses_server_next_sequence_number s)
        (ses_client_next_sequence_number s) (ses_window_size s) = Ok packet" for packet
    using that ok by (simp add: closed_ok_def)
  with inv run Some ok show ?thesis
    by (auto simp: close_server_side_def run_op only_key_def table_simps control_builds_no_panic
        session_builds scf_ok_def intro!: table_inv_removes table_inv_close_session intro: reply_controls
        split: if_splits outcome.splits)
qed (use inv run in \<open>auto simp: close_server_side_def only_key_def\<close>)

lemma remove_all_spec:
  assumes "distinct keys"
  shows "remove_all keys m = (List.map_filter (map_of m) keys, filter (\<lambda>p. fst p \<notin> set keys) m)"
  using assms
proof (induction keys arbitrary: m)
  case (Cons key keys)
  have "List.map_filter (map_of (AList.delete key m)) keys = List.map_filter (map_of m) keys"
    using Cons.prems by (auto simp: List.map_filter_def map_of_remove intro!: map_cong filter_cong)
  with Cons show ?case
    by (auto simp: AList.delete_eq List.map_filter_simps split_beta split: option.split intro!: filter_cong)
qed (simp add: List.map_filter_simps)

lemma map_filter_lookup:
  "(\<And>p. p \<in> set ps \<Longrightarrow> f (fst p) = Some (snd p)) \<Longrightarrow> List.map_filter f (map fst ps) = map snd ps"
  by (induction ps) (simp_all add: List.map_filter_simps)

lemma remove_expired:
  assumes "distinct (map fst m)"
  shows "remove_all (expired_keys now idle_timeout last_activity m) m =
    (map snd (filter (\<lambda>p. idle_timeout \<le> now - last_activity (snd p)) m),
     filter (\<lambda>p. now - last_activity (snd p) < idle_timeout) m)"
proof -
  let ?expired = "filter (\<lambda>p. idle_timeout \<le> now - last_activity (snd p)) m"
  have keys: "expired_keys now idle_timeout last_activity m = map fst ?expired"
    by (simp add: expired_keys_def saturating_duration_since_def case_prod_unfold)
  have "distinct (map fst ?expired)" using assms by (rule distinct_map_filter)
  moreover have "List.map_filter (map_of m) (map fst ?expired) = map snd ?expired"
    using assms by (intro map_filter_lookup) auto
  moreover have "filter (\<lambda>p. fst p \<notin> set (map fst ?expired)) m =
      filter (\<lambda>p. now - last_activity (snd p) < idle_timeout) m"
    using assms by (auto simp: not_le image_iff dest: eq_key_imp_eq_value intro!: filter_cong)
  ultimately show ?thesis by (simp add: remove_all_spec keys)
qed

lemma prune_idle_eq:
  assumes "table_inv t"
  shows "prune_idle now idle_timeout t =
    (map snd (filter (\<lambda>p. idle_timeout \<le> now - ses_last_activity_at (snd p)) (sessions t)),
     t\<lparr>sessions := filter (\<lambda>p. now - ses_last_activity_at (snd p) < idle_timeout) (sessions t),
       server_closed_sessions :=
         filter (\<lambda>p. now - closed_last_activity_at (snd p) < idle_timeout) (server_closed_sessions t),
       post_closed_sessions :=
         filter (\<lambda>p. now - post_last_activity_at (snd p) < idle_timeout) (post_closed_sessions t)\<rparr>)"
  using assms by (simp add: prune_idle_def table_inv_def remove_expired)

lemma map_of_fresh:
  "distinct (map fst m) \<Longrightarrow> map_of (filter (\<lambda>p. now - last_activity (snd p) < idle_timeout) m) k =
    (case map_of m k of Some v \<Rightarrow> if now - last_activity v < idle_timeout then Some v else None | None \<Rightarrow> None)"
  by (induction m) (auto simp: map_of_eq_None_iff split: option.splits)

lemma entry_ok_weaken:
  "entry_ok key a c p \<Longrightarrow> a' \<in> {None, a} \<Longrightarrow> c' \<in> {None, c} \<Longrightarrow> p' \<in> {None, p} \<Longrightarrow> entry_ok key a' c' p'"
  by (auto simp: entry_ok_def)

lemma prune_idle_ok:
  assumes inv: "table_inv t" and run: "prune_idle now idle_timeout t = (pruned, t')"
  shows "table_inv t'"
proof -
  have t': "t' = snd (prune_idle now idle_timeout t)" using run by simp
  have d: "distinct (map fst (sessions t))" "distinct (map fst (server_closed_sessions t))"
      "distinct (map fst (post_closed_sessions t))"
    using inv by (simp_all add: table_inv_def)
  have entries: "entry_ok key (map_of (sessions t') key) (map_of (server_closed_sessions t') key)
      (map_of (post_closed_sessions t') key)" for key
  proof (rule entry_ok_weaken)
    show "entry_ok key (map_of (sessions t) key) (map_of (server_closed_sessions t) key)
        (map_of (post_closed_sessions t) key)"
      using inv by (simp add: table_inv_def)
  qed (simp_all add: t' prune_idle_eq [OF inv] map_of_fresh d split: option.split)
  have "length (sessions t') \<le> length (sessions t)"
    by (simp add: t' prune_idle_eq [OF inv])
  then have "length (sessions t') \<le> max_active_sessions t" and "1 \<le> max_active_sessions t"
    using inv by (simp_all add: table_inv_def)
  moreover have "distinct (map fst (sessions t'))" "distinct (map fst (server_closed_sessions t'))"
      "distinct (map fst (post_closed_sessions t'))" "max_active_sessions t' = max_active_sessions t"
    using d by (simp_all add: t' prune_idle_eq [OF inv] distinct_map_filter)
  ultimately show ?thesis
    using entries by (simp add: table_inv_def)
qed

section \<open>Runs of the table\<close>

datatype table_call =
    StartFromSyn instant tun_tcp_segment u32 u16
  | AcknowledgeRetransmittedSyn instant tun_tcp_segment
  | ApplyAck instant tun_tcp_segment
  | AcceptClientPayload instant tun_tcp_segment
  | AcceptOverlappingClientPayload instant tun_tcp_segment
  | AcknowledgeDuplicateClientPayload instant tun_tcp_segment
  | AcknowledgeOutOfOrderClientPayload instant tun_tcp_segment
  | SendServerPayload instant tun_packet_flow bytes
  | RetransmitServerPayload instant tun_tcp_segment
  | RetransmitServerPayloadForDuplicateClientFin instant tun_tcp_segment
  | CloseServerSide instant tun_tcp_session_key
  | RetransmitServerClose instant tun_tcp_segment
  | RetransmitServerCloseForDuplicateClientFin instant tun_tcp_segment
  | AcknowledgeServerClose instant tun_tcp_segment
  | AcknowledgeServerCloseWithClientFin instant tun_tcp_segment
  | AcknowledgePostCloseAck instant tun_tcp_segment
  | AcknowledgePostCloseClientFin instant tun_tcp_segment
  | RemoveServerCloseOnRst tun_tcp_segment
  | RemovePostCloseOnRst tun_tcp_segment
  | AcceptClientFinWithPayload instant tun_tcp_segment
  | AcknowledgeClientFin instant tun_tcp_segment
  | AcknowledgeDuplicateClientFin instant tun_tcp_segment
  | ServerPayloadPollSession instant tun_tcp_segment
  | AcknowledgeClientAck instant tun_tcp_segment
  | PruneIdle instant duration
  | RemoveOnClose instant tun_tcp_segment

fun table_after :: "tun_tcp_session_table \<Rightarrow> table_call \<Rightarrow> tun_tcp_session_table" where
  "table_after t (StartFromSyn now segment isn w) = snd (start_from_syn now segment isn w t)"
| "table_after t (AcknowledgeRetransmittedSyn now segment) = snd (acknowledge_retransmitted_syn now segment t)"
| "table_after t (ApplyAck now segment) = snd (apply_ack now segment t)"
| "table_after t (AcceptClientPayload now segment) = snd (accept_client_payload now segment t)"
| "table_after t (AcceptOverlappingClientPayload now segment) =
     snd (accept_overlapping_client_payload now segment t)"
| "table_after t (AcknowledgeDuplicateClientPayload now segment) =
     snd (acknowledge_duplicate_client_payload now segment t)"
| "table_after t (AcknowledgeOutOfOrderClientPayload now segment) =
     snd (acknowledge_out_of_order_client_payload now segment t)"
| "table_after t (SendServerPayload now flow payload) = snd (send_server_payload now flow payload t)"
| "table_after t (RetransmitServerPayload now segment) = snd (retransmit_server_payload now segment t)"
| "table_after t (RetransmitServerPayloadForDuplicateClientFin now segment) =
     snd (retransmit_server_payload_for_duplicate_client_fin now segment t)"
| "table_after t (CloseServerSide now key) = snd (close_server_side now key t)"
| "table_after t (RetransmitServerClose now segment) = snd (retransmit_server_close now segment t)"
| "table_after t (RetransmitServerCloseForDuplicateClientFin now segment) =
     snd (retransmit_server_close_for_duplicate_client_fin now segment t)"
| "table_after t (AcknowledgeServerClose now segment) = snd (acknowledge_server_close now segment t)"
| "table_after t (AcknowledgeServerCloseWithClientFin now segment) =
     snd (acknowledge_server_close_with_client_fin now segment t)"
| "table_after t (AcknowledgePostCloseAck now segment) = snd (acknowledge_post_close_ack now segment t)"
| "table_after t (AcknowledgePostCloseClientFin now segment) =
     snd (acknowledge_post_close_client_fin now segment t)"
| "table_after t (RemoveServerCloseOnRst segment) = snd (remove_server_close_on_rst segment t)"
| "table_after t (RemovePostCloseOnRst segment) = snd (remove_post_close_on_rst segment t)"
| "table_after t (AcceptClientFinWithPayload now segment) = snd (accept_client_fin_with_payload now segment t)"
| "table_after t (AcknowledgeClientFin now segment) = snd (acknowledge_client_fin now segment t)"
| "table_after t (AcknowledgeDuplicateClientFin now segment) =
     snd (acknowledge_duplicate_client_fin now segment t)"
| "table_after t (ServerPayloadPollSession now segment) = snd (server_payload_poll_session now segment t)"
| "table_after t (AcknowledgeClientAck now segment) = snd (acknowledge_client_ack now segment t)"
| "table_after t (PruneIdle now idle_timeout) = snd (prune_idle now idle_timeout t)"
| "table_after t (RemoveOnClose now segment) = snd (remove_on_close now segment t)"

lemmas segment_methods_ok = acknowledge_retransmitted_syn_ok apply_ack_ok accept_client_payload_ok
  accept_overlapping_client_payload_ok acknowledge_duplicate_client_payload_ok
  acknowledge_out_of_order_client_payload_ok retransmit_server_payload_ok
  retransmit_server_payload_for_duplicate_client_fin_ok accept_client_fin_with_payload_ok
  acknowledge_client_fin_ok acknowledge_duplicate_client_fin_ok server_payload_poll_session_ok
  acknowledge_client_ack_ok remove_on_close_ok retransmit_server_close_ok
  retransmit_server_close_for_duplicate_client_fin_ok acknowledge_server_close_ok
  acknowledge_server_close_with_client_fin_ok remove_server_close_on_rst_ok
  acknowledge_post_close_ack_ok acknowledge_post_close_client_fin_ok remove_post_close_on_rst_ok

lemma step_ok_inv: "step_ok flow R t r t' \<Longrightarrow> table_inv t'"
  by (simp add: step_ok_def)

lemma table_after_inv: "table_inv t \<Longrightarrow> table_inv (table_after t call)"
  by (cases call)
    (auto intro: segment_methods_ok [THEN step_ok_inv, OF _ prod.collapse [symmetric]]
      start_from_syn_ok [THEN conjunct1, OF _ prod.collapse [symmetric]]
      send_server_payload_ok [THEN conjunct1, OF _ prod.collapse [symmetric]]
      close_server_side_ok [THEN conjunct1, OF _ prod.collapse [symmetric]]
      prune_idle_ok [OF _ prod.collapse [symmetric]])

interpretation session_table: event_system table_after table_inv
  by unfold_locales (rule table_after_inv)

lemma table_inv_initial: "table_inv (with_max_active_sessions n)"
  by (simp add: table_inv_def with_max_active_sessions_def entry_ok_def)

end
