(* ===== verification/Keli_Tun_Session_Facts.thy ===== *)
theory Keli_Tun_Session_Facts
  imports Keli_Tun_Session
begin

text \<open>
  What the session table promises its callers: a method touches the entries of one key only, phases
  never go backwards, accepted client data is the next expected part of the stream, and the properties
  of single methods (opening, pruning, retransmission).
\<close>

section \<open>One method touches one session\<close>

definition table_entry :: "tun_tcp_session_table \<Rightarrow> tun_tcp_session_key
    \<Rightarrow> tun_tcp_session_record option \<times> tun_tcp_server_closed_session option \<times> tun_tcp_post_close_session option" where
  "table_entry t key =
     (map_of (sessions t) key, map_of (server_closed_sessions t) key, map_of (post_closed_sessions t) key)"

definition flow_key :: "tun_packet_flow \<Rightarrow> tun_tcp_session_key option" where
  "flow_key flow = (case session_key_from_flow flow of Ok key \<Rightarrow> Some key | _ \<Rightarrow> None)"

fun call_key :: "table_call \<Rightarrow> tun_tcp_session_key option" where
  "call_key (StartFromSyn now segment isn w) = flow_key (seg_flow segment)"
| "call_key (AcknowledgeRetransmittedSyn now segment) = flow_key (seg_flow segment)"
| "call_key (ApplyAck now segment) = flow_key (seg_flow segment)"
| "call_key (AcceptClientPayload now segment) = flow_key (seg_flow segment)"
| "call_key (AcceptOverlappingClientPayload now segment) = flow_key (seg_flow segment)"
| "call_key (AcknowledgeDuplicateClientPayload now segment) = flow_key (seg_flow segment)"
| "call_key (AcknowledgeOutOfOrderClientPayload now segment) = flow_key (seg_flow segment)"
| "call_key (SendServerPayload now flow payload) = flow_key flow"
| "call_key (RetransmitServerPayload now segment) = flow_key (seg_flow segment)"
| "call_key (RetransmitServerPayloadForDuplicateClientFin now segment) = flow_key (seg_flow segment)"
| "call_key (CloseServerSide now key) = Some key"
| "call_key (RetransmitServerClose now segment) = flow_key (seg_flow segment)"
| "call_key (RetransmitServerCloseForDuplicateClientFin now segment) = flow_key (seg_flow segment)"
| "call_key (AcknowledgeServerClose now segment) = flow_key (seg_flow segment)"
| "call_key (AcknowledgeServerCloseWithClientFin now segment) = flow_key (seg_flow segment)"
| "call_key (AcknowledgePostCloseAck now segment) = flow_key (seg_flow segment)"
| "call_key (AcknowledgePostCloseClientFin now segment) = flow_key (seg_flow segment)"
| "call_key (RemoveServerCloseOnRst segment) = flow_key (seg_flow segment)"
| "call_key (RemovePostCloseOnRst segment) = flow_key (seg_flow segment)"
| "call_key (AcceptClientFinWithPayload now segment) = flow_key (seg_flow segment)"
| "call_key (AcknowledgeClientFin now segment) = flow_key (seg_flow segment)"
| "call_key (AcknowledgeDuplicateClientFin now segment) = flow_key (seg_flow segment)"
| "call_key (ServerPayloadPollSession now segment) = flow_key (seg_flow segment)"
| "call_key (AcknowledgeClientAck now segment) = flow_key (seg_flow segment)"
| "call_key (PruneIdle now idle_timeout) = None"
| "call_key (RemoveOnClose now segment) = flow_key (seg_flow segment)"

fun is_prune :: "table_call \<Rightarrow> bool" where
  "is_prune (PruneIdle now idle_timeout) = True"
| "is_prune _ = False"

lemma only_key_frame:
  "only_key flow t t' \<Longrightarrow> flow_key flow \<noteq> Some k \<Longrightarrow> table_entry t' k = table_entry t k
    \<and> max_active_sessions t' = max_active_sessions t"
  by (auto simp: only_key_def flow_key_def table_entry_def split: outcome.splits)

lemma step_ok_frame:
  "step_ok flow R t r t' \<Longrightarrow> flow_key flow \<noteq> Some k \<Longrightarrow> table_entry t' k = table_entry t k
    \<and> max_active_sessions t' = max_active_sessions t"
  by (auto simp: step_ok_def only_key_frame)

lemma step_ok_max: "step_ok flow R t r t' \<Longrightarrow> max_active_sessions t' = max_active_sessions t"
  by (simp add: step_ok_def only_key_def)

lemma close_server_side_frame:
  assumes "close_server_side now key t = (r, t')"
  shows "max_active_sessions t' = max_active_sessions t \<and> (k \<noteq> key \<longrightarrow> table_entry t' k = table_entry t k)"
  using assms
  by (auto simp: close_server_side_def run_op table_entry_def table_simps
      split: option.splits if_splits outcome.splits)

lemma table_after_frame:
  assumes "table_inv t"
  shows "max_active_sessions (table_after t call) = max_active_sessions t"
    and "\<not> is_prune call \<Longrightarrow> call_key call \<noteq> Some k \<Longrightarrow> table_entry (table_after t call) k = table_entry t k"
proof -
  note methods = segment_methods_ok [OF assms prod.collapse [symmetric]]
  note syn = start_from_syn_ok [OF assms prod.collapse [symmetric]]
  note send = send_server_payload_ok [OF assms prod.collapse [symmetric]]
  note close = close_server_side_frame [OF prod.collapse [symmetric]]
  show "max_active_sessions (table_after t call) = max_active_sessions t"
    by (cases call) (simp_all add: methods [THEN step_ok_max] syn send close
        prune_idle_eq [OF assms] only_key_def [THEN iffD1, OF syn [THEN conjunct2, THEN conjunct1]]
        only_key_def [THEN iffD1, OF send [THEN conjunct2, THEN conjunct1]])
  show "table_entry (table_after t call) k = table_entry t k" if "\<not> is_prune call" "call_key call \<noteq> Some k"
    using that
    by (cases call) (simp_all add: methods [THEN step_ok_frame] close
        only_key_frame [OF syn [THEN conjunct2, THEN conjunct1]]
        only_key_frame [OF send [THEN conjunct2, THEN conjunct1]])
qed

interpretation bounded_table: event_system table_after "\<lambda>t. table_inv t \<and> max_active_sessions t = n"
  by unfold_locales (simp add: table_after_inv table_after_frame)


section \<open>Phases and sequence numbers\<close>

instantiation tun_tcp_session_phase :: linorder
begin

definition phase_rank :: "tun_tcp_session_phase \<Rightarrow> nat" where
  "phase_rank p = (case p of SynReceived \<Rightarrow> 0 | Established \<Rightarrow> 1 | ClientFinReceived \<Rightarrow> 2)"

definition less_eq_tun_tcp_session_phase :: "tun_tcp_session_phase \<Rightarrow> tun_tcp_session_phase \<Rightarrow> bool" where
  "p \<le> q \<longleftrightarrow> phase_rank p \<le> phase_rank q"

definition less_tun_tcp_session_phase :: "tun_tcp_session_phase \<Rightarrow> tun_tcp_session_phase \<Rightarrow> bool" where
  "p < q \<longleftrightarrow> phase_rank p < phase_rank q"

instance
  by standard
    (auto simp: less_eq_tun_tcp_session_phase_def less_tun_tcp_session_phase_def phase_rank_def
      split: tun_tcp_session_phase.splits)

end

lemma phase_le_simps [simp]:
  "SynReceived \<le> p" "p \<le> ClientFinReceived" "Established \<le> p \<longleftrightarrow> p \<noteq> SynReceived"
  "p \<le> Established \<longleftrightarrow> p \<noteq> ClientFinReceived" "ClientFinReceived \<le> p \<longleftrightarrow> p = ClientFinReceived"
  "p \<le> SynReceived \<longleftrightarrow> p = SynReceived"
  by (cases p; simp add: less_eq_tun_tcp_session_phase_def phase_rank_def)+

text \<open>
  \<open>quiet key t t'\<close>: between \<open>t\<close> and \<open>t'\<close> no data was taken from the session's client and no session was
  opened under \<open>key\<close>; the phase can only advance.
\<close>

definition quiet :: "tun_tcp_session_key \<Rightarrow> tun_tcp_session_table \<Rightarrow> tun_tcp_session_table \<Rightarrow> bool" where
  "quiet key t t' \<longleftrightarrow> (\<forall>s'. map_of (sessions t') key = Some s' \<longrightarrow>
     (\<exists>s. map_of (sessions t) key = Some s \<and> ses_phase s \<le> ses_phase s'
        \<and> ses_client_initial_sequence_number s' = ses_client_initial_sequence_number s
        \<and> (ses_phase s' \<noteq> ClientFinReceived \<longrightarrow>
             ses_client_next_sequence_number s' = ses_client_next_sequence_number s)))"

lemma quiet_refl [simp]: "quiet key t t"
  by (simp add: quiet_def)

lemma quiet_trans:
  assumes "quiet key t t'" and "quiet key t' t''"
  shows "quiet key t t''"
  unfolding quiet_def
proof (intro allI impI)
  fix s'' assume "map_of (sessions t'') key = Some s''"
  with assms(2) obtain s' where s': "map_of (sessions t') key = Some s'" "ses_phase s' \<le> ses_phase s''"
      "ses_client_initial_sequence_number s'' = ses_client_initial_sequence_number s'"
      "ses_phase s'' \<noteq> ClientFinReceived \<longrightarrow>
        ses_client_next_sequence_number s'' = ses_client_next_sequence_number s'"
    unfolding quiet_def by blast
  with assms(1) obtain s where "map_of (sessions t) key = Some s" "ses_phase s \<le> ses_phase s'"
      "ses_client_initial_sequence_number s' = ses_client_initial_sequence_number s"
      "ses_phase s' \<noteq> ClientFinReceived \<longrightarrow>
        ses_client_next_sequence_number s' = ses_client_next_sequence_number s"
    unfolding quiet_def by blast
  with s' show "\<exists>s. map_of (sessions t) key = Some s \<and> ses_phase s \<le> ses_phase s''
      \<and> ses_client_initial_sequence_number s'' = ses_client_initial_sequence_number s
      \<and> (ses_phase s'' \<noteq> ClientFinReceived \<longrightarrow>
           ses_client_next_sequence_number s'' = ses_client_next_sequence_number s)"
    by (cases "ses_phase s'"; cases "ses_phase s''") auto
qed

lemma acknowledge_retransmitted_syn_quiet: "acknowledge_retransmitted_syn now segment t = (r, t') \<Longrightarrow> quiet key t t'"
  by (auto simp: acknowledge_retransmitted_syn_def with_entry_def run_op quiet_def table_simps
      split: if_splits outcome.splits option.splits)

lemma apply_ack_quiet: "apply_ack now segment t = (r, t') \<Longrightarrow> quiet key t t'"
  by (auto simp: apply_ack_def with_entry_def run_op quiet_def table_simps
      split: if_splits outcome.splits option.splits)

lemma acknowledge_duplicate_client_payload_quiet: "acknowledge_duplicate_client_payload now segment t = (r, t') \<Longrightarrow> quiet key t t'"
  by (auto simp: acknowledge_duplicate_client_payload_def with_entry_def run_op quiet_def table_simps
      split: if_splits outcome.splits option.splits)

lemma acknowledge_out_of_order_client_payload_quiet: "acknowledge_out_of_order_client_payload now segment t = (r, t') \<Longrightarrow> quiet key t t'"
  by (auto simp: acknowledge_out_of_order_client_payload_def with_entry_def run_op quiet_def table_simps
      split: if_splits outcome.splits option.splits)

lemma retransmit_server_payload_quiet: "retransmit_server_payload now segment t = (r, t') \<Longrightarrow> quiet key t t'"
  by (auto simp: retransmit_server_payload_def with_entry_def run_op quiet_def table_simps
      split: if_splits outcome.splits option.splits)

lemma retransmit_server_payload_for_duplicate_client_fin_quiet: "retransmit_server_payload_for_duplicate_client_fin now segment t = (r, t') \<Longrightarrow> quiet key t t'"
  by (auto simp: retransmit_server_payload_for_duplicate_client_fin_def with_entry_def run_op quiet_def table_simps
      split: if_splits outcome.splits option.splits)

lemma accept_client_fin_with_payload_quiet: "accept_client_fin_with_payload now segment t = (r, t') \<Longrightarrow> quiet key t t'"
  by (auto simp: accept_client_fin_with_payload_def with_entry_def run_op quiet_def table_simps
      split: if_splits outcome.splits option.splits)

lemma acknowledge_client_fin_quiet: "acknowledge_client_fin now segment t = (r, t') \<Longrightarrow> quiet key t t'"
  by (auto simp: acknowledge_client_fin_def with_entry_def run_op quiet_def table_simps
      split: if_splits outcome.splits option.splits)

lemma acknowledge_duplicate_client_fin_quiet: "acknowledge_duplicate_client_fin now segment t = (r, t') \<Longrightarrow> quiet key t t'"
  by (auto simp: acknowledge_duplicate_client_fin_def with_entry_def run_op quiet_def table_simps
      split: if_splits outcome.splits option.splits)

lemma server_payload_poll_session_quiet: "server_payload_poll_session now segment t = (r, t') \<Longrightarrow> quiet key t t'"
  by (auto simp: server_payload_poll_session_def with_entry_def run_op quiet_def table_simps
      split: if_splits outcome.splits option.splits)

lemma acknowledge_client_ack_quiet: "acknowledge_client_ack now segment t = (r, t') \<Longrightarrow> quiet key t t'"
  by (auto simp: acknowledge_client_ack_def with_entry_def run_op quiet_def table_simps
      split: if_splits outcome.splits option.splits)

lemma remove_on_close_quiet: "remove_on_close now segment t = (r, t') \<Longrightarrow> quiet key t t'"
  by (auto simp: remove_on_close_def with_entry_def run_op quiet_def table_simps
      split: if_splits outcome.splits option.splits)

lemma retransmit_server_close_quiet: "retransmit_server_close now segment t = (r, t') \<Longrightarrow> quiet key t t'"
  by (auto simp: retransmit_server_close_def with_entry_def run_op quiet_def table_simps
      split: if_splits outcome.splits option.splits)

lemma retransmit_server_close_for_duplicate_client_fin_quiet: "retransmit_server_close_for_duplicate_client_fin now segment t = (r, t') \<Longrightarrow> quiet key t t'"
  by (auto simp: retransmit_server_close_for_duplicate_client_fin_def with_entry_def run_op quiet_def table_simps
      split: if_splits outcome.splits option.splits)

lemma acknowledge_server_close_quiet: "acknowledge_server_close now segment t = (r, t') \<Longrightarrow> quiet key t t'"
  by (auto simp: acknowledge_server_close_def with_entry_def run_op quiet_def table_simps
      split: if_splits outcome.splits option.splits)

lemma acknowledge_server_close_with_client_fin_quiet: "acknowledge_server_close_with_client_fin now segment t = (r, t') \<Longrightarrow> quiet key t t'"
  by (auto simp: acknowledge_server_close_with_client_fin_def with_entry_def run_op quiet_def table_simps
      split: if_splits outcome.splits option.splits)

lemma remove_server_close_on_rst_quiet: "remove_server_close_on_rst segment t = (r, t') \<Longrightarrow> quiet key t t'"
  by (auto simp: remove_server_close_on_rst_def with_entry_def run_op quiet_def table_simps
      split: if_splits outcome.splits option.splits)

lemma acknowledge_post_close_ack_quiet: "acknowledge_post_close_ack now segment t = (r, t') \<Longrightarrow> quiet key t t'"
  by (auto simp: acknowledge_post_close_ack_def with_entry_def run_op quiet_def table_simps
      split: if_splits outcome.splits option.splits)

lemma acknowledge_post_close_client_fin_quiet: "acknowledge_post_close_client_fin now segment t = (r, t') \<Longrightarrow> quiet key t t'"
  by (auto simp: acknowledge_post_close_client_fin_def with_entry_def run_op quiet_def table_simps
      split: if_splits outcome.splits option.splits)

lemma remove_post_close_on_rst_quiet: "remove_post_close_on_rst segment t = (r, t') \<Longrightarrow> quiet key t t'"
  by (auto simp: remove_post_close_on_rst_def with_entry_def run_op quiet_def table_simps
      split: if_splits outcome.splits option.splits)

lemma send_server_payload_quiet: "send_server_payload now flow payload t = (r, t') \<Longrightarrow> quiet key t t'"
  by (auto simp: send_server_payload_def with_entry_def run_op quiet_def table_simps
      split: if_splits outcome.splits option.splits)

lemma close_server_side_quiet: "close_server_side now k t = (r, t') \<Longrightarrow> quiet key t t'"
  by (auto simp: close_server_side_def run_op quiet_def table_simps
      split: if_splits outcome.splits option.splits)


text \<open>
  \<open>delivers s segment frame\<close>: \<open>frame\<close> hands on the part of \<open>segment\<close> that the session still expects,
  from the next expected sequence number to the end of the segment.
\<close>

definition delivers :: "tun_tcp_session_record \<Rightarrow> tun_tcp_segment \<Rightarrow> tun_tcp_client_payload_frame \<Rightarrow> bool" where
  "delivers s segment frame \<longleftrightarrow>
     ses_phase s = Established
     \<and> cpf_sequence_number frame = ses_client_next_sequence_number s
     \<and> (\<exists>offset < length (seg_payload segment).
          ses_client_next_sequence_number s = seg_sequence_number segment + of_nat offset
          \<and> cpf_payload frame = drop offset (seg_payload segment))
     \<and> cpf_acknowledgment_number frame = ses_client_next_sequence_number (cpf_session frame)
     \<and> ses_client_next_sequence_number (cpf_session frame) =
         ses_client_next_sequence_number s + of_nat (length (cpf_payload frame))
           + (if seg_fin segment then 1 else 0)"

lemma delivers_whole_segment:
  assumes "ses_phase s = Established" and "seg_payload segment \<noteq> []"
    and "seg_sequence_number segment = ses_client_next_sequence_number s" and "\<not> seg_syn segment"
    and "cpf_sequence_number frame = seg_sequence_number segment"
    and "cpf_payload frame = seg_payload segment"
    and "cpf_acknowledgment_number frame = tcp_segment_next_sequence_number segment"
    and "ses_client_next_sequence_number (cpf_session frame) = tcp_segment_next_sequence_number segment"
  shows "delivers s segment frame"
  using assms
  by (auto simp: delivers_def tcp_segment_next_sequence_number_def tcp_segment_sequence_len_def
      intro!: exI [of _ 0])

lemma accept_client_payload_delivers:
  assumes "accept_client_payload now segment t = (Ok (Some frame), t')"
  obtains key s where "session_key_from_flow (seg_flow segment) = Ok key"
    "map_of (sessions t) key = Some s" "delivers s segment frame"
    "ses_phase (cpf_session frame) = Established"
    "t' = t\<lparr>sessions := AList.update key (cpf_session frame) (sessions t)\<rparr>"
proof (cases "session_key_from_flow (seg_flow segment)")
  case (Ok key)
  with assms obtain s where s: "map_of (sessions t) key = Some s"
    by (auto simp: accept_client_payload_def with_entry_def run_op split: option.splits)
  have "delivers s segment frame" "ses_phase (cpf_session frame) = Established"
      "t' = t\<lparr>sessions := AList.update key (cpf_session frame) (sessions t)\<rparr>"
    using assms Ok s
    by (auto simp: accept_client_payload_def with_entry_def run_op intro!: delivers_whole_segment
        split: if_splits outcome.splits)
  with that Ok s show thesis by blast
qed (use assms in \<open>auto simp: accept_client_payload_def with_entry_def run_op\<close>)

lemma accept_overlapping_client_payload_delivers:
  assumes "accept_overlapping_client_payload now segment t = (Ok (Some frame), t')"
  obtains key s where "session_key_from_flow (seg_flow segment) = Ok key"
    "map_of (sessions t) key = Some s" "delivers s segment frame"
    "ses_phase (cpf_session frame) = Established"
    "t' = t\<lparr>sessions := AList.update key (cpf_session frame) (sessions t)\<rparr>"
proof (cases "session_key_from_flow (seg_flow segment)")
  case (Ok key)
  with assms obtain s where s: "map_of (sessions t) key = Some s"
    by (auto simp: accept_overlapping_client_payload_def with_entry_def run_op split: option.splits)
  let ?off = "unat (ses_client_next_sequence_number s - seg_sequence_number segment)"
  have next_seq: "seg_sequence_number segment + of_nat ?off = ses_client_next_sequence_number s"
    by simp
  have run: "?off \<le> length (seg_payload segment)" "ses_phase s = Established"
      "ses_client_next_sequence_number s < tcp_segment_next_sequence_number segment"
      "\<not> seg_syn segment" "\<not> seg_fin segment"
      "cpf_sequence_number frame = ses_client_next_sequence_number s"
      "cpf_payload frame = drop ?off (seg_payload segment)"
      "ses_client_next_sequence_number (cpf_session frame) = tcp_segment_next_sequence_number segment"
      "cpf_acknowledgment_number frame = tcp_segment_next_sequence_number segment"
      "ses_phase (cpf_session frame) = Established"
      "t' = t\<lparr>sessions := AList.update key (cpf_session frame) (sessions t)\<rparr>"
    using assms Ok s
    by (auto simp: accept_overlapping_client_payload_def with_entry_def run_op get_range_def not_le
        split: if_splits outcome.splits)
  have end_seq: "tcp_segment_next_sequence_number segment =
      ses_client_next_sequence_number s + of_nat (length (seg_payload segment) - ?off)"
    using run(1,4,5) by (simp add: tcp_segment_next_sequence_number_def tcp_segment_sequence_len_def
        of_nat_diff)
  have "?off < length (seg_payload segment)"
    using run(1,3) end_seq by (cases "?off = length (seg_payload segment)") auto
  with run end_seq next_seq have "delivers s segment frame"
    unfolding delivers_def by (auto intro!: exI [of _ ?off])
  with that Ok s run show thesis by blast
qed (use assms in \<open>auto simp: accept_overlapping_client_payload_def with_entry_def run_op\<close>)

lemma accept_client_fin_with_payload_delivers:
  assumes "accept_client_fin_with_payload now segment t = (Ok (Some (frame, response)), t')"
  obtains key s where "session_key_from_flow (seg_flow segment) = Ok key"
    "map_of (sessions t) key = Some s" "delivers s segment frame"
    "ses_phase (cpf_session frame) = ClientFinReceived" "clf_session response = cpf_session frame"
    "map_of (sessions t') = (map_of (sessions t))(key \<mapsto> cpf_session frame)"
proof (cases "session_key_from_flow (seg_flow segment)")
  case (Ok key)
  with assms obtain s where s: "map_of (sessions t) key = Some s"
    by (auto simp: accept_client_fin_with_payload_def with_entry_def run_op
        split: option.splits if_splits)
  have "delivers s segment frame" "ses_phase (cpf_session frame) = ClientFinReceived"
      "clf_session response = cpf_session frame"
      "map_of (sessions t') = (map_of (sessions t))(key \<mapsto> cpf_session frame)"
    using assms Ok s
    by (auto simp: accept_client_fin_with_payload_def with_entry_def run_op table_simps
        intro!: delivers_whole_segment split: if_splits outcome.splits)
  with that Ok s show thesis by blast
qed (use assms in \<open>auto simp: accept_client_fin_with_payload_def with_entry_def run_op split: if_splits\<close>)

lemma accept_none_unchanged:
  "accept_client_payload now segment t = (Ok None, t') \<Longrightarrow> t' = t"
  "accept_overlapping_client_payload now segment t = (Ok None, t') \<Longrightarrow> t' = t"
  "accept_client_fin_with_payload now segment t = (Ok None, t') \<Longrightarrow> t' = t"
  by (auto simp: accept_client_payload_def accept_overlapping_client_payload_def
      accept_client_fin_with_payload_def with_entry_def run_op
      split: option.splits if_splits outcome.splits)


section \<open>Properties\<close>

definition sample_segment :: "u16 \<Rightarrow> u32 \<Rightarrow> u32 \<Rightarrow> u16 \<Rightarrow> bytes \<Rightarrow> tun_tcp_segment" where
  "sample_segment flags sequence_number acknowledgment_number port payload =
     \<lparr>seg_flow = (sample_flow Tcp)\<lparr>flow_source_port := Some port\<rparr>,
      seg_sequence_number = sequence_number, seg_acknowledgment_number = acknowledgment_number,
      seg_header_len = 20, seg_flags = flags_from_bits flags, seg_window_size = 1024,
      seg_payload = payload\<rparr>"

definition sample_key :: "u16 \<Rightarrow> tun_tcp_session_key" where
  "sample_key port = \<lparr>key_source_ip = V4 0x0a000002, key_source_port = port,
     key_destination_ip = V4 0x08080808, key_destination_port = 443\<rparr>"

lemma sample_segment_simps:
  "seg_flow (sample_segment flags sq ak port payload) = (sample_flow Tcp)\<lparr>flow_source_port := Some port\<rparr>"
  "session_key_from_flow ((sample_flow Tcp)\<lparr>flow_source_port := Some port\<rparr>) = Ok (sample_key port)"
  "tcp_flow ((sample_flow Tcp)\<lparr>flow_source_port := Some port\<rparr>)"
  by (simp_all add: sample_segment_def sample_key_def session_key_from_flow_def sample_flow_def
      tcp_flow_def flow_wf_def)

definition sample_session :: "tun_tcp_session_phase \<Rightarrow> instant \<Rightarrow> tun_tcp_session_record" where
  "sample_session phase now = \<lparr>ses_key = sample_key 40000,
     ses_flow = (sample_flow Tcp)\<lparr>flow_source_port := Some 40000\<rparr>,
     ses_client_initial_sequence_number = 100, ses_client_next_sequence_number = 101,
     ses_server_initial_sequence_number = 700, ses_server_next_sequence_number = 701,
     ses_server_unacked_payload = None, ses_window_size = 1024, ses_phase = phase,
     ses_last_activity_at = now\<rparr>"

definition sample_table :: "tun_tcp_session_phase \<Rightarrow> instant \<Rightarrow> tun_tcp_session_table" where
  "sample_table phase now = \<lparr>sessions = [(sample_key 40000, sample_session phase now)],
     server_closed_sessions = [], post_closed_sessions = [], max_active_sessions = 1\<rparr>"

lemma sample_table_reached:
  "table_after (with_max_active_sessions 1) (StartFromSyn 5 (sample_segment 0x02 100 0 40000 []) 700 1024)
    = sample_table SynReceived 5"
  "table_after (sample_table SynReceived 5) (ApplyAck 6 (sample_segment 0x10 101 701 40000 []))
    = sample_table Established 6"
proof -
  let ?syn = "sample_segment 0x02 100 0 40000 []"
  have syn: "is_initial_tcp_syn_segment ?syn"
    by (simp add: is_initial_tcp_syn_segment_def sample_segment_def flags_from_bits_def flag_defs)
  obtain packet where "build_tun_tcp_syn_ack_response_packet ?syn 700 1024 = Ok packet"
    using syn_ack_builds [OF _ syn, of 700 1024] control_builds_no_panic(4) [of ?syn 700 1024]
    by (cases "build_tun_tcp_syn_ack_response_packet ?syn 700 1024") (auto simp: sample_segment_simps)
  moreover have "tcp_segment_next_sequence_number ?syn = 101"
    by (simp add: tcp_segment_next_sequence_number_def tcp_segment_sequence_len_def sample_segment_def
        flags_from_bits_def flag_defs)
  ultimately show "table_after (with_max_active_sessions 1) (StartFromSyn 5 ?syn 700 1024)
    = sample_table SynReceived 5"
    using syn by (simp add: start_from_syn_def run_op sample_segment_simps with_max_active_sessions_def
        sample_table_def sample_session_def) (simp add: sample_segment_def)
  show "table_after (sample_table SynReceived 5) (ApplyAck 6 (sample_segment 0x10 101 701 40000 []))
    = sample_table Established 6"
    by (simp add: apply_ack_def with_entry_def run_op sample_segment_simps sample_table_def)
      (simp add: sample_segment_def sample_session_def flags_from_bits_def flag_defs)
qed

lemma sample_table_inv: "table_inv (sample_table SynReceived 5)" "table_inv (sample_table Established 6)"
proof -
  show syn: "table_inv (sample_table SynReceived 5)"
    unfolding sample_table_reached(1) [symmetric] by (intro table_after_inv table_inv_initial)
  then show "table_inv (sample_table Established 6)"
    unfolding sample_table_reached(2) [symmetric] by (rule table_after_inv)
qed

text \<open>C1. Whatever sequence of methods is called on a fresh table with limit \<open>n\<close>, every entry stays
  well-formed (stored under the key of its own flow, with consistent sequence numbers and rebuildable
  packets), no key is active, server-closed and post-closed at the same time, and the number of active
  sessions never exceeds the limit (at least one).\<close>

theorem session_table_invariant:
  "table_inv (foldl table_after (with_max_active_sessions n) calls)
    \<and> length (sessions (foldl table_after (with_max_active_sessions n) calls)) \<le> max n 1"
proof -
  have "table_inv (foldl table_after (with_max_active_sessions n) calls)
      \<and> max_active_sessions (foldl table_after (with_max_active_sessions n) calls) = max n 1"
    by (rule bounded_table.run_inv) (simp add: table_inv_initial, simp add: with_max_active_sessions_def)
  then show ?thesis by (auto simp: table_inv_def)
qed

text \<open>C11. A method called for one flow leaves the sessions, server-closed markers and post-close
  markers of every other flow as they were.\<close>

theorem session_isolation:
  assumes "table_inv t" and "\<not> is_prune call" and "call_key call \<noteq> Some key"
  shows "table_entry (table_after t call) key = table_entry t key"
  using assms by (rule table_after_frame(2))

theorem session_isolation_witness:
  "table_entry (table_after (sample_table SynReceived 5) (RemoveOnClose 6 (sample_segment 0x04 0 0 50000 []))) (sample_key 40000)
    = table_entry (sample_table SynReceived 5) (sample_key 40000)"
  by (rule session_isolation [OF sample_table_inv(1)])
    (simp_all add: flow_key_def sample_segment_simps, simp add: sample_key_def)

text \<open>Pruning removes exactly the entries of the three maps that have been idle for at least the
  timeout, returns exactly the active sessions it removed, and keeps the table well-formed.\<close>

theorem prune_idle_exact:
  assumes "table_inv t" and "prune_idle now idle_timeout t = (pruned, t')"
  shows "set pruned = {s. \<exists>key. map_of (sessions t) key = Some s \<and> idle_timeout \<le> now - ses_last_activity_at s}
    \<and> map_of (sessions t') key =
        (case map_of (sessions t) key of
           Some s \<Rightarrow> if now - ses_last_activity_at s < idle_timeout then Some s else None | None \<Rightarrow> None)
    \<and> map_of (server_closed_sessions t') key =
        (case map_of (server_closed_sessions t) key of
           Some c \<Rightarrow> if now - closed_last_activity_at c < idle_timeout then Some c else None | None \<Rightarrow> None)
    \<and> map_of (post_closed_sessions t') key =
        (case map_of (post_closed_sessions t) key of
           Some p \<Rightarrow> if now - post_last_activity_at p < idle_timeout then Some p else None | None \<Rightarrow> None)
    \<and> table_inv t'"
proof -
  have d: "distinct (map fst (sessions t))" "distinct (map fst (server_closed_sessions t))"
      "distinct (map fst (post_closed_sessions t))"
    using assms(1) by (simp_all add: table_inv_def)
  have "set pruned = {s. \<exists>key. map_of (sessions t) key = Some s \<and> idle_timeout \<le> now - ses_last_activity_at s}"
    using assms(2) d by (force simp: prune_idle_eq [OF assms(1)])
  with assms d show ?thesis
    by (auto simp: prune_idle_eq map_of_fresh prune_idle_ok)
qed

theorem prune_idle_exact_witness:
  "map_of (sessions (snd (prune_idle 10 5 (sample_table SynReceived 5)))) (sample_key 40000) = None
    \<and> map_of (sessions (snd (prune_idle 9 5 (sample_table SynReceived 5)))) (sample_key 40000)
        = Some (sample_session SynReceived 5)"
  using prune_idle_exact [OF sample_table_inv(1) prod.collapse [symmetric], of 10 5 "sample_key 40000"]
    prune_idle_exact [OF sample_table_inv(1) prod.collapse [symmetric], of 9 5 "sample_key 40000"]
  by (simp add: sample_table_def sample_session_def)

text \<open>Opening a session for a new connection attempt: when the table is full and the flow has no
  session, the call fails with the limit error and changes nothing; otherwise it succeeds, the flow has
  exactly one half-open session whose sequence numbers come from the SYN, and the packet is the SYN-ACK
  that acknowledges the SYN.\<close>

theorem start_from_syn_spec:
  assumes "table_inv t" and "tcp_flow (seg_flow segment)" and "is_initial_tcp_syn_segment segment"
    and "session_key_from_flow (seg_flow segment) = Ok key"
    and "start_from_syn now segment isn window_size t = (r, t')"
  shows "if map_of (sessions t) key = None \<and> length (sessions t) = max_active_sessions t
    then r = Err (TcpSessionLimitExceeded (length (sessions t)) (max_active_sessions t)) \<and> t' = t
    else (\<exists>session packet. r = Ok \<lparr>sar_session = session, sar_packet = packet\<rparr>
      \<and> table_entry t' key = (Some session, None, None)
      \<and> ses_phase session = SynReceived \<and> ses_flow session = seg_flow segment
      \<and> ses_client_next_sequence_number session = tcp_segment_next_sequence_number segment
      \<and> ses_server_next_sequence_number session = isn + 1
      \<and> parse_tun_tcp_segment packet = Ok \<lparr>seg_flow = swap_flow (seg_flow segment),
          seg_sequence_number = isn,
          seg_acknowledgment_number = tcp_segment_next_sequence_number segment, seg_header_len = 20,
          seg_flags = flags_from_bits 0x12, seg_window_size = window_size, seg_payload = []\<rparr>)"
proof -
  have "length (sessions t) \<le> max_active_sessions t" using assms(1) by (simp add: table_inv_def)
  moreover obtain packet where packet:
    "build_tun_tcp_syn_ack_response_packet segment isn window_size = Ok packet"
    using syn_ack_builds [OF assms(2,3)] control_builds_no_panic(4)
    by (cases "build_tun_tcp_syn_ack_response_packet segment isn window_size") auto
  moreover have "parse_tun_tcp_segment packet = Ok (tcp_view (seg_flow segment, isn,
      tcp_segment_next_sequence_number segment, flags_from_bits 0x12, window_size, []))"
    using packet assms(3) by (intro tcp_codec.parse_build)
      (simp add: build_tun_tcp_syn_ack_response_packet_def)
  ultimately show ?thesis
    using assms by (auto simp: start_from_syn_def run_op table_entry_def table_simps tcp_view_def
        flags_from_bits_def split: if_splits)
qed

theorem start_from_syn_spec_witness:
  "\<exists>session packet. fst (start_from_syn 5 (sample_segment 0x02 100 0 40000 []) 700 1024 (with_max_active_sessions 1))
      = Ok \<lparr>sar_session = session, sar_packet = packet\<rparr>
    \<and> ses_client_next_sequence_number session = 101"
  using start_from_syn_spec [OF table_inv_initial [of 1], of "sample_segment 0x02 100 0 40000 []" "sample_key 40000" 5 700 1024, OF _ _ _ prod.collapse [symmetric]]
  by (auto simp: sample_segment_simps with_max_active_sessions_def is_initial_tcp_syn_segment_def
      sample_segment_def flags_from_bits_def flag_defs tcp_segment_next_sequence_number_def
      tcp_segment_sequence_len_def)

text \<open>Server data that the client has not acknowledged is retransmitted verbatim: after a payload
  was sent, a bare acknowledgment of its first byte makes the table produce the same packet again, and
  the session still expects the same sequence numbers.\<close>

theorem server_payload_retransmitted:
  assumes "table_inv t" and "send_server_payload now flow payload t = (Ok (Some frame), t1)"
    and "seg_flow segment = flow" and "is_pure_ack segment"
    and "seg_sequence_number segment = spf_acknowledgment_number frame"
    and "seg_acknowledgment_number segment = spf_sequence_number frame"
  shows "\<exists>frame' t2. retransmit_server_payload now' segment t1 = (Ok (Some frame'), t2)
    \<and> spf_packet frame' = spf_packet frame \<and> spf_payload frame' = payload
    \<and> ses_server_next_sequence_number (spf_session frame') = spf_sequence_number frame + of_nat (length payload)"
proof -
  obtain key where key: "session_key_from_flow flow = Ok key"
    using assms(2) by (cases "session_key_from_flow flow")
      (auto simp: send_server_payload_def with_entry_def run_op)
  then obtain s where s: "map_of (sessions t) key = Some s"
    using assms(2) by (auto simp: send_server_payload_def with_entry_def run_op split: option.splits)
  let ?s1 = "s\<lparr>ses_server_next_sequence_number := ses_server_next_sequence_number s + of_nat (length payload),
    ses_server_unacked_payload := Some \<lparr>una_sequence_number = ses_server_next_sequence_number s,
      una_acknowledgment_number = ses_client_next_sequence_number s, una_payload = payload\<rparr>,
    ses_last_activity_at := now\<rparr>"
  have "tun_tcp_phase_accepts_server_response (ses_phase s)"
      "build_tun_tcp_payload_response_packet (ses_flow s) (ses_server_next_sequence_number s)
        (ses_client_next_sequence_number s) (ses_window_size s) payload = Ok (spf_packet frame)"
      "spf_sequence_number frame = ses_server_next_sequence_number s"
      "spf_acknowledgment_number frame = ses_client_next_sequence_number s"
      "map_of (sessions t1) key = Some ?s1"
    using assms(2) key s
    by (auto simp: send_server_payload_def with_entry_def run_op table_simps
        split: if_splits outcome.splits)
  with assms key show ?thesis
    by (simp add: retransmit_server_payload_def with_entry_def run_op)
qed

theorem server_payload_retransmitted_witness:
  "\<exists>frame t1 frame' t2.
    send_server_payload 7 ((sample_flow Tcp)\<lparr>flow_source_port := Some 40000\<rparr>) [1, 2] (sample_table Established 6)
      = (Ok (Some frame), t1)
    \<and> retransmit_server_payload 8 (sample_segment 0x10 101 701 40000 []) t1 = (Ok (Some frame'), t2)
    \<and> spf_packet frame' = spf_packet frame"
proof -
  let ?flow = "(sample_flow Tcp)\<lparr>flow_source_port := Some 40000\<rparr>"
  obtain packet where "build_tun_tcp_payload_response_packet ?flow 701 101 1024 [1, 2] = Ok packet"
    using build_tun_tcp_defined [of ?flow 701 101 "flags_from_bits 0x18" 1024 "[1, 2]"]
      sample_segment_simps(3) [of 40000]
    by (auto simp: tcp_flow_def build_tun_tcp_payload_response_packet_def max_tcp_response_payload_def
        sample_flow_def)
  then obtain frame t1 where
    "send_server_payload 7 ?flow [1, 2] (sample_table Established 6) = (Ok (Some frame), t1)"
    "spf_acknowledgment_number frame = 101" "spf_sequence_number frame = 701"
    by (simp add: send_server_payload_def with_entry_def run_op sample_segment_simps sample_table_def
        sample_session_def tun_tcp_phase_accepts_server_response_def)
  with server_payload_retransmitted [OF sample_table_inv(2) this(1), of "sample_segment 0x10 101 701 40000 []" 8]
  show ?thesis
    by (auto simp: sample_segment_simps sample_segment_def flags_from_bits_def flag_defs)
qed

end
