(* ===== verification/Keli_Tun_Step.thy ===== *)
theory Keli_Tun_Step
  imports Keli_Tun_Session_Facts
begin

text \<open>
  Processing one TCP segment read from the TUN device against the session table and a relay
  (\<open>process_tun_tcp_session_segment\<close> of \<open>keli-net-core/src/tun.rs\<close>). The relay is the trait
  \<open>TunTcpSessionRelay\<close>: its methods are operations on an arbitrary state, so a property holds for every
  implementation. \<open>clk i\<close> is the clock reading of the \<open>i\<close>-th call site; a run executes each site at most
  once.
\<close>

section \<open>Relay plans\<close>

record tun_packet_route_decision =
  rd_flow :: tun_packet_flow
  rd_action :: route_action
  rd_matched_rule :: "string option"
  rd_dns_hijacked :: bool

datatype tun_packet_relay_action =
    RelayDrop
  | RelayHijackDns
  | DirectTcp outbound_target
  | DirectUdp outbound_target
  | OutboundTcp string outbound_target
  | OutboundUdp string outbound_target
  | UnsupportedTransport tun_transport_protocol

record tun_packet_relay_plan =
  plan_route :: tun_packet_route_decision
  plan_relay_action :: tun_packet_relay_action

section \<open>The relay interface\<close>

datatype tun_tcp_session_error = SessionPacket tun_packet_error | SessionRelay string

datatype tun_tcp_server_read = ReadNoPayload | ReadPayload bytes | ReadClosed

record 'r tcp_session_relay =
  establish_session :: "tun_tcp_session_record \<Rightarrow> ('r, string, unit) op"
  establish_session_with_plan :: "tun_tcp_session_record \<Rightarrow> tun_packet_relay_plan \<Rightarrow> ('r, string, unit) op"
  write_client_payload :: "tun_tcp_client_payload_frame \<Rightarrow> ('r, string, unit) op"
  shutdown_client_write :: "tun_tcp_session_record \<Rightarrow> ('r, string, unit) op"
  read_server_event :: "tun_tcp_session_record \<Rightarrow> ('r, string, tun_tcp_server_read) op"
  poll_server_event :: "tun_tcp_session_record \<Rightarrow> ('r, string, tun_tcp_server_read) op"
  close_session :: "tun_tcp_session_record \<Rightarrow> ('r, string, unit) op"

text \<open>
  The methods the trait provides by default, over the ones an implementation overrides: reading an
  event is reading a payload, polling is reading, shutting the write side down is closing.
\<close>

definition server_event_of_payload :: "(tun_tcp_session_record \<Rightarrow> ('r, string, bytes option) op)
    \<Rightarrow> tun_tcp_session_record \<Rightarrow> ('r, string, tun_tcp_server_read) op" where
  "server_event_of_payload read_payload session = sbind (read_payload session) (\<lambda>r.
     case r of Some payload \<Rightarrow> ret (ReadPayload payload) | None \<Rightarrow> ret ReadNoPayload)"

definition default_session_relay :: "(tun_tcp_session_record \<Rightarrow> ('r, string, bytes option) op)
    \<Rightarrow> (tun_tcp_session_record \<Rightarrow> ('r, string, unit) op) \<Rightarrow> 'r tcp_session_relay" where
  "default_session_relay read_server_payload close =
     \<lparr>establish_session = (\<lambda>session. ret ()),
      establish_session_with_plan = (\<lambda>session plan. ret ()),
      write_client_payload = (\<lambda>frame. ret ()),
      shutdown_client_write = close,
      read_server_event = server_event_of_payload read_server_payload,
      poll_server_event = server_event_of_payload read_server_payload,
      close_session = close\<rparr>"

type_synonym ('r, 'a) step_op = "(tun_tcp_session_table \<times> 'r, tun_tcp_session_error, 'a) op"

definition on_table :: "'a table_op \<Rightarrow> ('r, 'a) step_op" where
  "on_table m = on_fst (with_err SessionPacket m)"

definition on_relay :: "('r, string, 'a) op \<Rightarrow> ('r, 'a) step_op" where
  "on_relay m = on_snd (with_err SessionRelay m)"

section \<open>Steps\<close>

record tun_tcp_session_reset_frame =
  rst_sequence_number :: u32
  rst_acknowledgment_number :: u32
  rst_packet :: bytes

datatype tun_tcp_close_marker_reset_kind = MarkerServerClose | MarkerPostClose

datatype tun_tcp_session_step =
    StepNoop
  | StepSynAck tun_tcp_syn_ack_response
  | StepReset tun_tcp_session_reset_frame
  | StepEstablished tun_tcp_session_record
  | StepClientAck tun_tcp_session_record
  | StepClientPayload tun_tcp_client_payload_frame "tun_tcp_server_payload_frame option"
      "tun_tcp_server_close_frame option"
  | StepClientPayloadClosed tun_tcp_client_payload_frame tun_tcp_close_frame
      "tun_tcp_server_payload_frame option" "tun_tcp_server_close_frame option"
  | StepClientFinAck tun_tcp_close_frame "tun_tcp_server_payload_frame option"
      "tun_tcp_server_close_frame option"
  | StepOverlappingClientPayload tun_tcp_client_payload_frame "tun_tcp_server_payload_frame option"
      "tun_tcp_server_close_frame option"
  | StepDuplicateClientPayload tun_tcp_duplicate_client_payload_ack
  | StepOutOfOrderClientPayload tun_tcp_out_of_order_client_payload_ack
  | StepServerPayload tun_tcp_server_payload_frame
  | StepServerPayloadRetransmission tun_tcp_server_payload_frame
  | StepServerClosed tun_tcp_server_close_frame
  | StepServerCloseRetransmission tun_tcp_server_close_frame
  | StepServerCloseAcknowledged tun_tcp_session_record
  | StepCloseMarkerReset tun_tcp_session_record tun_tcp_close_marker_reset_kind
  | StepServerCloseClientFinAck tun_tcp_close_frame
  | StepClientFinDuplicateAck tun_tcp_close_frame "tun_tcp_server_payload_frame option"
      "tun_tcp_server_close_frame option"
  | StepClosed tun_tcp_session_record "tun_tcp_close_frame option"

definition with_server_packets :: "bytes \<Rightarrow> tun_tcp_server_payload_frame option
    \<Rightarrow> tun_tcp_server_close_frame option \<Rightarrow> bytes list" where
  "with_server_packets first server_response server_close =
     [first]
     @ (case server_response of Some response \<Rightarrow> [spf_packet response] | None \<Rightarrow> [])
     @ (case server_close of Some close \<Rightarrow> [scf_packet close] | None \<Rightarrow> [])"

fun response_packets :: "tun_tcp_session_step \<Rightarrow> bytes list" where
  "response_packets (StepSynAck response) = [sar_packet response]"
| "response_packets (StepReset response) = [rst_packet response]"
| "response_packets (StepClientPayload frame server_response server_close) =
     with_server_packets (cpf_ack_packet frame) server_response server_close"
| "response_packets (StepOverlappingClientPayload frame server_response server_close) =
     with_server_packets (cpf_ack_packet frame) server_response server_close"
| "response_packets (StepDuplicateClientPayload ack) = [dup_ack_packet ack]"
| "response_packets (StepOutOfOrderClientPayload ack) = [ooo_ack_packet ack]"
| "response_packets (StepClientPayloadClosed frame response server_response server_close) =
     with_server_packets (clf_packet response) server_response server_close"
| "response_packets (StepClientFinAck response server_response server_close) =
     with_server_packets (clf_packet response) server_response server_close"
| "response_packets (StepServerPayload response) = [spf_packet response]"
| "response_packets (StepServerPayloadRetransmission response) = [spf_packet response]"
| "response_packets (StepServerClosed response) = [scf_packet response]"
| "response_packets (StepServerCloseRetransmission response) = [scf_packet response]"
| "response_packets (StepServerCloseClientFinAck response) = [clf_packet response]"
| "response_packets (StepClientFinDuplicateAck response server_response server_close) =
     with_server_packets (clf_packet response) server_response server_close"
| "response_packets (StepClosed session (Some response)) = [clf_packet response]"
| "response_packets _ = []"

definition is_session_limit_exceeded :: "tun_tcp_session_error \<Rightarrow> bool" where
  "is_session_limit_exceeded error = (case error of
      SessionPacket (TcpSessionLimitExceeded active max_active) \<Rightarrow> True | _ \<Rightarrow> False)"

section \<open>Processing a segment\<close>

definition close_tun_tcp_session_from_server :: "instant \<Rightarrow> 'r tcp_session_relay
    \<Rightarrow> tun_tcp_session_record \<Rightarrow> ('r, tun_tcp_server_close_frame option) step_op" where
  "close_tun_tcp_session_from_server now relay session =
     sbind (on_table (close_server_side now (ses_key session))) (\<lambda>response.
     sbind (case response of
         Some frame \<Rightarrow> on_relay (close_session relay (scf_session frame))
       | None \<Rightarrow> ret ()) (\<lambda>_.
     ret response))"

definition build_tun_tcp_session_reset_frame :: "tun_tcp_segment
    \<Rightarrow> (tun_packet_error, tun_tcp_session_reset_frame) outcome" where
  "build_tun_tcp_session_reset_frame segment =
     obind (build_tun_tcp_reset_response_packet segment) (\<lambda>packet.
     Ok \<lparr>rst_sequence_number = tcp_reset_sequence_number segment,
         rst_acknowledgment_number = tcp_reset_acknowledgment_number segment, rst_packet = packet\<rparr>)"

definition should_reset_unknown_tun_tcp_session_segment :: "tun_tcp_segment \<Rightarrow> bool" where
  "should_reset_unknown_tun_tcp_session_segment segment \<longleftrightarrow>
     \<not> seg_rst segment
     \<and> (seg_syn segment \<or> seg_fin segment \<or> seg_ack segment \<or> seg_payload segment \<noteq> [])"

definition relay_server_event :: "instant \<Rightarrow> 'r tcp_session_relay \<Rightarrow> tun_tcp_session_record
    \<Rightarrow> tun_tcp_server_read
    \<Rightarrow> ('r, tun_tcp_server_payload_frame option \<times> tun_tcp_server_close_frame option) step_op" where
  "relay_server_event now relay session event = (case event of
      ReadPayload payload \<Rightarrow>
        sbind (on_table (send_server_payload now (ses_flow session) payload)) (\<lambda>response.
        ret (response, None))
    | ReadClosed \<Rightarrow>
        sbind (close_tun_tcp_session_from_server now relay session) (\<lambda>close. ret (None, close))
    | ReadNoPayload \<Rightarrow> ret (None, None))"

definition read_tun_tcp_server_event_after_client_payload :: "instant \<Rightarrow> 'r tcp_session_relay
    \<Rightarrow> tun_tcp_client_payload_frame
    \<Rightarrow> ('r, tun_tcp_server_payload_frame option \<times> tun_tcp_server_close_frame option) step_op" where
  "read_tun_tcp_server_event_after_client_payload now relay frame =
     sbind (on_relay (read_server_event relay (cpf_session frame)))
       (relay_server_event now relay (cpf_session frame))"

definition read_tun_tcp_server_event_after_client_fin :: "instant \<Rightarrow> 'r tcp_session_relay
    \<Rightarrow> tun_tcp_session_record
    \<Rightarrow> ('r, tun_tcp_server_payload_frame option \<times> tun_tcp_server_close_frame option) step_op" where
  "read_tun_tcp_server_event_after_client_fin now relay session =
     sbind (on_relay (read_server_event relay session)) (relay_server_event now relay session)"

text \<open>\<open>sessions.get_flow(&segment.flow)?\<close>.\<close>

definition table_get_flow :: "tun_packet_flow \<Rightarrow> tun_tcp_session_record option table_op" where
  "table_get_flow flow = (\<lambda>table. (get_flow table flow, table))"

text \<open>
  The function below is cut at its top-level statements. Each part takes the statements that follow it
  as \<open>rest\<close>. First the part a retransmitted FIN shares in both FIN branches.
\<close>

definition step_duplicate_fin :: "(nat \<Rightarrow> instant) \<Rightarrow> 'r tcp_session_relay \<Rightarrow> tun_tcp_segment
    \<Rightarrow> ('r, tun_tcp_session_step) step_op \<Rightarrow> ('r, tun_tcp_session_step) step_op" where
  "step_duplicate_fin clk relay segment rest =
     if_some (on_table (retransmit_server_payload_for_duplicate_client_fin (clk 0) segment))
       (\<lambda>response. ret (StepServerPayloadRetransmission response))
     (if_some (on_table (acknowledge_duplicate_client_fin (clk 1) segment))
       (\<lambda>response.
          sbind (read_tun_tcp_server_event_after_client_fin (clk 2) relay (clf_session response))
            (\<lambda>(server_response, server_close).
          if server_response \<noteq> None \<or> server_close \<noteq> None
          then ret (StepClientFinDuplicateAck response server_response server_close)
          else ret (StepServerCloseClientFinAck response)))
     rest)"

definition step_fin_with_payload :: "(nat \<Rightarrow> instant) \<Rightarrow> 'r tcp_session_relay \<Rightarrow> tun_tcp_segment
    \<Rightarrow> ('r, tun_tcp_session_step) step_op \<Rightarrow> ('r, tun_tcp_session_step) step_op" where
  "step_fin_with_payload clk relay segment rest =
     (if seg_fin segment \<and> \<not> seg_rst segment \<and> seg_payload segment \<noteq> [] then
        step_duplicate_fin clk relay segment
        (if_some (on_table (accept_client_fin_with_payload (clk 3) segment))
          (\<lambda>(frame, response).
             sbind (on_relay (write_client_payload relay frame)) (\<lambda>_.
             sbind (on_relay (shutdown_client_write relay (clf_session response))) (\<lambda>_.
             sbind (read_tun_tcp_server_event_after_client_payload (clk 4) relay frame)
               (\<lambda>(server_response, server_close).
             ret (StepClientPayloadClosed frame response server_response server_close)))))
        rest)
      else rest)"

definition step_fin_without_payload :: "(nat \<Rightarrow> instant) \<Rightarrow> 'r tcp_session_relay \<Rightarrow> tun_tcp_segment
    \<Rightarrow> ('r, tun_tcp_session_step) step_op \<Rightarrow> ('r, tun_tcp_session_step) step_op" where
  "step_fin_without_payload clk relay segment rest =
     (if seg_fin segment \<and> \<not> seg_rst segment \<and> seg_payload segment = [] then
        step_duplicate_fin clk relay segment
        (if_some (on_table (acknowledge_client_fin (clk 5) segment))
          (\<lambda>response.
             sbind (on_relay (shutdown_client_write relay (clf_session response))) (\<lambda>_.
             sbind (read_tun_tcp_server_event_after_client_fin (clk 6) relay (clf_session response))
               (\<lambda>(server_response, server_close).
             ret (StepClientFinAck response server_response server_close))))
        rest)
      else rest)"

definition step_remove_on_close :: "(nat \<Rightarrow> instant) \<Rightarrow> 'r tcp_session_relay \<Rightarrow> tun_tcp_segment
    \<Rightarrow> ('r, tun_tcp_session_step) step_op \<Rightarrow> ('r, tun_tcp_session_step) step_op" where
  "step_remove_on_close clk relay segment rest =
     if_some (on_table (remove_on_close (clk 7) segment))
       (\<lambda>(session, response).
          sbind (on_relay (close_session relay session)) (\<lambda>_. ret (StepClosed session response)))
     rest"

definition step_fin_after_close :: "(nat \<Rightarrow> instant) \<Rightarrow> tun_tcp_segment
    \<Rightarrow> ('r, tun_tcp_session_step) step_op \<Rightarrow> ('r, tun_tcp_session_step) step_op" where
  "step_fin_after_close clk segment rest =
     (if seg_fin segment \<and> \<not> seg_rst segment then
        if_some (on_table (acknowledge_server_close_with_client_fin (clk 8) segment))
          (\<lambda>response. ret (StepServerCloseClientFinAck response))
        (if_some (on_table (retransmit_server_close_for_duplicate_client_fin (clk 9) segment))
          (\<lambda>response. ret (StepServerCloseRetransmission response))
        (if_some (on_table (acknowledge_post_close_client_fin (clk 10) segment))
          (\<lambda>response. ret (StepServerCloseClientFinAck response))
        rest))
      else rest)"

definition step_unknown_fin :: "tun_tcp_segment \<Rightarrow> ('r, tun_tcp_session_step) step_op
    \<Rightarrow> ('r, tun_tcp_session_step) step_op" where
  "step_unknown_fin segment rest =
     (if seg_fin segment \<and> \<not> seg_rst segment then
        sbind (on_table (table_get_flow (seg_flow segment))) (\<lambda>known.
        if known = None then
          sbind (on_table (lift (build_tun_tcp_session_reset_frame segment))) (\<lambda>response.
          ret (StepReset response))
        else rest)
      else rest)"

definition step_rst_markers :: "tun_tcp_segment \<Rightarrow> ('r, tun_tcp_session_step) step_op" where
  "step_rst_markers segment =
     (if seg_rst segment then
        if_some (on_table (remove_server_close_on_rst segment))
          (\<lambda>session. ret (StepCloseMarkerReset session MarkerServerClose))
        (if_some (on_table (remove_post_close_on_rst segment))
          (\<lambda>session. ret (StepCloseMarkerReset session MarkerPostClose))
        (ret StepNoop))
      else ret StepNoop)"

definition step_close :: "(nat \<Rightarrow> instant) \<Rightarrow> 'r tcp_session_relay \<Rightarrow> tun_tcp_segment
    \<Rightarrow> ('r, tun_tcp_session_step) step_op" where
  "step_close clk relay segment =
     step_fin_with_payload clk relay segment
     (step_fin_without_payload clk relay segment
     (step_remove_on_close clk relay segment
     (step_fin_after_close clk segment
     (step_unknown_fin segment
     (step_rst_markers segment)))))"

definition step_syn :: "(nat \<Rightarrow> instant) \<Rightarrow> tun_tcp_segment \<Rightarrow> u32 \<Rightarrow> u16
    \<Rightarrow> ('r, tun_tcp_session_step) step_op" where
  "step_syn clk segment server_initial_sequence_number window_size =
     if_some (on_table (acknowledge_retransmitted_syn (clk 11) segment))
       (\<lambda>response. ret (StepSynAck response))
     (sbind (on_table (table_get_flow (seg_flow segment))) (\<lambda>known.
      if (case known of Some session \<Rightarrow> tun_tcp_phase_accepts_server_response (ses_phase session)
          | None \<Rightarrow> False)
      then ret StepNoop
      else
        sbind (on_table (start_from_syn (clk 12) segment server_initial_sequence_number window_size))
          (\<lambda>response. ret (StepSynAck response))))"

definition step_establish :: "(nat \<Rightarrow> instant) \<Rightarrow> 'r tcp_session_relay \<Rightarrow> tun_packet_relay_plan option
    \<Rightarrow> tun_tcp_segment \<Rightarrow> ('r, tun_tcp_session_record option) step_op" where
  "step_establish clk relay relay_plan segment =
     (if seg_ack segment \<and> \<not> seg_syn segment then
        sbind (on_table (apply_ack (clk 13) segment)) (\<lambda>established.
        sbind (case established of
            Some session \<Rightarrow>
              on_relay (case relay_plan of
                  Some plan \<Rightarrow> establish_session_with_plan relay session plan
                | None \<Rightarrow> establish_session relay session)
          | None \<Rightarrow> ret ()) (\<lambda>_.
        ret established))
      else ret None)"

definition step_client_payload :: "(nat \<Rightarrow> instant) \<Rightarrow> 'r tcp_session_relay \<Rightarrow> tun_tcp_segment
    \<Rightarrow> ('r, tun_tcp_session_step) step_op \<Rightarrow> ('r, tun_tcp_session_step) step_op" where
  "step_client_payload clk relay segment rest =
     if_some (on_table (accept_client_payload (clk 14) segment))
       (\<lambda>frame.
          sbind (on_relay (write_client_payload relay frame)) (\<lambda>_.
          sbind (read_tun_tcp_server_event_after_client_payload (clk 15) relay frame)
            (\<lambda>(server_response, server_close).
          ret (StepClientPayload frame server_response server_close))))
     (if_some (on_table (accept_overlapping_client_payload (clk 16) segment))
       (\<lambda>frame.
          sbind (on_relay (write_client_payload relay frame)) (\<lambda>_.
          sbind (read_tun_tcp_server_event_after_client_payload (clk 17) relay frame)
            (\<lambda>(server_response, server_close).
          ret (StepOverlappingClientPayload frame server_response server_close))))
     (if_some (on_table (acknowledge_duplicate_client_payload (clk 18) segment))
       (\<lambda>ack. ret (StepDuplicateClientPayload ack))
     (if_some (on_table (acknowledge_out_of_order_client_payload (clk 19) segment))
       (\<lambda>ack. ret (StepOutOfOrderClientPayload ack))
     rest)))"

text \<open>
  Polling the server on a bare acknowledgment. The \<open>Payload\<close> and \<open>Closed\<close> arms fall through to what
  follows when the table has nothing to send.
\<close>

definition step_poll :: "(nat \<Rightarrow> instant) \<Rightarrow> 'r tcp_session_relay \<Rightarrow> tun_tcp_segment
    \<Rightarrow> ('r, tun_tcp_session_step) step_op \<Rightarrow> ('r, tun_tcp_session_step) step_op" where
  "step_poll clk relay segment rest =
     if_some (on_table (server_payload_poll_session (clk 21) segment))
       (\<lambda>session.
          sbind (on_relay (poll_server_event relay session)) (\<lambda>event.
          case event of
            ReadPayload payload \<Rightarrow>
              if_some (on_table (send_server_payload (clk 22) (ses_flow session) payload))
                (\<lambda>response. ret (StepServerPayload response)) rest
          | ReadClosed \<Rightarrow>
              if_some (close_tun_tcp_session_from_server (clk 22) relay session)
                (\<lambda>response. ret (StepServerClosed response)) rest
          | ReadNoPayload \<Rightarrow> ret (StepClientAck session)))
     rest"

definition step_pure_ack :: "(nat \<Rightarrow> instant) \<Rightarrow> 'r tcp_session_relay \<Rightarrow> tun_tcp_segment
    \<Rightarrow> ('r, tun_tcp_session_step) step_op \<Rightarrow> ('r, tun_tcp_session_step) step_op" where
  "step_pure_ack clk relay segment rest =
     if_some (on_table (retransmit_server_payload (clk 20) segment))
       (\<lambda>response. ret (StepServerPayloadRetransmission response))
     (step_poll clk relay segment
     (if_some (on_table (acknowledge_client_ack (clk 23) segment))
       (\<lambda>session. ret (StepClientAck session))
     (if_some (on_table (retransmit_server_close (clk 24) segment))
       (\<lambda>response. ret (StepServerCloseRetransmission response))
     (if_some (on_table (acknowledge_server_close (clk 25) segment))
       (\<lambda>session. ret (StepServerCloseAcknowledged session))
     (if_some (on_table (acknowledge_post_close_ack (clk 26) segment))
       (\<lambda>session. ret (StepServerCloseAcknowledged session))
     rest)))))"

definition step_unknown :: "tun_tcp_segment \<Rightarrow> ('r, tun_tcp_session_step) step_op" where
  "step_unknown segment =
     (if should_reset_unknown_tun_tcp_session_segment segment then
        sbind (on_table (table_get_flow (seg_flow segment))) (\<lambda>known.
        if known = None then
          sbind (on_table (lift (build_tun_tcp_session_reset_frame segment))) (\<lambda>response.
          ret (StepReset response))
        else ret StepNoop)
      else ret StepNoop)"

definition process_tun_tcp_session_segment_with_relay_plan :: "(nat \<Rightarrow> instant) \<Rightarrow> tun_tcp_segment
    \<Rightarrow> 'r tcp_session_relay \<Rightarrow> tun_packet_relay_plan option \<Rightarrow> u32 \<Rightarrow> u16
    \<Rightarrow> ('r, tun_tcp_session_step) step_op" where
  "process_tun_tcp_session_segment_with_relay_plan clk segment relay relay_plan
       server_initial_sequence_number window_size =
     (if seg_rst segment \<or> seg_fin segment then step_close clk relay segment
      else if is_initial_tcp_syn_segment segment
      then step_syn clk segment server_initial_sequence_number window_size
      else
        sbind (step_establish clk relay relay_plan segment) (\<lambda>established.
        step_client_payload clk relay segment
        (case established of
           None \<Rightarrow> step_pure_ack clk relay segment (step_unknown segment)
         | Some session \<Rightarrow> ret (StepEstablished session))))"

definition process_tun_tcp_session_segment :: "(nat \<Rightarrow> instant) \<Rightarrow> tun_tcp_segment
    \<Rightarrow> 'r tcp_session_relay \<Rightarrow> u32 \<Rightarrow> u16 \<Rightarrow> ('r, tun_tcp_session_step) step_op" where
  "process_tun_tcp_session_segment clk segment relay server_initial_sequence_number window_size =
     process_tun_tcp_session_segment_with_relay_plan clk segment relay None
       server_initial_sequence_number window_size"

section \<open>Pruning with the relay\<close>

record tun_tcp_session_prune_report =
  pr_pruned_sessions :: usize
  pr_pruned_server_closed_sessions :: usize
  pr_pruned_post_closed_sessions :: usize
  pr_close_errors :: usize
  pr_last_close_error :: "tun_tcp_session_error option"

text \<open>The loop over the pruned sessions; a relay method that panics ends it.\<close>

fun close_pruned :: "'r tcp_session_relay \<Rightarrow> tun_tcp_session_record list \<Rightarrow> tun_tcp_session_prune_report
    \<Rightarrow> ('r, string, tun_tcp_session_prune_report) op" where
  "close_pruned relay [] report = ret report"
| "close_pruned relay (session # rest) report = (\<lambda>r. case close_session relay session r of
      (Ok _, r') \<Rightarrow> close_pruned relay rest report r'
    | (Err error, r') \<Rightarrow> close_pruned relay rest
        (report\<lparr>pr_close_errors := pr_close_errors report + 1,
           pr_last_close_error := Some (SessionRelay error)\<rparr>) r'
    | (Panic, r') \<Rightarrow> (Panic, r'))"

definition prune_idle_tun_tcp_sessions :: "'r tcp_session_relay \<Rightarrow> instant \<Rightarrow> duration
    \<Rightarrow> (tun_tcp_session_table \<times> 'r, string, tun_tcp_session_prune_report) op" where
  "prune_idle_tun_tcp_sessions relay now idle_timeout = (\<lambda>(table, r).
     case prune_idle now idle_timeout table of (pruned_sessions, table') \<Rightarrow>
       on_snd (close_pruned relay pruned_sessions
         \<lparr>pr_pruned_sessions = length pruned_sessions,
          pr_pruned_server_closed_sessions =
            length (server_closed_sessions table) - length (server_closed_sessions table'),
          pr_pruned_post_closed_sessions =
            length (post_closed_sessions table) - length (post_closed_sessions table'),
          pr_close_errors = 0, pr_last_close_error = None\<rparr>) (table', r))"

end
