(* ===== verification/Keli_Tun_Summary.thy ===== *)
theory Keli_Tun_Summary
  imports Keli_Tun_Step
begin

text \<open>
  The events of the TUN packet loop and the summary it accumulates (\<open>TunPacketLoopEvent\<close> and
  \<open>TunPacketLoopSummary\<close> of \<open>keli-net-core/src/tun.rs\<close>). Counters are unbounded naturals: they count
  packets, and a \<open>usize\<close> does not overflow in any run. The lemmas show that every event is counted in
  exactly one place, and that the bounded histories are the most recent routes in order.
\<close>

section \<open>Responses and events\<close>

record tun_dns_hijack_plan =
  hp_flow :: tun_packet_flow
  hp_question :: dns_wire_question
  hp_response_source :: socket_addr
  hp_response_destination :: socket_addr

record tun_dns_hijack_response =
  hr_plan :: tun_dns_hijack_plan
  hr_dns_payload :: bytes
  hr_packet :: bytes
  hr_rcode :: u8

record tun_udp_relay_response =
  ur_plan :: tun_packet_relay_plan
  ur_relay_source :: socket_addr
  ur_relay_payload :: bytes
  ur_packet :: bytes

record tun_tcp_reset_response =
  rr_plan :: tun_packet_relay_plan
  rr_sequence_number :: u32
  rr_acknowledgment_number :: u32
  rr_packet :: bytes

datatype tun_packet_process_action =
    WritePacket tun_dns_hijack_response
  | WriteTcpReset tun_tcp_reset_response
  | RelayPlan tun_packet_relay_plan

datatype tun_udp_relay_error =
    UnsupportedRelayAction tun_packet_relay_action
  | UdpPacketError tun_packet_error
  | UdpResponsePacket tun_packet_error
  | PlanFlowMismatch tun_packet_flow tun_packet_flow
  | UdpRelayFailed string

datatype tun_packet_loop_event =
    NoPacket
  | WrotePacket tun_dns_hijack_response
  | WroteUdpRelayPacket tun_udp_relay_response
  | WroteTcpResetPacket tun_tcp_reset_response
  | TcpSession tun_packet_relay_plan tun_tcp_session_step usize
  | RelayEvent tun_packet_relay_plan
  | DropEvent tun_packet_relay_plan
  | UnsupportedEvent tun_packet_relay_plan
  | PacketError tun_packet_error
  | UdpRelayError tun_udp_relay_error
  | TcpSessionError tun_tcp_session_error

datatype tun_packet_loop_error = LoopRead string | LoopWrite string

datatype tun_packet_loop_exit_reason = ExitUnknown | ExitIdle | ExitStopRequested | ExitPacketLimitReached

fun exit_label :: "tun_packet_loop_exit_reason \<Rightarrow> string" where
  "exit_label ExitUnknown = ''unknown''"
| "exit_label ExitIdle = ''idle''"
| "exit_label ExitStopRequested = ''stop-requested''"
| "exit_label ExitPacketLimitReached = ''packet-limit-reached''"

section \<open>The summary\<close>

record tun_packet_loop_summary =
  idle_events :: usize
  stop_requested :: bool
  packet_limit_reached :: bool
  dns_responses_written :: usize
  udp_relay_responses_written :: usize
  tcp_resets_written :: usize
  relay_packets :: usize
  tcp_relay_plans :: usize
  udp_relay_plans :: usize
  last_relay_route_action :: "route_action option"
  last_relay_matched_rule :: "string option"
  dropped_packets :: usize
  last_dropped_flow :: "tun_packet_flow option"
  last_dropped_route_action :: "route_action option"
  last_dropped_matched_rule :: "string option"
  recent_dropped_routes :: "tun_packet_route_decision list"
  recent_dns_hijacked_routes :: "tun_packet_route_decision list"
  unsupported_packets :: usize
  last_unsupported_flow :: "tun_packet_flow option"
  last_unsupported_route_action :: "route_action option"
  last_unsupported_matched_rule :: "string option"
  packet_errors :: usize
  last_packet_error :: "tun_packet_error option"
  udp_relay_errors :: usize
  last_udp_relay_error :: "tun_udp_relay_error option"
  tcp_session_events :: usize
  tcp_session_packets_written :: usize
  tcp_max_active_sessions :: usize
  tcp_session_limit_rejections :: usize
  tcp_sessions_pruned :: usize
  tcp_server_closed_sessions_pruned :: usize
  tcp_post_closed_sessions_pruned :: usize
  tcp_server_close_marker_resets :: usize
  tcp_post_close_marker_resets :: usize
  tcp_sessions_open :: usize
  tcp_server_close_markers_open :: usize
  tcp_post_close_markers_open :: usize
  tcp_sessions_peak :: usize
  tcp_server_close_markers_peak :: usize
  tcp_post_close_markers_peak :: usize
  tcp_session_errors :: usize
  last_tcp_session_error :: "tun_tcp_session_error option"

definition summary_default :: tun_packet_loop_summary where
  "summary_default = \<lparr>idle_events = 0, stop_requested = False, packet_limit_reached = False,
     dns_responses_written = 0, udp_relay_responses_written = 0, tcp_resets_written = 0,
     relay_packets = 0, tcp_relay_plans = 0, udp_relay_plans = 0, last_relay_route_action = None,
     last_relay_matched_rule = None, dropped_packets = 0, last_dropped_flow = None,
     last_dropped_route_action = None, last_dropped_matched_rule = None, recent_dropped_routes = [],
     recent_dns_hijacked_routes = [], unsupported_packets = 0, last_unsupported_flow = None,
     last_unsupported_route_action = None, last_unsupported_matched_rule = None, packet_errors = 0,
     last_packet_error = None, udp_relay_errors = 0, last_udp_relay_error = None,
     tcp_session_events = 0, tcp_session_packets_written = 0, tcp_max_active_sessions = 0,
     tcp_session_limit_rejections = 0, tcp_sessions_pruned = 0, tcp_server_closed_sessions_pruned = 0,
     tcp_post_closed_sessions_pruned = 0, tcp_server_close_marker_resets = 0,
     tcp_post_close_marker_resets = 0, tcp_sessions_open = 0, tcp_server_close_markers_open = 0,
     tcp_post_close_markers_open = 0, tcp_sessions_peak = 0, tcp_server_close_markers_peak = 0,
     tcp_post_close_markers_peak = 0, tcp_session_errors = 0, last_tcp_session_error = None\<rparr>"

abbreviation dropped_route_history_limit :: usize where
  "dropped_route_history_limit \<equiv> 256"

abbreviation dns_hijack_route_history_limit :: usize where
  "dns_hijack_route_history_limit \<equiv> 256"

definition record_dropped_route :: "tun_packet_route_decision \<Rightarrow> tun_packet_loop_summary \<Rightarrow> tun_packet_loop_summary" where
  "record_dropped_route route s = s\<lparr>
     last_dropped_flow := Some (rd_flow route),
     last_dropped_route_action := Some (rd_action route),
     last_dropped_matched_rule := rd_matched_rule route,
     recent_dropped_routes := push_bounded dropped_route_history_limit route (recent_dropped_routes s)\<rparr>"

definition hijacked_route :: "tun_dns_hijack_plan \<Rightarrow> tun_packet_route_decision" where
  "hijacked_route plan = \<lparr>rd_flow = hp_flow plan, rd_action = HijackDns, rd_matched_rule = None,
     rd_dns_hijacked = True\<rparr>"

definition record_dns_hijacked_route :: "tun_dns_hijack_plan \<Rightarrow> tun_packet_loop_summary \<Rightarrow> tun_packet_loop_summary" where
  "record_dns_hijacked_route plan s = s\<lparr>recent_dns_hijacked_routes :=
     push_bounded dns_hijack_route_history_limit (hijacked_route plan) (recent_dns_hijacked_routes s)\<rparr>"

fun is_tcp_relay :: "tun_packet_relay_action \<Rightarrow> bool" where
  "is_tcp_relay (DirectTcp target) = True"
| "is_tcp_relay (OutboundTcp tag target) = True"
| "is_tcp_relay _ = False"

fun is_udp_relay :: "tun_packet_relay_action \<Rightarrow> bool" where
  "is_udp_relay (DirectUdp target) = True"
| "is_udp_relay (OutboundUdp tag target) = True"
| "is_udp_relay _ = False"

definition record_last_relay :: "tun_packet_relay_plan \<Rightarrow> tun_packet_loop_summary \<Rightarrow> tun_packet_loop_summary" where
  "record_last_relay plan s = s\<lparr>last_relay_route_action := Some (rd_action (plan_route plan)),
     last_relay_matched_rule := rd_matched_rule (plan_route plan)\<rparr>"

definition count_tcp_relay_plan :: "tun_packet_relay_plan \<Rightarrow> tun_packet_loop_summary \<Rightarrow> tun_packet_loop_summary" where
  "count_tcp_relay_plan plan s =
     (if is_tcp_relay (plan_relay_action plan) then s\<lparr>tcp_relay_plans := tcp_relay_plans s + 1\<rparr> else s)"

definition count_udp_relay_plan :: "tun_packet_relay_plan \<Rightarrow> tun_packet_loop_summary \<Rightarrow> tun_packet_loop_summary" where
  "count_udp_relay_plan plan s =
     (if is_udp_relay (plan_relay_action plan) then s\<lparr>udp_relay_plans := udp_relay_plans s + 1\<rparr> else s)"

fun count_marker_reset :: "tun_tcp_session_step \<Rightarrow> tun_packet_loop_summary \<Rightarrow> tun_packet_loop_summary" where
  "count_marker_reset (StepCloseMarkerReset session MarkerServerClose) s =
     s\<lparr>tcp_server_close_marker_resets := tcp_server_close_marker_resets s + 1\<rparr>"
| "count_marker_reset (StepCloseMarkerReset session MarkerPostClose) s =
     s\<lparr>tcp_post_close_marker_resets := tcp_post_close_marker_resets s + 1\<rparr>"
| "count_marker_reset _ s = s"

fun record_event :: "tun_packet_loop_event \<Rightarrow> tun_packet_loop_summary \<Rightarrow> tun_packet_loop_summary" where
  "record_event NoPacket s = s\<lparr>idle_events := idle_events s + 1\<rparr>"
| "record_event (WrotePacket response) s = record_dns_hijacked_route (hr_plan response)
     (s\<lparr>dns_responses_written := dns_responses_written s + 1\<rparr>)"
| "record_event (WroteUdpRelayPacket response) s = count_udp_relay_plan (ur_plan response)
     (record_last_relay (ur_plan response)
       (s\<lparr>udp_relay_responses_written := udp_relay_responses_written s + 1\<rparr>))"
| "record_event (WroteTcpResetPacket response) s = s\<lparr>tcp_resets_written := tcp_resets_written s + 1\<rparr>"
| "record_event (TcpSession plan step packets_written) s =
     count_marker_reset step (count_tcp_relay_plan plan (record_last_relay plan
       (s\<lparr>tcp_session_events := tcp_session_events s + 1,
          tcp_session_packets_written := tcp_session_packets_written s + packets_written\<rparr>)))"
| "record_event (RelayEvent plan) s = count_udp_relay_plan plan (count_tcp_relay_plan plan
     (record_last_relay plan (s\<lparr>relay_packets := relay_packets s + 1\<rparr>)))"
| "record_event (DropEvent plan) s = record_dropped_route (plan_route plan)
     (s\<lparr>dropped_packets := dropped_packets s + 1\<rparr>)"
| "record_event (UnsupportedEvent plan) s = s\<lparr>
     unsupported_packets := unsupported_packets s + 1,
     last_unsupported_flow := Some (rd_flow (plan_route plan)),
     last_unsupported_route_action := Some (rd_action (plan_route plan)),
     last_unsupported_matched_rule := rd_matched_rule (plan_route plan)\<rparr>"
| "record_event (PacketError error) s =
     s\<lparr>packet_errors := packet_errors s + 1, last_packet_error := Some error\<rparr>"
| "record_event (UdpRelayError error) s =
     s\<lparr>udp_relay_errors := udp_relay_errors s + 1, last_udp_relay_error := Some error\<rparr>"
| "record_event (TcpSessionError error) s =
     (let s' = s\<lparr>tcp_session_errors := tcp_session_errors s + 1\<rparr>;
          s'' = (if is_session_limit_exceeded error
                 then s'\<lparr>tcp_session_limit_rejections := tcp_session_limit_rejections s' + 1\<rparr> else s')
      in s''\<lparr>last_tcp_session_error := Some error\<rparr>)"

definition from_events :: "tun_packet_loop_event list \<Rightarrow> tun_packet_loop_summary" where
  "from_events events = fold record_event events summary_default"

definition record_tcp_session_prune_report :: "tun_tcp_session_prune_report \<Rightarrow> tun_packet_loop_summary
    \<Rightarrow> tun_packet_loop_summary" where
  "record_tcp_session_prune_report report s =
     (let s' = s\<lparr>
        tcp_sessions_pruned := tcp_sessions_pruned s + pr_pruned_sessions report,
        tcp_server_closed_sessions_pruned :=
          tcp_server_closed_sessions_pruned s + pr_pruned_server_closed_sessions report,
        tcp_post_closed_sessions_pruned :=
          tcp_post_closed_sessions_pruned s + pr_pruned_post_closed_sessions report,
        tcp_session_errors := tcp_session_errors s + pr_close_errors report\<rparr>
      in case pr_last_close_error report of
           Some error \<Rightarrow> s'\<lparr>last_tcp_session_error := Some error\<rparr>
         | None \<Rightarrow> s')"

definition record_stop_requested :: "tun_packet_loop_summary \<Rightarrow> tun_packet_loop_summary" where
  "record_stop_requested s = s\<lparr>stop_requested := True\<rparr>"

definition record_packet_limit_reached :: "tun_packet_loop_summary \<Rightarrow> tun_packet_loop_summary" where
  "record_packet_limit_reached s = s\<lparr>packet_limit_reached := True\<rparr>"

definition record_tcp_session_table_state :: "tun_tcp_session_table \<Rightarrow> tun_packet_loop_summary
    \<Rightarrow> tun_packet_loop_summary" where
  "record_tcp_session_table_state table s =
     (let state = state_counts table in s\<lparr>
        tcp_max_active_sessions := st_max_active_sessions state,
        tcp_sessions_open := st_active_sessions state,
        tcp_server_close_markers_open := st_server_close_markers state,
        tcp_post_close_markers_open := st_post_close_markers state,
        tcp_sessions_peak := max (tcp_sessions_peak s) (st_active_sessions state),
        tcp_server_close_markers_peak :=
          max (tcp_server_close_markers_peak s) (st_server_close_markers state),
        tcp_post_close_markers_peak :=
          max (tcp_post_close_markers_peak s) (st_post_close_markers state)\<rparr>)"

definition exit_reason :: "tun_packet_loop_summary \<Rightarrow> tun_packet_loop_exit_reason" where
  "exit_reason s =
     (if stop_requested s then ExitStopRequested
      else if packet_limit_reached s then ExitPacketLimitReached
      else if idle_events s > 0 then ExitIdle
      else ExitUnknown)"

definition exit_reason_label :: "tun_packet_loop_summary \<Rightarrow> string" where
  "exit_reason_label s = exit_label (exit_reason s)"

definition processed_packets :: "tun_packet_loop_summary \<Rightarrow> usize" where
  "processed_packets s = dns_responses_written s + udp_relay_responses_written s + tcp_resets_written s
     + tcp_session_events s + relay_packets s + dropped_packets s + unsupported_packets s
     + packet_errors s + udp_relay_errors s + tcp_session_errors s"

section \<open>What a summary says about the events\<close>

lemmas record_defs = record_dns_hijacked_route_def count_udp_relay_plan_def count_tcp_relay_plan_def
  record_last_relay_def record_dropped_route_def

lemma count_marker_reset_frame [simp]:
  "processed_packets (count_marker_reset step s) = processed_packets s"
  "idle_events (count_marker_reset step s) = idle_events s"
  "recent_dropped_routes (count_marker_reset step s) = recent_dropped_routes s"
  "recent_dns_hijacked_routes (count_marker_reset step s) = recent_dns_hijacked_routes s"
  "stop_requested (count_marker_reset step s) = stop_requested s"
  "packet_limit_reached (count_marker_reset step s) = packet_limit_reached s"
  by (induction step s rule: count_marker_reset.induct) (simp_all add: processed_packets_def)

lemma record_event_counts:
  "processed_packets (record_event e s) = (if e = NoPacket then processed_packets s else Suc (processed_packets s))"
  "idle_events (record_event e s) = (if e = NoPacket then Suc (idle_events s) else idle_events s)"
  by (cases e; simp add: record_defs; simp add: processed_packets_def Let_def)+

lemma fold_record_counts:
  "processed_packets (fold record_event es s) = processed_packets s + length (filter (\<lambda>e. e \<noteq> NoPacket) es)"
  "idle_events (fold record_event es s) = idle_events s + length (filter (\<lambda>e. e = NoPacket) es)"
  by (induction es arbitrary: s) (simp_all add: record_event_counts)

lemma record_event_flags [simp]:
  "stop_requested (record_event e s) = stop_requested s"
  "packet_limit_reached (record_event e s) = packet_limit_reached s"
  by (cases e; simp add: record_defs Let_def)+

lemma fold_record_flags [simp]:
  "stop_requested (fold record_event es s) = stop_requested s"
  "packet_limit_reached (fold record_event es s) = packet_limit_reached s"
  by (induction es arbitrary: s) simp_all

lemma summary_default_counts [simp]:
  "processed_packets summary_default = 0" "idle_events summary_default = 0"
  "stop_requested summary_default = False" "packet_limit_reached summary_default = False"
  by (simp_all add: summary_default_def processed_packets_def)

text \<open>Every event of a run is counted in exactly one of the counters that \<open>processed_packets\<close> adds
  up, or as an idle event: the packets a summary reports are the packets the run has handled.\<close>

theorem summary_counts_events:
  "processed_packets (from_events es) = length (filter (\<lambda>e. e \<noteq> NoPacket) es)
   \<and> idle_events (from_events es) = length (filter (\<lambda>e. e = NoPacket) es)"
  by (simp add: from_events_def fold_record_counts)

text \<open>The abstract history keeps every route; the summary keeps its most recent part.\<close>

fun dropped_route :: "tun_packet_loop_event \<Rightarrow> tun_packet_route_decision option" where
  "dropped_route (DropEvent plan) = Some (plan_route plan)"
| "dropped_route _ = None"

fun answered_route :: "tun_packet_loop_event \<Rightarrow> tun_packet_route_decision option" where
  "answered_route (WrotePacket response) = Some (hijacked_route (hr_plan response))"
| "answered_route _ = None"

lemma record_event_histories:
  "recent_dropped_routes (record_event e s) = (case dropped_route e of
     Some route \<Rightarrow> push_bounded dropped_route_history_limit route (recent_dropped_routes s)
   | None \<Rightarrow> recent_dropped_routes s)"
  "recent_dns_hijacked_routes (record_event e s) = (case answered_route e of
     Some route \<Rightarrow> push_bounded dns_hijack_route_history_limit route (recent_dns_hijacked_routes s)
   | None \<Rightarrow> recent_dns_hijacked_routes s)"
  by (cases e; simp add: record_defs Let_def)+

lemma fold_record_histories:
  "recent_dropped_routes s = most_recent dropped_route_history_limit xs \<Longrightarrow>
    recent_dropped_routes (fold record_event es s)
      = most_recent dropped_route_history_limit (xs @ List.map_filter dropped_route es)"
  "recent_dns_hijacked_routes s = most_recent dns_hijack_route_history_limit xs \<Longrightarrow>
    recent_dns_hijacked_routes (fold record_event es s)
      = most_recent dns_hijack_route_history_limit (xs @ List.map_filter answered_route es)"
proof (induction es arbitrary: s xs)
  case (Cons e es)
  { case 1
    then show ?case
      using Cons.IH(1) [of "record_event e s" "case dropped_route e of None \<Rightarrow> xs | Some r \<Rightarrow> xs @ [r]"]
      by (simp add: record_event_histories push_most_recent List.map_filter_simps split: option.splits)
  next
    case 2
    then show ?case
      using Cons.IH(2) [of "record_event e s" "case answered_route e of None \<Rightarrow> xs | Some r \<Rightarrow> xs @ [r]"]
      by (simp add: record_event_histories push_most_recent List.map_filter_simps split: option.splits)
  }
qed (simp_all add: List.map_filter_simps)

text \<open>The histories of a summary refine the unbounded ones: after any sequence of events they hold
  the last 256 dropped routes and the last 256 hijacked queries, in the order of the events.\<close>

theorem histories_are_recent:
  "recent_dropped_routes (from_events es) = most_recent 256 (List.map_filter dropped_route es)
   \<and> recent_dns_hijacked_routes (from_events es) = most_recent 256 (List.map_filter answered_route es)"
  using fold_record_histories [of summary_default "[]" es]
  by (simp add: from_events_def summary_default_def most_recent_def)

end
