(* ===== verification/Keli_Tun_Loop.thy ===== *)
theory Keli_Tun_Loop
  imports Keli_Tun_Summary
begin

text \<open>
  The TUN packet loop (\<open>keli-net-core/src/tun.rs\<close>): the route decision and the relay plan of a packet,
  the answer to a hijacked DNS query, the relay of a UDP datagram, one iteration on the device in its
  four variants, and the loops. The device, the UDP relay, the TCP relay and the DNS resolver are the
  trait parameters of the code: operations on states of their own.
\<close>

section \<open>Route decision and relay plan\<close>

definition decide_tun_packet_route :: "bytes \<Rightarrow> route_engine \<Rightarrow> bool
    \<Rightarrow> (tun_packet_error, tun_packet_route_decision) outcome" where
  "decide_tun_packet_route packet routes dns_hijack_enabled =
     obind (parse_tun_packet_flow packet) (\<lambda>flow.
     if dns_hijack_enabled \<and> is_dns_hijack_candidate flow
     then Ok \<lparr>rd_flow = flow, rd_action = HijackDns, rd_matched_rule = None, rd_dns_hijacked = True\<rparr>
     else
       (let decision = decide_destination routes (flow_route_destination flow)
        in Ok \<lparr>rd_flow = flow, rd_action = decision_action decision,
               rd_matched_rule = decision_matched_rule decision, rd_dns_hijacked = False\<rparr>))"

definition tun_relay_action_for_transport :: "tun_packet_flow \<Rightarrow> string option \<Rightarrow> tun_packet_relay_action" where
  "tun_relay_action_for_transport flow outbound_tag = (case destination_outbound_target flow of
      None \<Rightarrow> UnsupportedTransport (flow_protocol flow)
    | Some target \<Rightarrow> (case (flow_protocol flow, outbound_tag) of
          (Tcp, Some tag) \<Rightarrow> OutboundTcp tag target
        | (Udp, Some tag) \<Rightarrow> OutboundUdp tag target
        | (Tcp, None) \<Rightarrow> DirectTcp target
        | (Udp, None) \<Rightarrow> DirectUdp target
        | (protocol, _) \<Rightarrow> UnsupportedTransport protocol))"

definition plan_tun_packet_relay :: "bytes \<Rightarrow> route_engine \<Rightarrow> bool
    \<Rightarrow> (tun_packet_error, tun_packet_relay_plan) outcome" where
  "plan_tun_packet_relay packet routes dns_hijack_enabled =
     obind (decide_tun_packet_route packet routes dns_hijack_enabled) (\<lambda>route.
     let relay_action = (case rd_action route of
             Block \<Rightarrow> RelayDrop
           | HijackDns \<Rightarrow> RelayHijackDns
           | Direct \<Rightarrow> tun_relay_action_for_transport (rd_flow route) None
           | Outbound tag \<Rightarrow> tun_relay_action_for_transport (rd_flow route) (Some tag))
     in Ok \<lparr>plan_route = route, plan_relay_action = relay_action\<rparr>)"

section \<open>Hijacked DNS queries\<close>

definition plan_tun_dns_hijack :: "bytes \<Rightarrow> (tun_packet_error, tun_dns_hijack_plan) outcome" where
  "plan_tun_dns_hijack packet =
     obind (parse_tun_udp_payload packet) (\<lambda>udp.
     if \<not> is_dns_hijack_candidate (udp_flow udp)
     then Err (NotDnsHijackCandidate (flow_destination_port (udp_flow udp)))
     else
       obind (map_err DnsWire (parse_dns_query (udp_payload udp))) (\<lambda>question.
       obind (ok_or (destination_socket_addr (udp_flow udp)) MissingUdpSocketAddress) (\<lambda>response_source.
       obind (ok_or (source_socket_addr (udp_flow udp)) MissingUdpSocketAddress) (\<lambda>response_destination.
       Ok \<lparr>hp_flow = udp_flow udp, hp_question = question, hp_response_source = response_source,
           hp_response_destination = response_destination\<rparr>))))"

definition build_tun_dns_response_packet :: "tun_dns_hijack_plan \<Rightarrow> bytes \<Rightarrow> (tun_packet_error, bytes) outcome" where
  "build_tun_dns_response_packet plan payload = build_tun_udp_response_packet (hp_flow plan) payload"

definition build_tun_dns_hijack_payload :: "'n resolver \<Rightarrow> instant \<Rightarrow> tun_dns_hijack_plan \<Rightarrow> u32
    \<Rightarrow> ('n dns_engine, tun_packet_error, bytes \<times> u8) op" where
  "build_tun_dns_hijack_payload res now plan ttl_seconds = (\<lambda>dns.
     case q_type (hp_question plan) of
       QUnsupported code \<Rightarrow> (Ok (build_dns_error_response (hp_question plan) 4, 4), dns)
     | _ \<Rightarrow> (case dns_resolve res (q_name (hp_question plan)) 0 now dns of
           (Ok addresses, dns') \<Rightarrow>
             (Ok (build_dns_response (hp_question plan) (map ra_ip addresses) ttl_seconds, 0), dns')
         | (Err (LocalResolutionBlocked host policy), dns') \<Rightarrow>
             (Ok (build_dns_error_response (hp_question plan) 3, 3), dns')
         | (Err (AddressFamilyFiltered host policy), dns') \<Rightarrow>
             (Ok (build_dns_error_response (hp_question plan) 3, 3), dns')
         | (Err (NoRecords host), dns') \<Rightarrow> (Ok (build_dns_error_response (hp_question plan) 3, 3), dns')
         | (Err error, dns') \<Rightarrow> (Err (DnsResolve error), dns')
         | (Panic, dns') \<Rightarrow> (Panic, dns')))"

definition build_tun_dns_hijack_response :: "'n resolver \<Rightarrow> instant \<Rightarrow> bytes \<Rightarrow> u32
    \<Rightarrow> ('n dns_engine, tun_packet_error, tun_dns_hijack_response) op" where
  "build_tun_dns_hijack_response res now packet ttl_seconds =
     sbind (lift (plan_tun_dns_hijack packet)) (\<lambda>plan.
     sbind (build_tun_dns_hijack_payload res now plan ttl_seconds) (\<lambda>(dns_payload, rcode).
     sbind (lift (build_tun_dns_response_packet plan dns_payload)) (\<lambda>response_packet.
     ret \<lparr>hr_plan = plan, hr_dns_payload = dns_payload, hr_packet = response_packet, hr_rcode = rcode\<rparr>)))"

section \<open>Processing one packet\<close>

definition build_tun_tcp_reset_response :: "tun_packet_relay_plan \<Rightarrow> tun_tcp_segment
    \<Rightarrow> (tun_packet_error, tun_tcp_reset_response) outcome" where
  "build_tun_tcp_reset_response plan segment =
     obind (build_tun_tcp_response_packet (seg_flow segment) (tcp_reset_sequence_number segment)
       (tcp_reset_acknowledgment_number segment) (flags_from_bits 0x0014) 0 []) (\<lambda>packet.
     Ok \<lparr>rr_plan = plan, rr_sequence_number = tcp_reset_sequence_number segment,
         rr_acknowledgment_number = tcp_reset_acknowledgment_number segment, rr_packet = packet\<rparr>)"

definition process_tun_packet :: "'n resolver \<Rightarrow> instant \<Rightarrow> bytes \<Rightarrow> route_engine \<Rightarrow> bool \<Rightarrow> u32
    \<Rightarrow> ('n dns_engine, tun_packet_error, tun_packet_process_action) op" where
  "process_tun_packet res now packet routes dns_hijack_enabled dns_ttl_seconds =
     sbind (lift (plan_tun_packet_relay packet routes dns_hijack_enabled)) (\<lambda>relay_plan.
     if plan_relay_action relay_plan = RelayHijackDns
     then sbind (build_tun_dns_hijack_response res now packet dns_ttl_seconds) (\<lambda>response.
       ret (WritePacket response))
     else if plan_relay_action relay_plan = RelayDrop \<and> flow_protocol (rd_flow (plan_route relay_plan)) = Tcp
     then sbind (lift (parse_tun_tcp_segment packet)) (\<lambda>segment.
       if \<not> seg_rst segment
       then sbind (lift (build_tun_tcp_reset_response relay_plan segment)) (\<lambda>response.
         ret (WriteTcpReset response))
       else ret (RelayPlan relay_plan))
     else ret (RelayPlan relay_plan))"

definition loop_event_for_relay_plan :: "tun_packet_relay_plan \<Rightarrow> tun_packet_loop_event" where
  "loop_event_for_relay_plan plan = (case plan_relay_action plan of
      RelayDrop \<Rightarrow> DropEvent plan
    | UnsupportedTransport protocol \<Rightarrow> UnsupportedEvent plan
    | _ \<Rightarrow> RelayEvent plan)"

section \<open>Devices and UDP relays\<close>

record 'd tun_packet_device =
  read_packet :: "('d, string, bytes option) op"
  write_packet :: "bytes \<Rightarrow> ('d, string, unit) op"

record 'u tun_udp_relay =
  relay_udp_datagram :: "outbound_target \<Rightarrow> bytes \<Rightarrow> ('u, string, udp_relay_response) op"
  relay_outbound_udp_datagram :: "string \<Rightarrow> outbound_target \<Rightarrow> bytes \<Rightarrow> ('u, string, udp_relay_response) op"

text \<open>The trait's default for outbounds.\<close>

definition default_udp_relay :: "(outbound_target \<Rightarrow> bytes \<Rightarrow> ('u, string, udp_relay_response) op)
    \<Rightarrow> 'u tun_udp_relay" where
  "default_udp_relay direct = \<lparr>relay_udp_datagram = direct,
     relay_outbound_udp_datagram = (\<lambda>tag target payload.
       lift (Err (''outbound UDP relay is unsupported for tag: '' @ tag)))\<rparr>"

definition relay_tun_udp_packet :: "'u tun_udp_relay \<Rightarrow> bytes \<Rightarrow> tun_packet_relay_plan
    \<Rightarrow> ('u, tun_udp_relay_error, tun_udp_relay_response) op" where
  "relay_tun_udp_packet udp_relay packet plan =
     sbind (lift (map_err UdpPacketError (parse_tun_udp_payload packet))) (\<lambda>udp.
     if udp_flow udp \<noteq> rd_flow (plan_route plan)
     then lift (Err (PlanFlowMismatch (udp_flow udp) (rd_flow (plan_route plan))))
     else
       sbind (case plan_relay_action plan of
           DirectUdp target \<Rightarrow>
             with_err UdpRelayFailed (relay_udp_datagram udp_relay target (udp_payload udp))
         | OutboundUdp tag target \<Rightarrow>
             with_err UdpRelayFailed (relay_outbound_udp_datagram udp_relay tag target (udp_payload udp))
         | action \<Rightarrow> lift (Err (UnsupportedRelayAction action))) (\<lambda>relay_response.
       sbind (lift (map_err UdpResponsePacket
         (build_tun_udp_response_packet (udp_flow udp) (rs_payload relay_response)))) (\<lambda>response_packet.
       ret \<lparr>ur_plan = plan, ur_relay_source = rs_source relay_response,
           ur_relay_payload = rs_payload relay_response, ur_packet = response_packet\<rparr>)))"

definition relay_tun_direct_udp_packet :: "'u tun_udp_relay \<Rightarrow> bytes \<Rightarrow> tun_packet_relay_plan
    \<Rightarrow> ('u, tun_udp_relay_error, tun_udp_relay_response) op" where
  "relay_tun_direct_udp_packet udp_relay packet plan = (case plan_relay_action plan of
      DirectUdp target \<Rightarrow> relay_tun_udp_packet udp_relay packet plan
    | action \<Rightarrow> lift (Err (UnsupportedRelayAction action)))"

section \<open>One iteration\<close>

text \<open>The mutable arguments of an iteration together; a variant without a relay leaves it alone.\<close>

record ('d, 'n, 'u, 't) tun_world =
  wd_device :: 'd
  wd_dns :: "'n dns_engine"
  wd_udp :: 'u
  wd_sessions :: tun_tcp_session_table
  wd_tcp :: 't

definition on_device :: "('d, 'e, 'a) op \<Rightarrow> (('d, 'n, 'u, 't) tun_world, 'e, 'a) op" where
  "on_device m = (\<lambda>w. case m (wd_device w) of (r, d) \<Rightarrow> (r, w\<lparr>wd_device := d\<rparr>))"

definition on_dns :: "('n dns_engine, 'e, 'a) op \<Rightarrow> (('d, 'n, 'u, 't) tun_world, 'e, 'a) op" where
  "on_dns m = (\<lambda>w. case m (wd_dns w) of (r, n) \<Rightarrow> (r, w\<lparr>wd_dns := n\<rparr>))"

definition on_udp :: "('u, 'e, 'a) op \<Rightarrow> (('d, 'n, 'u, 't) tun_world, 'e, 'a) op" where
  "on_udp m = (\<lambda>w. case m (wd_udp w) of (r, u) \<Rightarrow> (r, w\<lparr>wd_udp := u\<rparr>))"

definition on_tcp :: "(tun_tcp_session_table \<times> 't, 'e, 'a) op \<Rightarrow> (('d, 'n, 'u, 't) tun_world, 'e, 'a) op" where
  "on_tcp m = (\<lambda>w. case m (wd_sessions w, wd_tcp w) of
     (r, (table, t)) \<Rightarrow> (r, w\<lparr>wd_sessions := table, wd_tcp := t\<rparr>))"

text \<open>\<open>match m { Ok(x) => f(x), Err(e) => return Ok(g(e)) }\<close>.\<close>

definition or_event :: "('s, 'e, 'a) op \<Rightarrow> ('e \<Rightarrow> 'b) \<Rightarrow> ('a \<Rightarrow> ('s, 'f, 'b) op) \<Rightarrow> ('s, 'f, 'b) op" where
  "or_event m g f = (\<lambda>s. case m s of
      (Ok x, s') \<Rightarrow> f x s'
    | (Err e, s') \<Rightarrow> (Ok (g e), s')
    | (Panic, s') \<Rightarrow> (Panic, s'))"

type_synonym ('d, 'n, 'u, 't, 'a) world_op = "(('d, 'n, 'u, 't) tun_world, tun_packet_loop_error, 'a) op"

record 'n tun_loop_config =
  lc_routes :: route_engine
  lc_dns_hijack_enabled :: bool
  lc_resolver :: "'n resolver"
  lc_dns_ttl_seconds :: u32

definition write_to_device :: "'d tun_packet_device \<Rightarrow> bytes \<Rightarrow> ('d, 'n, 'u, 't, unit) world_op" where
  "write_to_device device packet = on_device (with_err LoopWrite (write_packet device packet))"

text \<open>What the four variants share: reading, processing, and writing the immediate answers. They differ
  in what they do with a packet to be relayed, \<open>relay\<close>. \<open>clk 30\<close> is the clock reading of the resolver.\<close>

definition handle_device_packet :: "'d tun_packet_device \<Rightarrow> 'n tun_loop_config \<Rightarrow> (nat \<Rightarrow> instant)
    \<Rightarrow> (bytes \<Rightarrow> tun_packet_relay_plan \<Rightarrow> ('d, 'n, 'u, 't, tun_packet_loop_event) world_op)
    \<Rightarrow> ('d, 'n, 'u, 't, tun_packet_loop_event) world_op" where
  "handle_device_packet device config clk relay =
     sbind (on_device (with_err LoopRead (read_packet device))) (\<lambda>r. case r of
       None \<Rightarrow> ret NoPacket
     | Some packet \<Rightarrow>
         or_event (on_dns (process_tun_packet (lc_resolver config) (clk 30) packet (lc_routes config)
             (lc_dns_hijack_enabled config) (lc_dns_ttl_seconds config)))
           PacketError
           (\<lambda>action. case action of
              WritePacket response \<Rightarrow>
                sbind (write_to_device device (hr_packet response)) (\<lambda>_. ret (WrotePacket response))
            | WriteTcpReset response \<Rightarrow>
                sbind (write_to_device device (rr_packet response)) (\<lambda>_. ret (WroteTcpResetPacket response))
            | RelayPlan plan \<Rightarrow> relay packet plan))"

fun write_all_to_device :: "'d tun_packet_device \<Rightarrow> bytes list \<Rightarrow> ('d, 'n, 'u, 't, unit) world_op" where
  "write_all_to_device device [] = ret ()"
| "write_all_to_device device (packet # packets) =
     sbind (write_to_device device packet) (\<lambda>_. write_all_to_device device packets)"

definition relay_udp_plan :: "'d tun_packet_device \<Rightarrow> 'u tun_udp_relay \<Rightarrow> bytes \<Rightarrow> tun_packet_relay_plan
    \<Rightarrow> ('d, 'n, 'u, 't, tun_packet_loop_event) world_op" where
  "relay_udp_plan device udp_relay packet plan =
     or_event (on_udp (relay_tun_udp_packet udp_relay packet plan)) UdpRelayError (\<lambda>response.
     sbind (write_to_device device (ur_packet response)) (\<lambda>_. ret (WroteUdpRelayPacket response)))"

definition relay_tcp_plan :: "'d tun_packet_device \<Rightarrow> (nat \<Rightarrow> instant) \<Rightarrow> 't tcp_session_relay \<Rightarrow> u32 \<Rightarrow> u16
    \<Rightarrow> bytes \<Rightarrow> tun_packet_relay_plan \<Rightarrow> ('d, 'n, 'u, 't, tun_packet_loop_event) world_op" where
  "relay_tcp_plan device clk tcp_relay server_initial_sequence_number window_size packet plan =
     or_event (lift (parse_tun_tcp_segment packet)) PacketError (\<lambda>segment.
     or_event (on_tcp (process_tun_tcp_session_segment_with_relay_plan clk segment tcp_relay (Some plan)
         server_initial_sequence_number window_size)) TcpSessionError (\<lambda>step.
     sbind (write_all_to_device device (response_packets step)) (\<lambda>_.
     ret (TcpSession plan step (length (response_packets step))))))"

definition process_tun_device_packet :: "'d tun_packet_device \<Rightarrow> 'n tun_loop_config \<Rightarrow> (nat \<Rightarrow> instant)
    \<Rightarrow> ('d, 'n, 'u, 't, tun_packet_loop_event) world_op" where
  "process_tun_device_packet device config clk =
     handle_device_packet device config clk (\<lambda>packet plan. ret (loop_event_for_relay_plan plan))"

definition process_tun_device_packet_with_udp_relay :: "'d tun_packet_device \<Rightarrow> 'n tun_loop_config
    \<Rightarrow> (nat \<Rightarrow> instant) \<Rightarrow> 'u tun_udp_relay \<Rightarrow> ('d, 'n, 'u, 't, tun_packet_loop_event) world_op" where
  "process_tun_device_packet_with_udp_relay device config clk udp_relay =
     handle_device_packet device config clk (\<lambda>packet plan.
       if is_udp_relay (plan_relay_action plan) then relay_udp_plan device udp_relay packet plan
       else ret (loop_event_for_relay_plan plan))"

definition process_tun_device_packet_with_tcp_session_relay :: "'d tun_packet_device \<Rightarrow> 'n tun_loop_config
    \<Rightarrow> (nat \<Rightarrow> instant) \<Rightarrow> 't tcp_session_relay \<Rightarrow> u32 \<Rightarrow> u16
    \<Rightarrow> ('d, 'n, 'u, 't, tun_packet_loop_event) world_op" where
  "process_tun_device_packet_with_tcp_session_relay device config clk tcp_relay
       server_initial_sequence_number window_size =
     handle_device_packet device config clk (\<lambda>packet plan.
       if \<not> is_tcp_relay (plan_relay_action plan) then ret (loop_event_for_relay_plan plan)
       else relay_tcp_plan device clk tcp_relay server_initial_sequence_number window_size packet plan)"

definition process_tun_device_packet_with_relays :: "'d tun_packet_device \<Rightarrow> 'n tun_loop_config
    \<Rightarrow> (nat \<Rightarrow> instant) \<Rightarrow> 'u tun_udp_relay \<Rightarrow> 't tcp_session_relay \<Rightarrow> u32 \<Rightarrow> u16
    \<Rightarrow> ('d, 'n, 'u, 't, tun_packet_loop_event) world_op" where
  "process_tun_device_packet_with_relays device config clk udp_relay tcp_relay
       server_initial_sequence_number window_size =
     handle_device_packet device config clk (\<lambda>packet plan.
       if is_udp_relay (plan_relay_action plan) then relay_udp_plan device udp_relay packet plan
       else if is_tcp_relay (plan_relay_action plan)
       then relay_tcp_plan device clk tcp_relay server_initial_sequence_number window_size packet plan
       else ret (loop_event_for_relay_plan plan))"

section \<open>Loops\<close>

abbreviation default_tun_tcp_session_idle_timeout :: duration where
  "default_tun_tcp_session_idle_timeout \<equiv> 300000000000"

text \<open>
  \<open>for _ in 0..max_packets\<close> with the \<open>break\<close> on an idle device. The body of iteration \<open>i\<close> returns the
  event and the summary it has updated.
\<close>

fun event_loop :: "(nat \<Rightarrow> ('d, 'n, 'u, 't, tun_packet_loop_event) world_op) \<Rightarrow> nat \<Rightarrow> usize
    \<Rightarrow> tun_packet_loop_event list \<Rightarrow> ('d, 'n, 'u, 't, tun_packet_loop_event list) world_op" where
  "event_loop body i 0 events = ret events"
| "event_loop body i (Suc n) events = sbind (body i) (\<lambda>event.
     if event = NoPacket then ret (events @ [event])
     else event_loop body (i + 1) n (events @ [event]))"

fun summary_loop :: "(nat \<Rightarrow> tun_packet_loop_summary
      \<Rightarrow> ('d, 'n, 'u, 't, tun_packet_loop_event \<times> tun_packet_loop_summary) world_op)
    \<Rightarrow> nat \<Rightarrow> usize \<Rightarrow> tun_packet_loop_summary \<Rightarrow> ('d, 'n, 'u, 't, tun_packet_loop_summary) world_op" where
  "summary_loop body i 0 summary = ret (record_packet_limit_reached summary)"
| "summary_loop body i (Suc n) summary = sbind (body i summary) (\<lambda>(event, summary').
     if event = NoPacket then ret summary' else summary_loop body (i + 1) n summary')"

definition run_tun_packet_loop :: "'d tun_packet_device \<Rightarrow> 'n tun_loop_config \<Rightarrow> (nat \<Rightarrow> nat \<Rightarrow> instant)
    \<Rightarrow> usize \<Rightarrow> ('d, 'n, 'u, 't, tun_packet_loop_event list) world_op" where
  "run_tun_packet_loop device config clk max_packets =
     event_loop (\<lambda>i. process_tun_device_packet device config (clk i)) 0 max_packets []"

definition run_tun_packet_loop_summary :: "'d tun_packet_device \<Rightarrow> 'n tun_loop_config
    \<Rightarrow> (nat \<Rightarrow> nat \<Rightarrow> instant) \<Rightarrow> usize \<Rightarrow> ('d, 'n, 'u, 't, tun_packet_loop_summary) world_op" where
  "run_tun_packet_loop_summary device config clk max_packets =
     summary_loop (\<lambda>i summary. sbind (process_tun_device_packet device config (clk i)) (\<lambda>event.
       ret (event, record_event event summary))) 0 max_packets summary_default"

definition run_tun_packet_loop_with_udp_relay_summary :: "'d tun_packet_device \<Rightarrow> 'n tun_loop_config
    \<Rightarrow> (nat \<Rightarrow> nat \<Rightarrow> instant) \<Rightarrow> usize \<Rightarrow> 'u tun_udp_relay \<Rightarrow> ('d, 'n, 'u, 't, tun_packet_loop_summary) world_op" where
  "run_tun_packet_loop_with_udp_relay_summary device config clk max_packets udp_relay =
     summary_loop (\<lambda>i summary.
       sbind (process_tun_device_packet_with_udp_relay device config (clk i) udp_relay) (\<lambda>event.
       ret (event, record_event event summary))) 0 max_packets summary_default"

text \<open>The parts the loops with a session table have around an iteration. \<open>prune_idle_tun_tcp_sessions\<close>
  returns a report and no error, so only a panic of the relay ends the loop there.\<close>

definition prune_and_record :: "'t tcp_session_relay \<Rightarrow> instant \<Rightarrow> duration \<Rightarrow> tun_packet_loop_summary
    \<Rightarrow> ('d, 'n, 'u, 't, tun_packet_loop_summary) world_op" where
  "prune_and_record tcp_relay now session_idle_timeout summary =
     sbind (on_tcp (with_err LoopRead (prune_idle_tun_tcp_sessions tcp_relay now session_idle_timeout)))
       (\<lambda>report. ret (record_tcp_session_prune_report report summary))"

definition record_table_state :: "tun_packet_loop_summary \<Rightarrow> ('d, 'n, 'u, 't, tun_packet_loop_summary) world_op" where
  "record_table_state summary = (\<lambda>w. (Ok (record_tcp_session_table_state (wd_sessions w) summary), w))"

definition session_loop_body :: "(nat \<Rightarrow> ('d, 'n, 'u, 't, tun_packet_loop_event) world_op)
    \<Rightarrow> (nat \<Rightarrow> nat \<Rightarrow> instant) \<Rightarrow> 't tcp_session_relay \<Rightarrow> duration \<Rightarrow> nat \<Rightarrow> tun_packet_loop_summary
    \<Rightarrow> ('d, 'n, 'u, 't, tun_packet_loop_event \<times> tun_packet_loop_summary) world_op" where
  "session_loop_body iteration clk tcp_relay session_idle_timeout i summary =
     sbind (prune_and_record tcp_relay (clk i 31) session_idle_timeout summary) (\<lambda>summary'.
     sbind (iteration i) (\<lambda>event.
     sbind (record_table_state (record_event event summary')) (\<lambda>summary''.
     ret (event, summary''))))"

definition run_tun_packet_loop_with_tcp_session_relay_summary_with_idle_timeout ::
    "'d tun_packet_device \<Rightarrow> 'n tun_loop_config \<Rightarrow> (nat \<Rightarrow> nat \<Rightarrow> instant) \<Rightarrow> usize \<Rightarrow> 't tcp_session_relay
      \<Rightarrow> u32 \<Rightarrow> u16 \<Rightarrow> duration \<Rightarrow> ('d, 'n, 'u, 't, tun_packet_loop_summary) world_op" where
  "run_tun_packet_loop_with_tcp_session_relay_summary_with_idle_timeout device config clk max_packets
       tcp_relay server_initial_sequence_number window_size session_idle_timeout =
     sbind (summary_loop (session_loop_body
       (\<lambda>i. process_tun_device_packet_with_tcp_session_relay device config (clk i) tcp_relay
          server_initial_sequence_number window_size) clk tcp_relay session_idle_timeout)
       0 max_packets summary_default) record_table_state"

definition run_tun_packet_loop_with_tcp_session_relay_summary ::
    "'d tun_packet_device \<Rightarrow> 'n tun_loop_config \<Rightarrow> (nat \<Rightarrow> nat \<Rightarrow> instant) \<Rightarrow> usize \<Rightarrow> 't tcp_session_relay
      \<Rightarrow> u32 \<Rightarrow> u16 \<Rightarrow> ('d, 'n, 'u, 't, tun_packet_loop_summary) world_op" where
  "run_tun_packet_loop_with_tcp_session_relay_summary device config clk max_packets tcp_relay
       server_initial_sequence_number window_size =
     run_tun_packet_loop_with_tcp_session_relay_summary_with_idle_timeout device config clk max_packets
       tcp_relay server_initial_sequence_number window_size default_tun_tcp_session_idle_timeout"

definition run_tun_packet_loop_with_relays_summary_with_idle_timeout ::
    "'d tun_packet_device \<Rightarrow> 'n tun_loop_config \<Rightarrow> (nat \<Rightarrow> nat \<Rightarrow> instant) \<Rightarrow> usize \<Rightarrow> 'u tun_udp_relay
      \<Rightarrow> 't tcp_session_relay \<Rightarrow> u32 \<Rightarrow> u16 \<Rightarrow> duration \<Rightarrow> ('d, 'n, 'u, 't, tun_packet_loop_summary) world_op" where
  "run_tun_packet_loop_with_relays_summary_with_idle_timeout device config clk max_packets udp_relay
       tcp_relay server_initial_sequence_number window_size session_idle_timeout =
     sbind (summary_loop (session_loop_body
       (\<lambda>i. process_tun_device_packet_with_relays device config (clk i) udp_relay tcp_relay
          server_initial_sequence_number window_size) clk tcp_relay session_idle_timeout)
       0 max_packets summary_default) record_table_state"

definition run_tun_packet_loop_with_relays_summary ::
    "'d tun_packet_device \<Rightarrow> 'n tun_loop_config \<Rightarrow> (nat \<Rightarrow> nat \<Rightarrow> instant) \<Rightarrow> usize \<Rightarrow> 'u tun_udp_relay
      \<Rightarrow> 't tcp_session_relay \<Rightarrow> u32 \<Rightarrow> u16 \<Rightarrow> ('d, 'n, 'u, 't, tun_packet_loop_summary) world_op" where
  "run_tun_packet_loop_with_relays_summary device config clk max_packets udp_relay tcp_relay
       server_initial_sequence_number window_size =
     run_tun_packet_loop_with_relays_summary_with_idle_timeout device config clk max_packets udp_relay
       tcp_relay server_initial_sequence_number window_size default_tun_tcp_session_idle_timeout"

end
