(* ===== verification/Keli_Tun_Step_Facts.thy ===== *)
theory Keli_Tun_Step_Facts
  imports Keli_Tun_Step
begin

text \<open>
  What one step of the TCP session machine guarantees for every relay whose methods return: the table
  invariant, isolation of the other sessions, the possible errors, replies on the reversed flow, and
  in-order delivery of the client's data to the relay.
\<close>

section \<open>Outcomes of a step\<close>

definition op_total :: "('r, 'e, 'a) op \<Rightarrow> bool" where
  "op_total m \<longleftrightarrow> (\<forall>r. fst (m r) \<noteq> Panic)"

definition relay_total :: "'r tcp_session_relay \<Rightarrow> bool" where
  "relay_total relay \<longleftrightarrow>
     (\<forall>session. op_total (establish_session relay session))
     \<and> (\<forall>session plan. op_total (establish_session_with_plan relay session plan))
     \<and> (\<forall>frame. op_total (write_client_payload relay frame))
     \<and> (\<forall>session. op_total (shutdown_client_write relay session))
     \<and> (\<forall>session. op_total (read_server_event relay session))
     \<and> (\<forall>session. op_total (poll_server_event relay session))
     \<and> (\<forall>session. op_total (close_session relay session))"

fun step_error :: "tun_tcp_session_error \<Rightarrow> bool" where
  "step_error (SessionRelay error) = True"
| "step_error (SessionPacket (TcpSessionLimitExceeded active max_active)) = True"
| "step_error (SessionPacket (TcpResponsePayloadTooLarge version len max_len)) = True"
| "step_error (SessionPacket _) = False"

text \<open>The states a step for \<open>flow\<close> goes through from the table \<open>t0\<close>, and the outcomes it may have.\<close>

definition during :: "tun_packet_flow \<Rightarrow> tun_tcp_session_table \<Rightarrow> tun_tcp_session_table \<times> 'r \<Rightarrow> bool" where
  "during flow t0 s \<longleftrightarrow> table_inv (fst s) \<and> only_key flow t0 (fst s)"

definition okay :: "tun_packet_flow \<Rightarrow> tun_tcp_session_table \<Rightarrow> ('a \<Rightarrow> bool)
    \<Rightarrow> (tun_tcp_session_error, 'a) outcome \<Rightarrow> tun_tcp_session_table \<times> 'r \<Rightarrow> bool" where
  "okay flow t0 R r s \<longleftrightarrow> during flow t0 s
     \<and> (case r of Ok x \<Rightarrow> R x | Err e \<Rightarrow> step_error e | Panic \<Rightarrow> False)"

lemma only_key_trans: "only_key flow t0 t1 \<Longrightarrow> only_key flow t1 t2 \<Longrightarrow> only_key flow t0 t2"
  by (simp add: only_key_def)

lemma okay_ret: "R x \<Longrightarrow> triple (during flow t0) (ret x) (okay flow t0 R)"
  by (simp add: triple_def ret_def okay_def)

lemma okay_sbind:
  assumes "triple (during flow t0) m (okay flow t0 R)"
    and "\<And>x. R x \<Longrightarrow> triple (during flow t0) (f x) (okay flow t0 S)"
  shows "triple (during flow t0) (sbind m f) (okay flow t0 S)"
proof (rule triple_sbind [OF assms(1)])
  show "triple (okay flow t0 R (Ok x)) (f x) (okay flow t0 S)" for x
    using assms(2) [of x] by (cases "R x") (auto simp: triple_def okay_def)
qed (simp_all add: okay_def)

lemma okay_if_some:
  assumes "triple (during flow t0) m (okay flow t0 (pred_option R))"
    and "\<And>x. R x \<Longrightarrow> triple (during flow t0) (k x) (okay flow t0 S)"
    and "triple (during flow t0) rest (okay flow t0 S)"
  shows "triple (during flow t0) (if_some m k rest) (okay flow t0 S)"
  unfolding if_some_def
  using assms by (intro okay_sbind [OF assms(1)]) (auto split: option.split)

lemma okay_on_relay:
  assumes "op_total m"
  shows "triple (during flow t0) (on_relay m) (okay flow t0 (\<lambda>_. True))"
proof (rule tripleI)
  fix s :: "tun_tcp_session_table \<times> 'a" and r s'
  assume s: "during flow t0 s" and run: "on_relay m s = (r, s')"
  obtain q r' where q: "m (snd s) = (q, r')" by fastforce
  then have "r = map_err SessionRelay q" and "s' = (fst s, r')"
    using run by (cases s; simp add: on_relay_def on_snd_def with_err_def)+
  moreover have "q \<noteq> Panic" using assms q unfolding op_total_def by (metis fst_conv)
  ultimately show "okay flow t0 (\<lambda>_. True) r s'"
    using s by (cases q) (simp_all add: okay_def during_def)
qed

lemma okay_table:
  assumes "\<And>t r t'. table_inv t \<Longrightarrow> m t = (r, t') \<Longrightarrow> step_ok flow R t r t'"
    and "tcp_flow flow" and "session_key_from_flow flow = Ok key"
  shows "triple (during flow t0) (on_table m) (okay flow t0 (pred_option (R key)))"
proof (rule tripleI)
  fix s :: "tun_tcp_session_table \<times> 'r" and r s'
  assume s: "during flow t0 s" and run: "on_table m s = (r, s')"
  obtain q t' where q: "m (fst s) = (q, t')" by fastforce
  then have "r = map_err SessionPacket q" and "s' = (t', snd s)"
    using run by (cases s; simp add: on_table_def on_fst_def with_err_def)+
  moreover have "step_ok flow R (fst s) q t'"
    using assms(1) q s by (simp add: during_def)
  ultimately show "okay flow t0 (pred_option (R key)) r s'"
    using s assms(2,3)
    by (cases q) (auto simp: okay_def during_def step_ok_def only_key_trans pred_option_def
        intro: only_key_trans)
qed


lemma build_tcp_error:
  assumes "tcp_flow flow" and "build_tun_tcp_response_packet flow a b flags w payload = Err e"
  shows "step_error (SessionPacket e)"
  using assms
  by (cases flow; cases "flow_source_ip flow"; cases "flow_destination_ip flow")
    (auto simp: tcp_flow_def flow_wf_def build_tun_tcp_response_packet_def Let_def build_ipv4_tcp_Ok
      build_ipv6_tcp_Ok split: if_splits tun_ip_version.splits)

lemma session_ok_tcp_flow: "session_ok key s \<Longrightarrow> tcp_flow (ses_flow s)"
  by (auto simp: session_ok_def tcp_flow_def intro: session_key_from_flow_Tcp)

lemma send_server_payload_error:
  assumes inv: "table_inv t" and "tcp_flow flow" and "send_server_payload now flow payload t = (Err e, t')"
  shows "step_error (SessionPacket e)"
proof (cases "session_key_from_flow flow")
  case (Ok key)
  then show ?thesis
    using assms(3) table_inv_entries(1) [OF inv, of key]
    by (auto simp: send_server_payload_def with_entry_def run_op build_tun_tcp_payload_response_packet_def
        dest: session_ok_tcp_flow intro: build_tcp_error split: option.splits if_splits outcome.splits)
qed (use assms session_key_from_flow_total [of flow] in auto)

definition keyed :: "tun_tcp_session_key \<Rightarrow> tun_tcp_segment \<Rightarrow> bool" where
  "keyed key segment \<longleftrightarrow> tcp_flow (seg_flow segment) \<and> session_key_from_flow (seg_flow segment) = Ok key"

text \<open>\<open>runs key segment m R\<close>: run for \<open>segment\<close>, \<open>m\<close> keeps the table well-formed, touches no other
  session, fails only in the documented ways, and otherwise gives a result that satisfies \<open>R\<close>.\<close>

definition runs :: "tun_tcp_segment \<Rightarrow> ('r, 'a) step_op \<Rightarrow> ('a \<Rightarrow> bool) \<Rightarrow> bool" where
  "runs segment m R \<longleftrightarrow> (\<forall>t0. triple (during (seg_flow segment) t0) m (okay (seg_flow segment) t0 R))"

named_theorems runs_rules \<open>rules for the parts of a step\<close>

lemma runs_ret [runs_rules]: "R x \<Longrightarrow> runs segment (ret x) R"
  by (simp add: runs_def okay_ret)

lemma runs_sbind:
  "runs segment m R \<Longrightarrow> (\<And>x. R x \<Longrightarrow> runs segment (f x) S) \<Longrightarrow> runs segment (sbind m f) S"
  unfolding runs_def by (blast intro: okay_sbind)

lemma runs_if_some:
  "runs segment m (pred_option R) \<Longrightarrow> (\<And>x. R x \<Longrightarrow> runs segment (k x) S) \<Longrightarrow> runs segment rest S
    \<Longrightarrow> runs segment (if_some m k rest) S"
  unfolding runs_def by (blast intro: okay_if_some)

lemma runs_if [runs_rules]:
  "(b \<Longrightarrow> runs segment m R) \<Longrightarrow> (\<not> b \<Longrightarrow> runs segment m' R) \<Longrightarrow> runs segment (if b then m else m') R"
  by simp

lemma runs_case_option [runs_rules]:
  "(x = None \<Longrightarrow> runs segment m R) \<Longrightarrow> (\<And>y. x = Some y \<Longrightarrow> runs segment (f y) R)
    \<Longrightarrow> runs segment (case x of None \<Rightarrow> m | Some y \<Rightarrow> f y) R"
  by (simp split: option.split)

lemma runs_case_prod [runs_rules]:
  "(\<And>a b. x = (a, b) \<Longrightarrow> runs segment (f a b) R) \<Longrightarrow> runs segment (case x of (a, b) \<Rightarrow> f a b) R"
  by (simp split: prod.split)

lemma runs_relay: "op_total m \<Longrightarrow> runs segment (on_relay m) (\<lambda>_. True)"
  by (simp add: runs_def okay_on_relay)

lemma runs_table:
  assumes "\<And>t r t'. table_inv t \<Longrightarrow> m t = (r, t') \<Longrightarrow> step_ok (seg_flow segment) R t r t'"
    and "keyed key segment"
  shows "runs segment (on_table m) (pred_option (R key))"
  using assms by (auto simp: runs_def keyed_def intro: okay_table)

lemma runs_methods:
  assumes "keyed key segment"
  shows "runs segment (on_table (acknowledge_retransmitted_syn now segment)) (pred_option (sar_ok key))"
    and "runs segment (on_table (apply_ack now segment)) (pred_option (session_ok key))"
    and "runs segment (on_table (accept_client_payload now segment)) (pred_option (cpf_ok key))"
    and "runs segment (on_table (accept_overlapping_client_payload now segment)) (pred_option (cpf_ok key))"
    and "runs segment (on_table (acknowledge_duplicate_client_payload now segment)) (pred_option (dup_ok key))"
    and "runs segment (on_table (acknowledge_out_of_order_client_payload now segment)) (pred_option (ooo_ok key))"
    and "runs segment (on_table (retransmit_server_payload now segment)) (pred_option (spf_ok key))"
    and "runs segment (on_table (retransmit_server_payload_for_duplicate_client_fin now segment)) (pred_option (spf_ok key))"
    and "runs segment (on_table (accept_client_fin_with_payload now segment)) (pred_option (fin_payload_ok key))"
    and "runs segment (on_table (acknowledge_client_fin now segment)) (pred_option (clf_ok key))"
    and "runs segment (on_table (acknowledge_duplicate_client_fin now segment)) (pred_option (clf_ok key))"
    and "runs segment (on_table (server_payload_poll_session now segment)) (pred_option (session_ok key))"
    and "runs segment (on_table (acknowledge_client_ack now segment)) (pred_option (session_ok key))"
    and "runs segment (on_table (remove_on_close now segment)) (pred_option (closed_result_ok key))"
    and "runs segment (on_table (retransmit_server_close now segment)) (pred_option (scf_ok key))"
    and "runs segment (on_table (retransmit_server_close_for_duplicate_client_fin now segment)) (pred_option (scf_ok key))"
    and "runs segment (on_table (acknowledge_server_close now segment)) (pred_option (session_ok key))"
    and "runs segment (on_table (acknowledge_server_close_with_client_fin now segment)) (pred_option (clf_ok key))"
    and "runs segment (on_table (remove_server_close_on_rst segment)) (pred_option (session_ok key))"
    and "runs segment (on_table (acknowledge_post_close_ack now segment)) (pred_option (session_ok key))"
    and "runs segment (on_table (acknowledge_post_close_client_fin now segment)) (pred_option (clf_ok key))"
    and "runs segment (on_table (remove_post_close_on_rst segment)) (pred_option (session_ok key))"
  by (rule runs_table [OF _ assms], erule (1) segment_methods_ok)+

lemma runs_lookup:
  "keyed key segment \<Longrightarrow> runs segment (on_table (table_get_flow (seg_flow segment))) (\<lambda>_. True)"
  by (auto simp: runs_def triple_def keyed_def table_get_flow_def get_flow_def on_table_def on_fst_def
      with_err_def okay_def during_def)

text \<open>The other table operations, by their own specifications.\<close>

lemma runs_table_general:
  assumes "\<And>t r t'. table_inv t \<Longrightarrow> m t = (r, t') \<Longrightarrow> table_inv t' \<and> only_key (seg_flow segment) t t'
      \<and> (case r of Ok x \<Rightarrow> R x | Err e \<Rightarrow> step_error (SessionPacket e) | Panic \<Rightarrow> False)"
  shows "runs segment (on_table m) R"
  unfolding runs_def
proof (intro allI tripleI)
  fix t0 and s :: "tun_tcp_session_table \<times> 'r" and r s'
  assume s: "during (seg_flow segment) t0 s" and run: "on_table m s = (r, s')"
  obtain q t' where q: "m (fst s) = (q, t')" by fastforce
  then have "r = map_err SessionPacket q" and "s' = (t', snd s)"
    using run by (cases s; simp add: on_table_def on_fst_def with_err_def)+
  then show "okay (seg_flow segment) t0 R r s'"
    using s assms [OF _ q]
    by (cases q) (auto simp: okay_def during_def intro: only_key_trans)
qed

lemma session_flow_eq: "keyed key segment \<Longrightarrow> session_ok key s \<Longrightarrow> ses_flow s = seg_flow segment"
  by (auto simp: keyed_def session_ok_def tcp_flow_def intro: key_determines_flow)

lemma runs_send:
  assumes "keyed key segment" and "session_ok key s"
  shows "runs segment (on_table (send_server_payload now (ses_flow s) payload)) (pred_option (spf_ok key))"
proof (rule runs_table_general)
  fix t r t' assume inv: "table_inv t" and run: "send_server_payload now (ses_flow s) payload t = (r, t')"
  have "ses_flow s = seg_flow segment" using assms by (rule session_flow_eq)
  then show "table_inv t' \<and> only_key (seg_flow segment) t t'
      \<and> (case r of Ok x \<Rightarrow> pred_option (spf_ok key) x | Err e \<Rightarrow> step_error (SessionPacket e) | Panic \<Rightarrow> False)"
    using send_server_payload_ok [OF inv run] send_server_payload_error [OF inv] run assms(1)
    by (cases r) (auto simp: keyed_def pred_option_def)
qed

lemma runs_close:
  assumes "keyed key segment"
  shows "runs segment (on_table (close_server_side now key)) (pred_option (scf_ok key))"
proof (rule runs_table_general)
  fix t r t' assume inv: "table_inv t" and run: "close_server_side now key t = (r, t')"
  then show "table_inv t' \<and> only_key (seg_flow segment) t t'
      \<and> (case r of Ok x \<Rightarrow> pred_option (scf_ok key) x | Err e \<Rightarrow> step_error (SessionPacket e) | Panic \<Rightarrow> False)"
    using close_server_side_ok [OF inv run] assms by (auto simp: keyed_def)
qed

lemma runs_start:
  assumes "keyed key segment" and "is_initial_tcp_syn_segment segment"
  shows "runs segment (on_table (start_from_syn now segment isn w)) (sar_ok key)"
proof (rule runs_table_general)
  fix t r t' assume inv: "table_inv t" and run: "start_from_syn now segment isn w t = (r, t')"
  then show "table_inv t' \<and> only_key (seg_flow segment) t t'
      \<and> (case r of Ok x \<Rightarrow> sar_ok key x | Err e \<Rightarrow> step_error (SessionPacket e) | Panic \<Rightarrow> False)"
    using start_from_syn_ok [OF inv run] assms by (cases r) (auto simp: keyed_def)
qed

lemma reset_frame_ok:
  assumes "keyed key segment"
  shows "\<exists>frame. build_tun_tcp_session_reset_frame segment = Ok frame \<and> reply key (rst_packet frame)"
proof -
  obtain packet where "build_tun_tcp_response_packet (seg_flow segment) (tcp_reset_sequence_number segment)
      (tcp_reset_acknowledgment_number segment) (flags_from_bits 0x14) 0 [] = Ok packet"
    using build_tun_tcp_defined [of "seg_flow segment"] assms by (fastforce simp: keyed_def tcp_flow_def)
  moreover from this have "reply key packet"
    using assms unfolding keyed_def reply_def by blast
  ultimately show ?thesis
    by (simp add: build_tun_tcp_session_reset_frame_def build_tun_tcp_reset_response_packet_def)
qed

lemma runs_reset:
  assumes "keyed key segment"
  shows "runs segment (on_table (lift (build_tun_tcp_session_reset_frame segment))) (\<lambda>f. reply key (rst_packet f))"
  using reset_frame_ok [OF assms]
  by (intro runs_table_general) (auto simp: lift_def only_key_def)


section \<open>Every part of a step\<close>

definition answers :: "tun_tcp_session_key \<Rightarrow> tun_tcp_session_step \<Rightarrow> bool" where
  "answers key step \<longleftrightarrow> list_all (reply key) (response_packets step)"

definition server_event_ok :: "tun_tcp_session_key
    \<Rightarrow> tun_tcp_server_payload_frame option \<times> tun_tcp_server_close_frame option \<Rightarrow> bool" where
  "server_event_ok key x \<longleftrightarrow> pred_option (spf_ok key) (fst x) \<and> pred_option (scf_ok key) (snd x)"

lemma server_packets_reply:
  "reply key packet \<Longrightarrow> server_event_ok key (a, b) \<Longrightarrow> list_all (reply key) (with_server_packets packet a b)"
  by (auto simp: with_server_packets_def server_event_ok_def spf_ok_def scf_ok_def split: option.splits)

lemma closed_packets_reply:
  "pred_option (clf_ok key) response \<Longrightarrow> list_all (reply key) (response_packets (StepClosed s response))"
  by (cases response) (auto simp: clf_ok_def)

text \<open>The contract the steps need of a relay: its methods return. The methods a relay inherits from
  the trait satisfy it when the ones it supplies do.\<close>

locale returning_relay =
  fixes relay :: "'r tcp_session_relay"
  assumes returns: "relay_total relay"
begin

lemma relay_returns:
  "op_total (establish_session relay session)"
  "op_total (establish_session_with_plan relay session plan)"
  "op_total (write_client_payload relay frame)"
  "op_total (shutdown_client_write relay session)"
  "op_total (read_server_event relay session)"
  "op_total (poll_server_event relay session)"
  "op_total (close_session relay session)"
  using returns by (simp_all add: relay_total_def)

lemmas runs_relays = relay_returns [THEN runs_relay]

lemma runs_close_from_server:
  assumes "keyed key segment" and "session_ok key s"
  shows "runs segment (close_tun_tcp_session_from_server now relay s) (pred_option (scf_ok key))"
  unfolding close_tun_tcp_session_from_server_def
proof (rule runs_sbind)
  show "runs segment (on_table (close_server_side now (ses_key s))) (pred_option (scf_ok key))"
    using assms runs_close by (simp add: session_ok_def)
  fix response assume "pred_option (scf_ok key) response"
  then show "runs segment (sbind (case response of Some frame \<Rightarrow> on_relay (close_session relay (scf_session frame))
      | None \<Rightarrow> ret ()) (\<lambda>_. ret response)) (pred_option (scf_ok key))"
    by (intro runs_sbind [of _ _ "\<lambda>_. True"] runs_rules runs_relays) simp_all
qed

lemma runs_server_event:
  assumes "keyed key segment" and "session_ok key s"
  shows "runs segment (relay_server_event now relay s event) (server_event_ok key)"
  unfolding relay_server_event_def
  by (cases event) (auto intro!: runs_sbind [OF runs_send] runs_sbind [OF runs_close_from_server] runs_rules
      assms simp: server_event_ok_def)

lemma runs_read_after_payload:
  "keyed key segment \<Longrightarrow> cpf_ok key frame \<Longrightarrow>
    runs segment (read_tun_tcp_server_event_after_client_payload now relay frame) (server_event_ok key)"
  unfolding read_tun_tcp_server_event_after_client_payload_def
  by (intro runs_sbind [OF runs_relays(5)] runs_server_event) (simp_all add: cpf_ok_def)

lemma runs_read_after_fin:
  "keyed key segment \<Longrightarrow> session_ok key s \<Longrightarrow>
    runs segment (read_tun_tcp_server_event_after_client_fin now relay s) (server_event_ok key)"
  unfolding read_tun_tcp_server_event_after_client_fin_def
  by (intro runs_sbind [OF runs_relays(5)] runs_server_event) simp_all

lemmas runs_then_relay = runs_relays [THEN runs_sbind]

lemma runs_duplicate_fin:
  assumes "keyed key segment" and "runs segment rest (answers key)"
  shows "runs segment (step_duplicate_fin clk relay segment rest) (answers key)"
  unfolding step_duplicate_fin_def
  by (intro runs_methods [OF assms(1), THEN runs_if_some] runs_rules assms(2)
      runs_read_after_fin [OF assms(1), THEN runs_sbind])
    (auto simp: answers_def spf_ok_def clf_ok_def server_packets_reply)

lemma runs_fin_with_payload:
  assumes "keyed key segment" and "runs segment rest (answers key)"
  shows "runs segment (step_fin_with_payload clk relay segment rest) (answers key)"
  unfolding step_fin_with_payload_def
  by (intro runs_methods [OF assms(1), THEN runs_if_some] runs_rules assms runs_duplicate_fin
      runs_then_relay runs_read_after_payload [OF assms(1), THEN runs_sbind])
    (auto simp: answers_def fin_payload_ok_def clf_ok_def server_packets_reply)

lemma runs_fin_without_payload:
  assumes "keyed key segment" and "runs segment rest (answers key)"
  shows "runs segment (step_fin_without_payload clk relay segment rest) (answers key)"
  unfolding step_fin_without_payload_def
  by (intro runs_methods [OF assms(1), THEN runs_if_some] runs_rules assms runs_duplicate_fin
      runs_then_relay runs_read_after_fin [OF assms(1), THEN runs_sbind])
    (auto simp: answers_def clf_ok_def server_packets_reply)

lemma runs_remove_on_close:
  assumes "keyed key segment" and "runs segment rest (answers key)"
  shows "runs segment (step_remove_on_close clk relay segment rest) (answers key)"
  unfolding step_remove_on_close_def
  by (intro runs_methods [OF assms(1), THEN runs_if_some] runs_rules assms runs_then_relay)
    (auto simp: answers_def closed_result_ok_def closed_packets_reply)

lemma runs_fin_after_close:
  assumes "keyed key segment" and "runs segment rest (answers key)"
  shows "runs segment (step_fin_after_close clk segment rest) (answers key)"
  unfolding step_fin_after_close_def
  by (intro runs_methods [OF assms(1), THEN runs_if_some] runs_rules assms)
    (auto simp: answers_def clf_ok_def scf_ok_def)

lemma runs_unknown_fin:
  assumes "keyed key segment" and "runs segment rest (answers key)"
  shows "runs segment (step_unknown_fin segment rest) (answers key)"
  unfolding step_unknown_fin_def
  by (intro runs_rules assms runs_lookup [OF assms(1), THEN runs_sbind]
      runs_reset [OF assms(1), THEN runs_sbind]) (auto simp: answers_def)

lemma runs_rst_markers:
  assumes "keyed key segment"
  shows "runs segment (step_rst_markers segment) (answers key)"
  unfolding step_rst_markers_def
  by (intro runs_methods [OF assms, THEN runs_if_some] runs_rules) (auto simp: answers_def)

lemma runs_step_close:
  "keyed key segment \<Longrightarrow> runs segment (step_close clk relay segment) (answers key)"
  unfolding step_close_def
  by (intro runs_fin_with_payload runs_fin_without_payload runs_remove_on_close runs_fin_after_close
      runs_unknown_fin runs_rst_markers)

lemma runs_syn:
  assumes "keyed key segment" and "is_initial_tcp_syn_segment segment"
  shows "runs segment (step_syn clk segment isn w) (answers key)"
  unfolding step_syn_def
  by (intro runs_methods [OF assms(1), THEN runs_if_some] runs_rules
      runs_lookup [OF assms(1), THEN runs_sbind] runs_start [OF assms, THEN runs_sbind])
    (auto simp: answers_def sar_ok_def)

lemma runs_establish:
  assumes "keyed key segment"
  shows "runs segment (step_establish clk relay plan segment) (pred_option (session_ok key))"
proof -
  have "runs segment (on_relay (case plan of
        Some plan \<Rightarrow> establish_session_with_plan relay session plan
      | None \<Rightarrow> establish_session relay session)) (\<lambda>_. True)" for session
    by (auto intro!: runs_relays split: option.split)
  then show ?thesis
    unfolding step_establish_def
    by (intro runs_rules runs_methods(2) [OF assms, THEN runs_sbind] runs_sbind [where R = "\<lambda>_. True"])
      simp_all
qed

lemma runs_client_payload:
  assumes "keyed key segment" and "runs segment rest (answers key)"
  shows "runs segment (step_client_payload clk relay segment rest) (answers key)"
  unfolding step_client_payload_def
  by (intro runs_methods [OF assms(1), THEN runs_if_some] runs_rules assms runs_then_relay
      runs_read_after_payload [OF assms(1), THEN runs_sbind])
    (auto simp: answers_def cpf_ok_def dup_ok_def ooo_ok_def server_packets_reply)

lemma runs_poll:
  assumes "keyed key segment" and "runs segment rest (answers key)"
  shows "runs segment (step_poll clk relay segment rest) (answers key)"
proof -
  have "runs segment (case event of
        ReadPayload payload \<Rightarrow>
          if_some (on_table (send_server_payload now (ses_flow s) payload))
            (\<lambda>response. ret (StepServerPayload response)) rest
      | ReadClosed \<Rightarrow>
          if_some (close_tun_tcp_session_from_server now relay s)
            (\<lambda>response. ret (StepServerClosed response)) rest
      | ReadNoPayload \<Rightarrow> ret (StepClientAck s)) (answers key)" if "session_ok key s" for s event now
    using assms that
    by (auto intro!: runs_send [THEN runs_if_some] runs_close_from_server [THEN runs_if_some] runs_rules
        simp: answers_def spf_ok_def scf_ok_def split: tun_tcp_server_read.split)
  then show ?thesis
    unfolding step_poll_def
    by (intro runs_methods [OF assms(1), THEN runs_if_some] runs_then_relay assms(2)) auto
qed

lemma runs_pure_ack:
  assumes "keyed key segment" and "runs segment rest (answers key)"
  shows "runs segment (step_pure_ack clk relay segment rest) (answers key)"
  unfolding step_pure_ack_def
  by (intro runs_methods [OF assms(1), THEN runs_if_some] runs_rules runs_poll assms)
    (auto simp: answers_def spf_ok_def scf_ok_def)

lemma runs_unknown: "keyed key segment \<Longrightarrow> runs segment (step_unknown segment) (answers key)"
  unfolding step_unknown_def
  by (intro runs_rules runs_lookup [THEN runs_sbind] runs_reset [THEN runs_sbind]) (auto simp: answers_def)

lemma runs_process:
  assumes "keyed key segment"
  shows "runs segment (process_tun_tcp_session_segment_with_relay_plan clk segment relay plan isn w) (answers key)"
  unfolding process_tun_tcp_session_segment_with_relay_plan_def
  by (intro runs_rules runs_step_close runs_syn runs_establish [OF assms, THEN runs_sbind] runs_client_payload
      runs_pure_ack runs_unknown assms) (auto simp: answers_def)

end

lemma default_session_relay_total:
  assumes "\<And>session. op_total (read_server_payload session)" and "\<And>session. op_total (close session)"
  shows "relay_total (default_session_relay read_server_payload close)"
  using assms
  by (auto simp: relay_total_def default_session_relay_def server_event_of_payload_def op_total_def
      sbind_def ret_def split: prod.splits outcome.splits option.splits)
   (metis fst_conv)+

interpretation default_relay: returning_relay "default_session_relay (\<lambda>session. ret None) (\<lambda>session. ret ())"
  by unfold_locales (auto intro!: default_session_relay_total simp: op_total_def ret_def)

section \<open>Properties of a step\<close>

lemma parsed_segment_keyed:
  assumes "parse_tun_tcp_segment packet = Ok segment"
  obtains key where "keyed key segment"
proof -
  have "tcp_flow (seg_flow segment)"
    using assms
    by (auto simp: parse_tun_tcp_segment_def tcp_flow_def obind_Ok_iff Let_def
        dest!: parse_tun_packet_parts_wf split: if_splits)
  then show thesis
    using that session_key_from_flow_total [of "seg_flow segment"]
    by (cases "session_key_from_flow (seg_flow segment)") (auto simp: keyed_def)
qed

lemma parsed_flow_keyed:
  assumes "parse_tun_tcp_segment packet = Ok segment" and "flow_key (seg_flow segment) = Some key"
  shows "keyed key segment"
  using assms(2) by (rule_tac parsed_segment_keyed [OF assms(1)]) (auto simp: keyed_def flow_key_def)

lemma process_okay:
  assumes "relay_total relay" and "table_inv t" and "keyed key segment"
    and "process_tun_tcp_session_segment_with_relay_plan clk segment relay plan isn w (t, r) = (result, (t', r'))"
  shows "okay (seg_flow segment) t (answers key) result (t', r')"
proof -
  have "triple (during (seg_flow segment) t)
      (process_tun_tcp_session_segment_with_relay_plan clk segment relay plan isn w)
      (okay (seg_flow segment) t (answers key))"
    using returning_relay.runs_process [OF returning_relay.intro [OF assms(1)] assms(3)]
    by (simp add: runs_def)
  then show ?thesis
    using assms(2,4) by (auto dest!: tripleD [where s = "(t, r)"] simp: during_def only_key_def)
qed

lemma reply_parses:
  assumes "reply key packet" and "keyed key segment"
  shows "\<exists>response. parse_tun_tcp_segment packet = Ok response \<and> seg_flow response = swap_flow (seg_flow segment)"
proof -
  obtain flow a b flags w payload where "session_key_from_flow flow = Ok key"
    and build: "build_tun_tcp_response_packet flow a b flags w payload = Ok packet"
    using assms(1) unfolding reply_def by blast
  moreover have "flow_wf flow" using build_Ok_tcp_flow [OF build] by (simp add: tcp_flow_def)
  ultimately have "flow = seg_flow segment"
    using assms(2) by (auto simp: keyed_def tcp_flow_def intro: key_determines_flow)
  then show ?thesis
    using tcp_codec.parse_build [of "(flow, a, b, flags, w, payload)" packet] build
    by (simp add: tcp_view_def)
qed

definition sample_relay :: "unit tcp_session_relay" where
  "sample_relay = default_session_relay (\<lambda>session. ret None) (\<lambda>session. ret ())"

lemma sample_relay_total: "relay_total sample_relay"
  unfolding sample_relay_def by (rule default_relay.returns)

lemma sample_packet_parses:
  assumes "flag_bits (flags_from_bits flags) = flags" and "length payload \<le> max_tcp_response_payload Ipv4"
  shows "\<exists>packet. parse_tun_tcp_segment packet = Ok (sample_segment flags sq ak port payload)"
proof -
  let ?flow = "(sample_flow Tcp)\<lparr>flow_source_port := Some port\<rparr>"
  obtain packet where packet:
    "build_tun_tcp_response_packet (swap_flow ?flow) sq ak (flags_from_bits flags) 1024 payload = Ok packet"
    using assms(2) build_tun_tcp_defined [of "swap_flow ?flow" sq ak "flags_from_bits flags" 1024 payload]
    by (auto simp: swap_flow_def sample_flow_def flow_wf_def)
  then have "parse_tun_tcp_segment packet
      = Ok (tcp_view (swap_flow ?flow, sq, ak, flags_from_bits flags, 1024, payload))"
    by (intro tcp_codec.parse_build) simp
  then show ?thesis
    using assms(1) by (intro exI [of _ packet]) (simp add: tcp_view_def sample_segment_def swap_flow_def sample_flow_def)
qed

lemma unknown_methods:
  assumes "keyed key segment" and "table_entry t key = (None, None, None)"
  shows "apply_ack now segment t = (Ok None, t)"
    "accept_client_payload now segment t = (Ok None, t)"
    "accept_overlapping_client_payload now segment t = (Ok None, t)"
    "acknowledge_duplicate_client_payload now segment t = (Ok None, t)"
    "acknowledge_out_of_order_client_payload now segment t = (Ok None, t)"
    "retransmit_server_payload now segment t = (Ok None, t)"
    "retransmit_server_payload_for_duplicate_client_fin now segment t = (Ok None, t)"
    "accept_client_fin_with_payload now segment t = (Ok None, t)"
    "acknowledge_client_fin now segment t = (Ok None, t)"
    "acknowledge_duplicate_client_fin now segment t = (Ok None, t)"
    "server_payload_poll_session now segment t = (Ok None, t)"
    "acknowledge_client_ack now segment t = (Ok None, t)"
    "remove_on_close now segment t = (Ok None, t)"
    "retransmit_server_close now segment t = (Ok None, t)"
    "retransmit_server_close_for_duplicate_client_fin now segment t = (Ok None, t)"
    "acknowledge_server_close now segment t = (Ok None, t)"
    "acknowledge_server_close_with_client_fin now segment t = (Ok None, t)"
    "remove_server_close_on_rst segment t = (Ok None, t)"
    "acknowledge_post_close_ack now segment t = (Ok None, t)"
    "acknowledge_post_close_client_fin now segment t = (Ok None, t)"
    "remove_post_close_on_rst segment t = (Ok None, t)"
    "table_get_flow (seg_flow segment) t = (Ok None, t)"
  using assms
  by (simp_all add: keyed_def table_entry_def apply_ack_def accept_client_payload_def
      accept_overlapping_client_payload_def acknowledge_duplicate_client_payload_def
      acknowledge_out_of_order_client_payload_def retransmit_server_payload_def
      retransmit_server_payload_for_duplicate_client_fin_def accept_client_fin_with_payload_def
      acknowledge_client_fin_def acknowledge_duplicate_client_fin_def server_payload_poll_session_def
      acknowledge_client_ack_def remove_on_close_def retransmit_server_close_def
      retransmit_server_close_for_duplicate_client_fin_def acknowledge_server_close_def
      acknowledge_server_close_with_client_fin_def remove_server_close_on_rst_def
      acknowledge_post_close_ack_def acknowledge_post_close_client_fin_def remove_post_close_on_rst_def
      table_get_flow_def get_flow_def with_entry_def run_op)

lemmas step_defs = process_tun_tcp_session_segment_with_relay_plan_def step_close_def
  step_fin_with_payload_def step_fin_without_payload_def step_duplicate_fin_def step_remove_on_close_def
  step_fin_after_close_def step_unknown_fin_def step_rst_markers_def step_syn_def step_establish_def
  step_client_payload_def step_pure_ack_def step_poll_def step_unknown_def
  should_reset_unknown_tun_tcp_session_segment_def

lemmas run_step = if_some_def sbind_def on_table_def on_relay_def on_fst_def on_snd_def with_err_def
  ret_def lift_def

lemma unknown_segment_run:
  assumes key: "keyed key segment" and "table_entry t key = (None, None, None)"
    and "\<not> is_initial_tcp_syn_segment segment"
  shows "\<exists>step. process_tun_tcp_session_segment_with_relay_plan clk segment relay plan isn w (t, r)
      = (Ok step, (t, r))
    \<and> (if seg_rst segment \<or> (\<not> seg_syn segment \<and> \<not> seg_fin segment \<and> \<not> seg_ack segment \<and> seg_payload segment = [])
       then step = StepNoop
       else \<exists>frame. step = StepReset frame \<and> build_tun_tcp_session_reset_frame segment = Ok frame)"
proof -
  obtain frame where "build_tun_tcp_session_reset_frame segment = Ok frame"
    using reset_frame_ok [OF key] by blast
  note run = this unknown_methods [OF key assms(2)] assms(3)
  show ?thesis
  proof (cases "seg_rst segment \<or> seg_fin segment")
    case True
    then show ?thesis by (auto simp: run step_defs run_step)
  next
    case False
    then show ?thesis by (auto simp: run step_defs run_step)
  qed
qed

lemma sample_unknown:
  "keyed (sample_key 50000) (sample_segment flags sq ak 50000 payload)"
  "table_entry (sample_table phase now) (sample_key 50000) = (None, None, None)"
  by (simp_all add: keyed_def sample_segment_simps table_entry_def sample_table_def)
    (simp add: sample_key_def)

text \<open>C7. Processing a parsed segment keeps the session table well-formed and within its limit, and
  changes no entry of any other flow, whatever the relay does, on the success and on the error paths.\<close>

theorem process_keeps_table:
  assumes "relay_total relay" and "table_inv t" and "parse_tun_tcp_segment packet = Ok segment"
    and "process_tun_tcp_session_segment_with_relay_plan clk segment relay plan isn w (t, r) = (result, (t', r'))"
  shows "table_inv t' \<and> max_active_sessions t' = max_active_sessions t
    \<and> (flow_key (seg_flow segment) \<noteq> Some key \<longrightarrow> table_entry t' key = table_entry t key)"
proof -
  obtain k where "keyed k segment" using assms(3) by (rule parsed_segment_keyed)
  then have "okay (seg_flow segment) t (answers k) result (t', r')"
    using assms(1,2,4) by (intro process_okay)
  then have "table_inv t'" and frame: "only_key (seg_flow segment) t t'"
    by (simp_all add: okay_def during_def)
  then show ?thesis
    using only_key_frame [OF frame, of key] by (auto simp: only_key_def)
qed

theorem process_keeps_table_witness:
  "\<exists>packet. parse_tun_tcp_segment packet = Ok (sample_segment 0x04 101 701 50000 [])
    \<and> table_entry (fst (snd (process_tun_tcp_session_segment_with_relay_plan (\<lambda>i. 9)
          (sample_segment 0x04 101 701 50000 []) sample_relay None 5 1024
          (sample_table Established 6, ())))) (sample_key 40000)
        = table_entry (sample_table Established 6) (sample_key 40000)"
proof -
  obtain packet where packet:
      "parse_tun_tcp_segment packet = Ok (sample_segment 0x04 101 701 50000 [])"
    using sample_packet_parses [of "0x04" "[]" 101 701 50000] by (auto simp: flags_from_bits_def)
  have "flow_key (seg_flow (sample_segment 0x04 101 701 50000 [])) \<noteq> Some (sample_key 40000)"
    by (simp add: flow_key_def sample_segment_simps) (simp add: sample_key_def)
  moreover obtain result t' r' where "process_tun_tcp_session_segment_with_relay_plan (\<lambda>i. 9)
      (sample_segment 0x04 101 701 50000 []) sample_relay None 5 1024 (sample_table Established 6, ())
    = (result, (t', r'))"
    by (rule prod_cases3)
  ultimately show ?thesis
    using process_keeps_table [OF sample_relay_total sample_table_inv(2) packet] packet by force
qed

text \<open>Processing a parsed segment never panics, and the only errors are a failure of the relay, a
  full session table, and a server payload too large for one packet.\<close>

theorem process_errors:
  assumes "relay_total relay" and "table_inv t" and "parse_tun_tcp_segment packet = Ok segment"
  shows "case fst (process_tun_tcp_session_segment_with_relay_plan clk segment relay plan isn w (t, r)) of
      Ok step \<Rightarrow> True
    | Err error \<Rightarrow> (\<exists>e. error = SessionRelay e)
        \<or> (\<exists>active max_active. error = SessionPacket (TcpSessionLimitExceeded active max_active))
        \<or> (\<exists>version len max_len. error = SessionPacket (TcpResponsePayloadTooLarge version len max_len))
    | Panic \<Rightarrow> False"
proof -
  obtain k where "keyed k segment" using assms(3) by (rule parsed_segment_keyed)
  then have "okay (seg_flow segment) t (answers k)
      (fst (process_tun_tcp_session_segment_with_relay_plan clk segment relay plan isn w (t, r)))
      (fst (snd (process_tun_tcp_session_segment_with_relay_plan clk segment relay plan isn w (t, r))),
       snd (snd (process_tun_tcp_session_segment_with_relay_plan clk segment relay plan isn w (t, r))))"
    using assms(1,2) by (intro process_okay) auto
  then show ?thesis
    by (auto simp: okay_def elim!: step_error.elims split: outcome.splits)
qed

theorem process_errors_witness:
  "\<exists>packet. parse_tun_tcp_segment packet = Ok (sample_segment 0x11 101 701 40000 [])
    \<and> fst (process_tun_tcp_session_segment_with_relay_plan (\<lambda>i. 9)
        (sample_segment 0x11 101 701 40000 []) sample_relay None 5 1024 (sample_table Established 6, ()))
      \<noteq> Panic"
proof -
  obtain packet where packet:
      "parse_tun_tcp_segment packet = Ok (sample_segment 0x11 101 701 40000 [])"
    using sample_packet_parses [of "0x11" "[]" 101 701 40000] by (auto simp: flags_from_bits_def)
  then show ?thesis
    using process_errors [OF sample_relay_total sample_table_inv(2) packet, of "\<lambda>i. 9" None 5 1024 "()"]
    by (auto split: outcome.splits)
qed

text \<open>C6. Every packet a step writes back to the device is a TCP segment on the reversed flow of the
  segment that caused it, so a reply always reaches the sender and nobody else.\<close>

theorem process_replies_to_sender:
  assumes "relay_total relay" and "table_inv t" and "parse_tun_tcp_segment packet = Ok segment"
    and "process_tun_tcp_session_segment_with_relay_plan clk segment relay plan isn w (t, r) = (Ok step, s')"
    and "reply_packet \<in> set (response_packets step)"
  shows "\<exists>response. parse_tun_tcp_segment reply_packet = Ok response
    \<and> seg_flow response = swap_flow (seg_flow segment)"
proof -
  obtain k where k: "keyed k segment" using assms(3) by (rule parsed_segment_keyed)
  then have "okay (seg_flow segment) t (answers k) (Ok step) (fst s', snd s')"
    using assms(1,2,4) by (intro process_okay) auto
  with assms(5) have "reply k reply_packet"
    by (simp add: okay_def answers_def list_all_iff)
  then show ?thesis using k by (rule reply_parses)
qed

theorem process_replies_to_sender_witness:
  "\<exists>packet frame. parse_tun_tcp_segment packet = Ok (sample_segment 0x10 101 701 50000 [])
    \<and> process_tun_tcp_session_segment_with_relay_plan (\<lambda>i. 9) (sample_segment 0x10 101 701 50000 [])
        sample_relay None 5 1024 (sample_table Established 6, ())
      = (Ok (StepReset frame), (sample_table Established 6, ()))
    \<and> (\<exists>response. parse_tun_tcp_segment (rst_packet frame) = Ok response
        \<and> seg_flow response = swap_flow ((sample_flow Tcp)\<lparr>flow_source_port := Some 50000\<rparr>))"
proof -
  let ?segment = "sample_segment 0x10 101 701 50000 []"
  obtain packet where packet: "parse_tun_tcp_segment packet = Ok ?segment"
    using sample_packet_parses [of "0x10" "[]" 101 701 50000] by (auto simp: flags_from_bits_def)
  have "\<not> is_initial_tcp_syn_segment ?segment" "seg_ack ?segment" "\<not> seg_rst ?segment"
    by (simp_all add: is_initial_tcp_syn_segment_def sample_segment_def flags_from_bits_def flag_defs)
  then obtain frame where run: "process_tun_tcp_session_segment_with_relay_plan (\<lambda>i. 9) ?segment
      sample_relay None 5 1024 (sample_table Established 6, ())
    = (Ok (StepReset frame), (sample_table Established 6, ()))"
    using unknown_segment_run [OF sample_unknown, of "0x10" 101 701 "[]" "\<lambda>i. 9" sample_relay None 5 1024]
    by force
  show ?thesis
    using process_replies_to_sender [OF sample_relay_total sample_table_inv(2) packet run] run packet
    by (auto simp: sample_segment_simps)
qed

text \<open>A segment with RST set is never answered.\<close>

theorem rst_never_answered:
  assumes "seg_rst segment"
    and "process_tun_tcp_session_segment_with_relay_plan clk segment relay plan isn w s = (Ok step, s')"
  shows "response_packets step = []"
proof -
  have none: "reply = None" if "remove_on_close now segment t = (Ok (Some (session, reply)), t')"
    for now t session reply t'
    using that assms(1)
    by (auto simp: remove_on_close_def with_entry_def run_op split: option.splits if_splits outcome.splits)
  show ?thesis
    using assms
    by (auto dest!: none simp: process_tun_tcp_session_segment_with_relay_plan_def step_close_def step_fin_with_payload_def
        step_fin_without_payload_def step_remove_on_close_def step_fin_after_close_def step_unknown_fin_def
        step_rst_markers_def if_some_def sbind_def on_table_def on_relay_def on_fst_def on_snd_def
        with_err_def ret_def
        split: prod.splits outcome.splits option.splits if_splits)
qed

theorem rst_never_answered_witness:
  "\<exists>step s'. process_tun_tcp_session_segment_with_relay_plan (\<lambda>i. 9) (sample_segment 0x04 101 701 50000 [])
      sample_relay None 5 1024 (sample_table Established 6, ()) = (Ok step, s')
    \<and> response_packets step = []"
proof -
  let ?segment = "sample_segment 0x04 101 701 50000 []"
  have flags: "\<not> is_initial_tcp_syn_segment ?segment" "seg_rst ?segment"
    by (simp_all add: is_initial_tcp_syn_segment_def sample_segment_def flags_from_bits_def flag_defs)
  then obtain step where run: "process_tun_tcp_session_segment_with_relay_plan (\<lambda>i. 9) ?segment
      sample_relay None 5 1024 (sample_table Established 6, ()) = (Ok step, (sample_table Established 6, ()))"
    using unknown_segment_run [OF sample_unknown, of "0x04" 101 701 "[]" "\<lambda>i. 9" sample_relay None 5 1024]
    by force
  show ?thesis using rst_never_answered [OF flags(2) run] run by blast
qed

text \<open>A segment of a connection the table does not know, other than a connection attempt, changes
  neither the table nor the relay; it is answered with a reset, except that a reset and a segment
  without flags and data are ignored.\<close>

theorem unknown_segment_reset:
  assumes "parse_tun_tcp_segment packet = Ok segment"
    and "flow_key (seg_flow segment) = Some key" and "table_entry t key = (None, None, None)"
    and "\<not> is_initial_tcp_syn_segment segment"
  shows "\<exists>step. process_tun_tcp_session_segment_with_relay_plan clk segment relay plan isn w (t, r)
      = (Ok step, (t, r))
    \<and> (if seg_rst segment \<or> (\<not> seg_syn segment \<and> \<not> seg_fin segment \<and> \<not> seg_ack segment \<and> seg_payload segment = [])
       then step = StepNoop
       else \<exists>frame. step = StepReset frame \<and> build_tun_tcp_session_reset_frame segment = Ok frame)"
  by (rule unknown_segment_run [OF parsed_flow_keyed [OF assms(1,2)] assms(3,4)])

theorem unknown_segment_reset_witness:
  "\<exists>packet frame. parse_tun_tcp_segment packet = Ok (sample_segment 0x10 101 701 50000 [])
    \<and> process_tun_tcp_session_segment_with_relay_plan (\<lambda>i. 9) (sample_segment 0x10 101 701 50000 [])
        sample_relay None 5 1024 (sample_table Established 6, ())
      = (Ok (StepReset frame), (sample_table Established 6, ()))"
proof -
  let ?segment = "sample_segment 0x10 101 701 50000 []"
  obtain packet where packet: "parse_tun_tcp_segment packet = Ok ?segment"
    using sample_packet_parses [of "0x10" "[]" 101 701 50000] by (auto simp: flags_from_bits_def)
  have entry: "flow_key (seg_flow ?segment) = Some (sample_key 50000)"
      "table_entry (sample_table Established 6) (sample_key 50000) = (None, None, None)"
    by (simp_all add: flow_key_def sample_segment_simps table_entry_def sample_table_def sample_key_def)
  have flags: "\<not> is_initial_tcp_syn_segment ?segment" "seg_ack ?segment" "\<not> seg_rst ?segment"
    by (simp_all add: is_initial_tcp_syn_segment_def sample_segment_def flags_from_bits_def flag_defs)
  show ?thesis
    using unknown_segment_reset [OF packet entry flags(1), of "\<lambda>i. 9" sample_relay None 5 1024 "()"] flags(2,3) packet by auto
qed

text \<open>A connection attempt on a flow whose session is already established (or half-closed by the
  client) is ignored: no reply, and neither the table nor the relay changes.\<close>

theorem syn_on_open_session_ignored:
  assumes "is_initial_tcp_syn_segment segment" and "\<not> seg_fin segment"
    and "flow_key (seg_flow segment) = Some key"
    and "map_of (sessions t) key = Some session" and "ses_phase session \<noteq> SynReceived"
  shows "process_tun_tcp_session_segment_with_relay_plan clk segment relay plan isn w (t, r)
    = (Ok StepNoop, (t, r))"
proof -
  have "session_key_from_flow (seg_flow segment) = Ok key"
    using assms(3) by (auto simp: flow_key_def split: outcome.splits)
  moreover have "\<not> seg_rst segment"
    using assms(1) by (auto simp: is_initial_tcp_syn_segment_def)
  moreover have "tun_tcp_phase_accepts_server_response (ses_phase session)"
    using assms(5) by (cases "ses_phase session") (simp_all add: tun_tcp_phase_accepts_server_response_def)
  ultimately show ?thesis
    using assms by (auto simp: step_defs run_step acknowledge_retransmitted_syn_def with_entry_def
        table_get_flow_def get_flow_def)
qed

theorem syn_on_open_session_ignored_witness:
  "process_tun_tcp_session_segment_with_relay_plan (\<lambda>i. 9) (sample_segment 0x02 500 0 40000 [])
     sample_relay None 5 1024 (sample_table Established 6, ())
   = (Ok StepNoop, (sample_table Established 6, ()))"
proof (rule syn_on_open_session_ignored)
  show "flow_key (seg_flow (sample_segment 0x02 500 0 40000 [])) = Some (sample_key 40000)"
    by (simp add: flow_key_def sample_segment_simps)
  show "map_of (sessions (sample_table Established 6)) (sample_key 40000) = Some (sample_session Established 6)"
    by (simp add: sample_table_def)
qed (simp_all add: is_initial_tcp_syn_segment_def sample_segment_def flags_from_bits_def flag_defs
    sample_session_def)


end
