(* ===== verification/Keli_Tun_Stream.thy ===== *)
theory Keli_Tun_Stream
  imports Keli_Tun_Step_Facts
begin

text \<open>
  The client's byte stream through the session machine: over any sequence of segments and prunings,
  what is handed to the relay for one session is a prefix of the client's stream, in order, without
  gaps or repetitions. And two inputs on which the machine acknowledges data it never delivers.
\<close>

section \<open>Recording what a relay is given\<close>

text \<open>\<open>recording relay\<close> behaves as \<open>relay\<close> and keeps the list of client payloads passed to
  \<open>write_client_payload\<close>, whether the relay accepts them or not.\<close>

definition recording :: "'r tcp_session_relay \<Rightarrow> ('r \<times> tun_tcp_client_payload_frame list) tcp_session_relay" where
  "recording relay =
     \<lparr>establish_session = (\<lambda>session. on_fst (establish_session relay session)),
      establish_session_with_plan = (\<lambda>session plan. on_fst (establish_session_with_plan relay session plan)),
      write_client_payload = (\<lambda>frame (r, log).
        case write_client_payload relay frame r of (result, r') \<Rightarrow> (result, (r', log @ [frame]))),
      shutdown_client_write = (\<lambda>session. on_fst (shutdown_client_write relay session)),
      read_server_event = (\<lambda>session. on_fst (read_server_event relay session)),
      poll_server_event = (\<lambda>session. on_fst (poll_server_event relay session)),
      close_session = (\<lambda>session. on_fst (close_session relay session))\<rparr>"

definition delivered :: "tun_tcp_session_key \<Rightarrow> tun_tcp_client_payload_frame list \<Rightarrow> bytes" where
  "delivered key log = concat (map cpf_payload (filter (\<lambda>frame. ses_key (cpf_session frame) = key) log))"

text \<open>Byte \<open>i\<close> of the client's stream has sequence number \<open>base + i\<close> and value \<open>stream (base + i)\<close>.\<close>

definition stream_part :: "(u32 \<Rightarrow> u8) \<Rightarrow> u32 \<Rightarrow> nat \<Rightarrow> bytes" where
  "stream_part stream base n = map (\<lambda>i. stream (base + of_nat i)) [0..<n]"

definition in_stream :: "(u32 \<Rightarrow> u8) \<Rightarrow> u32 \<Rightarrow> tun_tcp_session_key
    \<Rightarrow> tun_tcp_session_table \<times> ('r \<times> tun_tcp_client_payload_frame list) \<Rightarrow> bool" where
  "in_stream stream base key x \<longleftrightarrow> (case x of (t, _, log) \<Rightarrow>
     table_inv t
     \<and> delivered key log = stream_part stream base (length (delivered key log))
     \<and> (\<forall>s. map_of (sessions t) key = Some s \<longrightarrow> ses_phase s \<noteq> ClientFinReceived \<longrightarrow>
          ses_client_next_sequence_number s = base + of_nat (length (delivered key log))))"

lemma stream_part_append:
  "stream_part stream base (m + n) = stream_part stream base m @ stream_part stream (base + of_nat m) n"
  by (induction n) (simp_all add: stream_part_def add_ac)

lemma length_stream_part [simp]: "length (stream_part stream base n) = n"
  by (simp add: stream_part_def)

lemma drop_stream_part:
  assumes "payload = stream_part stream base (length payload)"
  shows "drop k payload = stream_part stream (base + of_nat k) (length payload - k)"
proof (cases "k \<le> length payload")
  case True
  then have "payload = stream_part stream base k @ stream_part stream (base + of_nat k) (length payload - k)"
    using assms stream_part_append [of stream base k "length payload - k"] by simp
  then show ?thesis
    by (metis append_eq_conv_conj length_stream_part)
qed (simp add: stream_part_def)

lemma delivered_snoc:
  "delivered key (log @ [frame]) =
    delivered key log @ (if ses_key (cpf_session frame) = key then cpf_payload frame else [])"
  by (simp add: delivered_def)

section \<open>Parts of a step on the recorded relay\<close>

abbreviation keeps :: "(tun_tcp_session_table \<times> ('r \<times> tun_tcp_client_payload_frame list) \<Rightarrow> bool)
    \<Rightarrow> ('r \<times> tun_tcp_client_payload_frame list, 'a) step_op \<Rightarrow> bool" where
  "keeps P m \<equiv> triple P m (\<lambda>_. P)"

lemma keeps_ret: "keeps P (ret x)"
  by (simp add: triple_def ret_def)

lemma keeps_sbind: "keeps P m \<Longrightarrow> (\<And>x. keeps P (f x)) \<Longrightarrow> keeps P (sbind m f)"
  by (rule triple_sbind) auto

lemma keeps_if_some: "keeps P m \<Longrightarrow> (\<And>x. keeps P (k x)) \<Longrightarrow> keeps P rest \<Longrightarrow> keeps P (if_some m k rest)"
  by (rule triple_if_some) auto

lemma keeps_if: "(b \<Longrightarrow> keeps P m) \<Longrightarrow> (\<not> b \<Longrightarrow> keeps P m') \<Longrightarrow> keeps P (if b then m else m')"
  by simp

lemma keeps_case_option: "keeps P m \<Longrightarrow> (\<And>y. keeps P (f y)) \<Longrightarrow> keeps P (case x of None \<Rightarrow> m | Some y \<Rightarrow> f y)"
  by (simp split: option.split)

lemma keeps_case_prod: "(\<And>a b. keeps P (f a b)) \<Longrightarrow> keeps P (case x of (a, b) \<Rightarrow> f a b)"
  by (simp split: prod.split)

lemma keeps_case_read:
  "keeps P a \<Longrightarrow> (\<And>x. keeps P (f x)) \<Longrightarrow> keeps P b
    \<Longrightarrow> keeps P (case event of ReadNoPayload \<Rightarrow> a | ReadPayload x \<Rightarrow> f x | ReadClosed \<Rightarrow> b)"
  by (simp split: tun_tcp_server_read.split)

lemma keeps_on_relay:
  "keeps (in_stream stream base key) (on_relay (on_fst m))"
  by (auto simp: triple_def on_relay_def on_snd_def on_fst_def with_err_def in_stream_def
      split: prod.splits)

lemma keeps_recording_relay:
  "keeps (in_stream stream base key) (on_relay (establish_session (recording relay) session))"
  "keeps (in_stream stream base key) (on_relay (establish_session_with_plan (recording relay) session plan))"
  "keeps (in_stream stream base key) (on_relay (shutdown_client_write (recording relay) session))"
  "keeps (in_stream stream base key) (on_relay (read_server_event (recording relay) session))"
  "keeps (in_stream stream base key) (on_relay (poll_server_event (recording relay) session))"
  "keeps (in_stream stream base key) (on_relay (close_session (recording relay) session))"
  by (simp_all add: recording_def keeps_on_relay)

lemma in_stream_quiet:
  assumes "in_stream stream base key (t, r, log)" and "table_inv t'" and "quiet key t t'"
  shows "in_stream stream base key (t', r', log)"
  unfolding in_stream_def split_def fst_conv snd_conv
proof (intro conjI allI impI)
  fix s' assume s': "map_of (sessions t') key = Some s'" "ses_phase s' \<noteq> ClientFinReceived"
  then obtain s where "map_of (sessions t) key = Some s" "ses_phase s \<le> ses_phase s'"
      "ses_client_next_sequence_number s' = ses_client_next_sequence_number s"
    using assms(3) unfolding quiet_def by blast
  moreover from this s'(2) have "ses_phase s \<noteq> ClientFinReceived" by auto
  ultimately show "ses_client_next_sequence_number s' = base + of_nat (length (delivered key log))"
    using assms(1) by (simp add: in_stream_def)
qed (use assms in \<open>auto simp: in_stream_def\<close>)

lemma keeps_on_table:
  assumes "\<And>t r t'. table_inv t \<Longrightarrow> m t = (r, t') \<Longrightarrow> table_inv t' \<and> quiet key t t'"
  shows "keeps (in_stream stream base key) (on_table m)"
proof (rule tripleI)
  fix s :: "tun_tcp_session_table \<times> ('r \<times> tun_tcp_client_payload_frame list)" and r s'
  assume s: "in_stream stream base key s" and run: "on_table m s = (r, s')"
  obtain t q log where eq: "s = (t, q, log)" by (cases s)
  obtain result t' where m: "m t = (result, t')" by fastforce
  have "table_inv t' \<and> quiet key t t'" using assms [OF _ m] s by (simp add: eq in_stream_def)
  moreover have "s' = (t', q, log)" using run m by (simp add: eq on_table_def on_fst_def with_err_def)
  ultimately show "in_stream stream base key s'" using s by (auto simp: eq intro: in_stream_quiet)
qed

lemmas quiet_methods = acknowledge_retransmitted_syn_quiet apply_ack_quiet
  acknowledge_duplicate_client_payload_quiet acknowledge_out_of_order_client_payload_quiet
  retransmit_server_payload_quiet retransmit_server_payload_for_duplicate_client_fin_quiet
  acknowledge_client_fin_quiet acknowledge_duplicate_client_fin_quiet server_payload_poll_session_quiet
  acknowledge_client_ack_quiet remove_on_close_quiet retransmit_server_close_quiet
  retransmit_server_close_for_duplicate_client_fin_quiet acknowledge_server_close_quiet
  acknowledge_server_close_with_client_fin_quiet remove_server_close_on_rst_quiet
  acknowledge_post_close_ack_quiet acknowledge_post_close_client_fin_quiet remove_post_close_on_rst_quiet

lemma keeps_methods:
  "keeps (in_stream stream base key) (on_table (acknowledge_retransmitted_syn now segment))"
  "keeps (in_stream stream base key) (on_table (apply_ack now segment))"
  "keeps (in_stream stream base key) (on_table (acknowledge_duplicate_client_payload now segment))"
  "keeps (in_stream stream base key) (on_table (acknowledge_out_of_order_client_payload now segment))"
  "keeps (in_stream stream base key) (on_table (retransmit_server_payload now segment))"
  "keeps (in_stream stream base key) (on_table (retransmit_server_payload_for_duplicate_client_fin now segment))"
  "keeps (in_stream stream base key) (on_table (acknowledge_client_fin now segment))"
  "keeps (in_stream stream base key) (on_table (acknowledge_duplicate_client_fin now segment))"
  "keeps (in_stream stream base key) (on_table (server_payload_poll_session now segment))"
  "keeps (in_stream stream base key) (on_table (acknowledge_client_ack now segment))"
  "keeps (in_stream stream base key) (on_table (remove_on_close now segment))"
  "keeps (in_stream stream base key) (on_table (retransmit_server_close now segment))"
  "keeps (in_stream stream base key) (on_table (retransmit_server_close_for_duplicate_client_fin now segment))"
  "keeps (in_stream stream base key) (on_table (acknowledge_server_close now segment))"
  "keeps (in_stream stream base key) (on_table (acknowledge_server_close_with_client_fin now segment))"
  "keeps (in_stream stream base key) (on_table (remove_server_close_on_rst segment))"
  "keeps (in_stream stream base key) (on_table (acknowledge_post_close_ack now segment))"
  "keeps (in_stream stream base key) (on_table (acknowledge_post_close_client_fin now segment))"
  "keeps (in_stream stream base key) (on_table (remove_post_close_on_rst segment))"
  by (rule keeps_on_table, rule conjI, erule (1) segment_methods_ok [THEN step_ok_inv], erule quiet_methods)+

lemma keeps_server_methods:
  "keeps (in_stream stream base key) (on_table (send_server_payload now flow payload))"
  "keeps (in_stream stream base key) (on_table (close_server_side now k))"
  "keeps (in_stream stream base key) (on_table (table_get_flow flow))"
  "keeps (in_stream stream base key) (on_table (lift result))"
  by (rule keeps_on_table; auto dest: send_server_payload_ok close_server_side_ok
      intro: send_server_payload_quiet close_server_side_quiet simp: table_get_flow_def lift_def)+

lemmas keeps_rules = keeps_ret keeps_sbind keeps_if_some keeps_if keeps_case_option keeps_case_prod
  keeps_case_read keeps_recording_relay keeps_methods keeps_server_methods

lemma keeps_server_event:
  "keeps (in_stream stream base key) (close_tun_tcp_session_from_server now (recording relay) session)"
  "keeps (in_stream stream base key) (relay_server_event now (recording relay) session event)"
  "keeps (in_stream stream base key) (read_tun_tcp_server_event_after_client_payload now (recording relay) frame)"
  "keeps (in_stream stream base key) (read_tun_tcp_server_event_after_client_fin now (recording relay) session)"
  unfolding read_tun_tcp_server_event_after_client_payload_def read_tun_tcp_server_event_after_client_fin_def
    relay_server_event_def close_tun_tcp_session_from_server_def
  by (intro keeps_rules)+

section \<open>Accepted data\<close>

text \<open>A segment of the session \<open>key\<close> that does not open a connection and carries a part of the stream.\<close>

definition carries :: "(u32 \<Rightarrow> u8) \<Rightarrow> tun_tcp_session_key \<Rightarrow> tun_tcp_segment \<Rightarrow> bool" where
  "carries stream key segment \<longleftrightarrow> tcp_flow (seg_flow segment)
     \<and> (flow_key (seg_flow segment) = Some key \<longrightarrow> \<not> is_initial_tcp_syn_segment segment
         \<and> seg_payload segment = stream_part stream (seg_sequence_number segment) (length (seg_payload segment)))"

definition pending :: "(u32 \<Rightarrow> u8) \<Rightarrow> u32 \<Rightarrow> tun_tcp_session_key \<Rightarrow> tun_tcp_client_payload_frame
    \<Rightarrow> tun_tcp_session_table \<times> ('r \<times> tun_tcp_client_payload_frame list) \<Rightarrow> bool" where
  "pending stream base key frame x \<longleftrightarrow> (case x of (t, r, log) \<Rightarrow>
     in_stream stream base key (t, r, log @ [frame]))"

lemma delivers_in_stream:
  assumes "in_stream stream base key (t, r, log)" and "carries stream key segment"
    and "session_key_from_flow (seg_flow segment) = Ok k" and "map_of (sessions t) k = Some s"
    and "delivers s segment frame" and "table_inv t'"
    and "map_of (sessions t') = (map_of (sessions t))(k \<mapsto> cpf_session frame)"
    and "seg_fin segment \<longrightarrow> ses_phase (cpf_session frame) = ClientFinReceived"
  shows "in_stream stream base key (t', r', log @ [frame])"
proof -
  have ok: "session_ok k (cpf_session frame)"
    using table_inv_entries(1) [OF assms(6), of k] assms(7) by simp
  show ?thesis
  proof (cases "k = key")
    case True
    let ?n = "length (delivered key log)"
    obtain offset where offset: "offset < length (seg_payload segment)"
        "ses_client_next_sequence_number s = seg_sequence_number segment + of_nat offset"
        "cpf_payload frame = drop offset (seg_payload segment)"
        "ses_phase s = Established"
        "ses_client_next_sequence_number (cpf_session frame) =
          ses_client_next_sequence_number s + of_nat (length (cpf_payload frame)) + (if seg_fin segment then 1 else 0)"
      using assms(5) unfolding delivers_def by blast
    have "ses_client_next_sequence_number s = base + of_nat ?n"
      using assms(1,4) offset(4) True by (simp add: in_stream_def)
    moreover have "seg_payload segment = stream_part stream (seg_sequence_number segment) (length (seg_payload segment))"
      using assms(2,3) True by (simp add: carries_def flow_key_def)
    ultimately have "cpf_payload frame = stream_part stream (base + of_nat ?n) (length (cpf_payload frame))"
      using offset drop_stream_part by (metis length_drop)
    moreover have "ses_key (cpf_session frame) = key" using ok True by (simp add: session_ok_def)
    ultimately have "delivered key (log @ [frame]) = stream_part stream base (length (delivered key (log @ [frame])))"
      using assms(1) stream_part_append [of stream base ?n "length (cpf_payload frame)"]
      by (simp add: in_stream_def delivered_snoc)
    then show ?thesis
      using assms(6-8) offset(5) True \<open>ses_client_next_sequence_number s = base + of_nat ?n\<close>
        \<open>ses_key (cpf_session frame) = key\<close>
      by (auto simp: in_stream_def delivered_snoc add_ac)
  next
    case False
    then show ?thesis
      using assms(1,6,7) ok by (auto simp: in_stream_def delivered_snoc session_ok_def)
  qed
qed

lemma accept_pending:
  assumes "carries stream key segment" and "\<not> seg_fin segment"
    and m: "m = accept_client_payload now segment \<or> m = accept_overlapping_client_payload now segment"
  shows "triple (in_stream stream base key) (on_table m)
    (\<lambda>r. case r of Ok (Some frame) \<Rightarrow> pending stream base key frame | _ \<Rightarrow> in_stream stream base key)"
proof (rule tripleI)
  fix x :: "tun_tcp_session_table \<times> ('r \<times> tun_tcp_client_payload_frame list)" and r x'
  assume x: "in_stream stream base key x" and run: "on_table m x = (r, x')"
  obtain t q log where eq: "x = (t, q, log)" by (cases x)
  obtain result t' where mt: "m t = (result, t')" by fastforce
  have x': "r = map_err SessionPacket result" "x' = (t', q, log)"
    using run mt by (simp_all add: eq on_table_def on_fst_def with_err_def)
  have "table_inv t" using x by (simp add: eq in_stream_def)
  then have ok: "step_ok (seg_flow segment) cpf_ok t result t'"
    using m mt by (auto dest: accept_client_payload_ok accept_overlapping_client_payload_ok)
  show "(case r of Ok (Some frame) \<Rightarrow> pending stream base key frame | _ \<Rightarrow> in_stream stream base key) x'"
  proof (cases "\<exists>frame. result = Ok (Some frame)")
    case True
    then obtain frame where frame: "result = Ok (Some frame)" by blast
    then obtain k s where "session_key_from_flow (seg_flow segment) = Ok k" "map_of (sessions t) k = Some s"
        "delivers s segment frame" "t' = t\<lparr>sessions := AList.update k (cpf_session frame) (sessions t)\<rparr>"
      using m mt by (auto elim: accept_client_payload_delivers accept_overlapping_client_payload_delivers)
    then have "in_stream stream base key (t', q, log @ [frame])"
      using step_ok_inv [OF ok] assms(2)
      by (intro delivers_in_stream [OF x [unfolded eq] assms(1)]) (assumption | simp add: update_conv')+
    then show ?thesis by (simp add: x' frame pending_def)
  next
    case False
    moreover have "\<forall>e. result \<noteq> Err e" "result \<noteq> Panic"
      using ok assms(1) by (auto simp: step_ok_def carries_def)
    ultimately have "result = Ok None" by (cases result) auto
    then show ?thesis using m mt x by (auto simp: x' eq dest: accept_none_unchanged)
  qed
qed

lemma accept_fin_pending:
  assumes "carries stream key segment"
  shows "triple (in_stream stream base key) (on_table (accept_client_fin_with_payload now segment))
    (\<lambda>r. case r of Ok (Some (frame, response)) \<Rightarrow> pending stream base key frame | _ \<Rightarrow> in_stream stream base key)"
proof (rule tripleI)
  fix x :: "tun_tcp_session_table \<times> ('r \<times> tun_tcp_client_payload_frame list)" and r x'
  assume x: "in_stream stream base key x"
    and run: "on_table (accept_client_fin_with_payload now segment) x = (r, x')"
  obtain t q log where eq: "x = (t, q, log)" by (cases x)
  obtain result t' where mt: "accept_client_fin_with_payload now segment t = (result, t')" by fastforce
  have x': "r = map_err SessionPacket result" "x' = (t', q, log)"
    using run mt by (simp_all add: eq on_table_def on_fst_def with_err_def)
  have ok: "step_ok (seg_flow segment) fin_payload_ok t result t'"
    using x mt by (auto simp: eq in_stream_def dest: accept_client_fin_with_payload_ok)
  show "(case r of Ok (Some (frame, response)) \<Rightarrow> pending stream base key frame | _ \<Rightarrow> in_stream stream base key) x'"
  proof (cases "\<exists>frame response. result = Ok (Some (frame, response))")
    case True
    then obtain frame response where frame: "result = Ok (Some (frame, response))" by blast
    then obtain k s where "session_key_from_flow (seg_flow segment) = Ok k" "map_of (sessions t) k = Some s"
        "delivers s segment frame" "ses_phase (cpf_session frame) = ClientFinReceived"
        "map_of (sessions t') = (map_of (sessions t))(k \<mapsto> cpf_session frame)"
      using mt by (auto elim: accept_client_fin_with_payload_delivers)
    then have "in_stream stream base key (t', q, log @ [frame])"
      using step_ok_inv [OF ok]
      by (intro delivers_in_stream [OF x [unfolded eq] assms(1)]) (assumption | simp)+
    then show ?thesis by (simp add: x' frame pending_def)
  next
    case False
    moreover have "\<forall>e. result \<noteq> Err e" "result \<noteq> Panic"
      using ok assms(1) by (auto simp: step_ok_def carries_def)
    ultimately have "result = Ok None" by (metis outcome.exhaust not_Some_eq surj_pair)
    then show ?thesis using mt x by (auto simp: x' eq dest: accept_none_unchanged)
  qed
qed

lemma write_pending:
  "triple (pending stream base key frame) (on_relay (write_client_payload (recording relay) frame))
    (\<lambda>_. in_stream stream base key)"
  by (auto simp: triple_def on_relay_def on_snd_def with_err_def recording_def pending_def in_stream_def
      split: prod.splits)

section \<open>A whole step\<close>

lemma keeps_accept:
  assumes "carries stream key segment" and "\<not> seg_fin segment"
    and "m = accept_client_payload now segment \<or> m = accept_overlapping_client_payload now segment"
    and "\<And>frame. keeps (in_stream stream base key) (k frame)" and "keeps (in_stream stream base key) rest"
  shows "keeps (in_stream stream base key)
    (if_some (on_table m) (\<lambda>frame. sbind (on_relay (write_client_payload (recording relay) frame)) (\<lambda>_. k frame)) rest)"
  using assms(4,5)
  by (intro triple_if_some [OF accept_pending [OF assms(1-3)]]) (auto intro: triple_sbind [OF write_pending])

lemmas keeps_accepts = keeps_accept [OF _ _ disjI1 [OF refl]] keeps_accept [OF _ _ disjI2 [OF refl]]

lemma keeps_client_payload:
  assumes "carries stream key segment" and "\<not> seg_fin segment" and "keeps (in_stream stream base key) rest"
  shows "keeps (in_stream stream base key) (step_client_payload clk (recording relay) segment rest)"
  unfolding step_client_payload_def
  by (intro keeps_accepts [OF assms(1,2)] keeps_rules keeps_server_event assms(3))

lemma keeps_accept_fin:
  assumes "carries stream key segment" and "\<And>frame response. keeps (in_stream stream base key) (k frame response)"
    and "keeps (in_stream stream base key) rest"
  shows "keeps (in_stream stream base key) (if_some (on_table (accept_client_fin_with_payload now segment))
    (\<lambda>(frame, response). sbind (on_relay (write_client_payload (recording relay) frame)) (\<lambda>_. k frame response)) rest)"
  using assms(2,3)
  by (intro triple_if_some [OF accept_fin_pending [OF assms(1)]]) (auto intro: triple_sbind [OF write_pending])

lemma keeps_fin_with_payload:
  assumes "carries stream key segment" and "keeps (in_stream stream base key) rest"
  shows "keeps (in_stream stream base key) (step_fin_with_payload clk (recording relay) segment rest)"
  unfolding step_fin_with_payload_def step_duplicate_fin_def
  by (intro keeps_accept_fin [OF assms(1)] keeps_rules keeps_server_event assms(2))

lemma keeps_establish:
  "keeps (in_stream stream base key) (on_relay (case plan of
      Some p \<Rightarrow> establish_session_with_plan (recording relay) session p
    | None \<Rightarrow> establish_session (recording relay) session))"
  by (simp add: keeps_recording_relay split: option.split)

lemma start_from_syn_quiet:
  assumes "flow_key (seg_flow segment) \<noteq> Some key" and "start_from_syn now segment isn w t = (r, t')"
  shows "quiet key t t'"
  using assms
  by (auto simp: start_from_syn_def run_op quiet_def flow_key_def table_simps split: if_splits outcome.splits)

lemma keeps_start:
  assumes "flow_key (seg_flow segment) \<noteq> Some key"
  shows "keeps (in_stream stream base key) (on_table (start_from_syn now segment isn w))"
  using assms by (intro keeps_on_table) (auto dest: start_from_syn_ok intro: start_from_syn_quiet)

lemma keeps_process:
  assumes "carries stream key segment"
  shows "keeps (in_stream stream base key)
    (process_tun_tcp_session_segment_with_relay_plan clk segment (recording relay) plan isn w)"
proof (cases "seg_rst segment \<or> seg_fin segment")
  case True
  then show ?thesis
    unfolding process_tun_tcp_session_segment_with_relay_plan_def step_close_def
    by (simp, intro keeps_fin_with_payload [OF assms])
      (unfold step_fin_without_payload_def step_duplicate_fin_def step_remove_on_close_def
        step_fin_after_close_def step_unknown_fin_def step_rst_markers_def,
       intro keeps_rules keeps_server_event)
next
  case False
  then have "\<not> seg_fin segment" and
    "is_initial_tcp_syn_segment segment \<Longrightarrow> flow_key (seg_flow segment) \<noteq> Some key"
    using assms by (auto simp: carries_def)
  with False show ?thesis
    unfolding process_tun_tcp_session_segment_with_relay_plan_def step_syn_def step_establish_def
      step_pure_ack_def step_poll_def step_unknown_def
    by (simp, intro conjI impI keeps_start keeps_rules keeps_server_event keeps_establish keeps_client_payload [OF assms]) simp_all
qed

section \<open>Runs\<close>

datatype session_input =
    InputSegment "nat \<Rightarrow> instant" tun_tcp_segment "tun_packet_relay_plan option" u32 u16
  | InputPrune instant duration

fun session_machine :: "'r tcp_session_relay \<Rightarrow> tun_tcp_session_table \<times> 'r \<Rightarrow> session_input
    \<Rightarrow> tun_tcp_session_table \<times> 'r" where
  "session_machine relay s (InputSegment clk segment plan isn w) =
     snd (process_tun_tcp_session_segment_with_relay_plan clk segment relay plan isn w s)"
| "session_machine relay s (InputPrune now idle_timeout) =
     snd (prune_idle_tun_tcp_sessions relay now idle_timeout s)"

fun input_carries :: "(u32 \<Rightarrow> u8) \<Rightarrow> tun_tcp_session_key \<Rightarrow> session_input \<Rightarrow> bool" where
  "input_carries stream key (InputSegment clk segment plan isn w) = carries stream key segment"
| "input_carries stream key (InputPrune now idle_timeout) = True"

lemma prune_idle_quiet:
  assumes "table_inv t" and "prune_idle now idle_timeout t = (pruned, t')"
  shows "quiet key t t'"
  using assms by (auto simp: prune_idle_eq quiet_def map_of_fresh table_inv_def split: option.splits if_splits)

lemma close_pruned_log:
  "snd (snd (close_pruned (recording relay) pruned report (r, log))) = log"
  by (induction pruned arbitrary: report r)
    (auto simp: ret_def recording_def on_fst_def split: prod.splits outcome.splits)

lemma session_machine_in_stream:
  assumes "in_stream stream base key s" and "input_carries stream key input"
  shows "in_stream stream base key (session_machine (recording relay) s input)"
proof (cases input)
  case (InputSegment clk segment plan isn w)
  with assms show ?thesis
    by (auto intro: keeps_process [THEN tripleD] prod.collapse [symmetric])
next
  case (InputPrune now idle_timeout)
  obtain t r log where s: "s = (t, r, log)" by (cases s)
  obtain pruned t' where prune: "prune_idle now idle_timeout t = (pruned, t')" by fastforce
  have "fst (session_machine (recording relay) s input) = t'"
    "snd (snd (session_machine (recording relay) s input)) = log"
    by (simp_all add: InputPrune s prune prune_idle_tun_tcp_sessions_def on_snd_def close_pruned_log split: prod.split)
      (metis close_pruned_log snd_conv)
  then obtain r' where "session_machine (recording relay) s input = (t', r', log)"
    by (metis prod.collapse)
  moreover have "table_inv t" using assms(1) by (simp add: s in_stream_def)
  ultimately show ?thesis
    using prune_idle_ok [OF _ prune] prune_idle_quiet [OF _ prune]
    by (simp add: in_stream_quiet [OF assms(1) [unfolded s]])
qed

text \<open>C2. Take any table with a session that has accepted no data yet under \<open>key\<close>, any relay, and any
  sequence of TCP segments and idle prunings, in which the segments of that session do not reopen it and
  carry parts of the client's stream at their sequence numbers, in any order, with retransmissions,
  overlaps and gaps. Then the bytes handed to the relay for the session are exactly the first \<open>n\<close> bytes
  of the stream, for some \<open>n\<close>, and a session that still receives expects byte \<open>n\<close> next.\<close>

theorem client_stream_in_order:
  assumes "table_inv t" and "map_of (sessions t) key = Some session"
    and "\<forall>input \<in> set inputs. input_carries stream key input"
    and "foldl (session_machine (recording relay)) (t, r, []) inputs = (t', r', log)"
  shows "\<exists>n. delivered key log = stream_part stream (ses_client_next_sequence_number session) n
    \<and> (\<forall>s'. map_of (sessions t') key = Some s' \<longrightarrow> ses_phase s' \<noteq> ClientFinReceived \<longrightarrow>
        ses_client_next_sequence_number s' = ses_client_next_sequence_number session + of_nat n)"
proof -
  let ?P = "in_stream stream (ses_client_next_sequence_number session) key"
  have "?P (foldl (session_machine (recording relay)) s inputs)" if "?P s" for s
    using assms(3) that by (induction inputs arbitrary: s) (simp_all add: session_machine_in_stream)
  moreover have "?P (t, r, [])"
    using assms(1,2) by (simp add: in_stream_def delivered_def stream_part_def)
  ultimately have "?P (t', r', log)" using assms(4) by metis
  then show ?thesis by (auto simp: in_stream_def)
qed

definition sample_stream :: "u32 \<Rightarrow> u8" where
  "sample_stream sequence_number = (if sequence_number = 101 then 7 else 8)"

lemma sample_carries: "carries sample_stream (sample_key 40000) (sample_segment 0x18 101 701 40000 [7, 8])"
  by (auto simp: carries_def sample_segment_simps sample_segment_def is_initial_tcp_syn_segment_def
      flags_from_bits_def flag_defs stream_part_def sample_stream_def upt_rec numeral_2_eq_2 sample_flow_def
      tcp_flow_def flow_wf_def)

theorem client_stream_in_order_witness:
  "\<exists>t' r' log n. foldl (session_machine (recording sample_relay)) (sample_table Established 6, (), [])
      [InputSegment (\<lambda>i. 9) (sample_segment 0x18 101 701 40000 [7, 8]) None 5 1024, InputPrune 10 300]
      = (t', r', log)
    \<and> delivered (sample_key 40000) log = stream_part sample_stream 101 n"
proof -
  let ?inputs = "[InputSegment (\<lambda>i. 9) (sample_segment 0x18 101 701 40000 [7, 8]) None 5 1024, InputPrune 10 300]"
  obtain t' r' log where run: "foldl (session_machine (recording sample_relay))
      (sample_table Established 6, (), []) ?inputs = (t', r', log)"
    by (rule prod_cases3)
  have "map_of (sessions (sample_table Established 6)) (sample_key 40000) = Some (sample_session Established 6)"
    by (simp add: sample_table_def)
  from client_stream_in_order [OF sample_table_inv(2) this _ run, of sample_stream] sample_carries run
  show ?thesis by (auto simp: sample_session_def)
qed

section \<open>Data that is delivered at once, and data that is lost\<close>

lemma on_fst_snd: "snd (snd (on_fst m s)) = snd s"
  by (cases s) (simp add: on_fst_def split: prod.split)

lemma read_after_payload_log:
  "snd (snd (snd (read_tun_tcp_server_event_after_client_payload now (recording relay) frame x))) = snd (snd x)"
proof -
  let ?P = "\<lambda>y :: tun_tcp_session_table \<times> 'a \<times> tun_tcp_client_payload_frame list. snd (snd y) = snd (snd x)"
  have relay: "keeps ?P (on_relay (read_server_event (recording relay) session))"
    "keeps ?P (on_relay (close_session (recording relay) session))" for session
    by (auto simp: triple_def on_relay_def on_snd_def with_err_def recording_def on_fst_def split: prod.splits)
  have table: "keeps ?P (on_table (send_server_payload now (ses_flow session) payload))"
    "keeps ?P (on_table (close_server_side now k))" for session payload k
    by (auto simp: triple_def on_table_def on_fst_def with_err_def split: prod.splits)
  have "keeps ?P (read_tun_tcp_server_event_after_client_payload now (recording relay) frame)"
    unfolding read_tun_tcp_server_event_after_client_payload_def relay_server_event_def
      close_tun_tcp_session_from_server_def
    by (intro keeps_sbind keeps_case_read keeps_case_option keeps_ret relay table)
  from tripleD [OF this refl prod.collapse [symmetric]] show ?thesis by simp
qed

lemma accept_in_order:
  assumes "keyed key segment" and "table_inv t" and "map_of (sessions t) key = Some session"
    and "ses_phase session = Established" and "seg_sequence_number segment = ses_client_next_sequence_number session"
    and "seg_payload segment \<noteq> []" and "seg_ack segment" and "\<not> seg_syn segment" and "\<not> seg_rst segment"
    and "tcp_segment_acknowledges_known_server_sequence segment session"
  shows "\<exists>frame. accept_client_payload now segment t =
      (Ok (Some frame), t\<lparr>sessions := AList.update key (cpf_session frame) (sessions t)\<rparr>)
    \<and> cpf_session frame = (clear_server_unacked_payload_if_latest_acknowledged segment session)
        \<lparr>ses_client_next_sequence_number := tcp_segment_next_sequence_number segment, ses_last_activity_at := now\<rparr>
    \<and> cpf_payload frame = seg_payload segment"
proof -
  have key: "session_key_from_flow (seg_flow segment) = Ok key" and flow: "tcp_flow (seg_flow segment)"
    using assms(1) by (simp_all add: keyed_def)
  obtain result t' where run: "accept_client_payload now segment t = (result, t')" by fastforce
  with accept_client_payload_ok [OF assms(2) run] flow have "\<exists>x. result = Ok x"
    by (cases result) (simp_all add: step_ok_def)
  with run assms(3-) key show ?thesis
    by (auto simp: accept_client_payload_def with_entry_def run_op split: outcome.splits)
qed

lemma on_table_run: "m t = (r, t') \<Longrightarrow> on_table m (t, x) = (map_err SessionPacket r, (t', x))"
  by (simp add: on_table_def on_fst_def with_err_def)

lemma on_relay_run: "m x = (r, x') \<Longrightarrow> on_relay m (t, x) = (map_err SessionRelay r, (t, x'))"
  by (simp add: on_relay_def on_snd_def with_err_def)

lemma sbind_run:
  "m s = (Ok x, s') \<Longrightarrow> sbind m f s = f x s'"
  "m s = (Err e, s') \<Longrightarrow> sbind m f s = (Err e, s')"
  "m s = (Panic, s') \<Longrightarrow> sbind m f s = (Panic, s')"
  by (simp_all add: sbind_def)

lemma if_some_run:
  "m s = (Ok (Some x), s') \<Longrightarrow> if_some m k rest s = k x s'"
  "m s = (Ok None, s') \<Longrightarrow> if_some m k rest s = rest s'"
  by (simp_all add: if_some_def sbind_def)

lemma process_established:
  assumes "keyed key segment" and "map_of (sessions t) key = Some session" and "ses_phase session = Established"
    and "seg_ack segment" and "\<not> seg_syn segment" and "\<not> seg_rst segment" and "\<not> seg_fin segment"
  shows "process_tun_tcp_session_segment_with_relay_plan clk segment relay plan isn w (t, x)
    = step_client_payload clk relay segment (step_pure_ack clk relay segment (step_unknown segment)) (t, x)"
proof -
  have "apply_ack (clk 13) segment t = (Ok None, t)"
    using assms(1-3) by (simp add: apply_ack_def with_entry_def run_op keyed_def)
  then have "step_establish clk relay plan segment (t, x) = (Ok None, (t, x))"
    using assms(4,5) by (simp add: step_establish_def sbind_def on_table_run ret_def)
  then show ?thesis
    using assms(4-7) by (simp add: process_tun_tcp_session_segment_with_relay_plan_def
        is_initial_tcp_syn_segment_def sbind_run(1))
qed

lemma step_client_payload_accepts:
  assumes "accept_client_payload (clk 14) segment t = (Ok (Some frame), t1)"
  shows "step_client_payload clk relay segment rest (t, x) =
    sbind (on_relay (write_client_payload relay frame)) (\<lambda>_.
    sbind (read_tun_tcp_server_event_after_client_payload (clk 15) relay frame) (\<lambda>(server_response, server_close).
    ret (StepClientPayload frame server_response server_close))) (t1, x)"
proof -
  have "on_table (accept_client_payload (clk 14) segment) (t, x) = (Ok (Some frame), (t1, x))"
    by (simp add: on_table_run [where m = "accept_client_payload (clk 14) segment", OF assms])
  then show ?thesis
    unfolding step_client_payload_def by (rule if_some_run(1))
qed

text \<open>C12. A data segment that continues the client's stream on an established session is handed to the
  relay at once and completely, whatever the relay answers.\<close>

theorem in_order_payload_delivered:
  assumes "table_inv t" and "parse_tun_tcp_segment packet = Ok segment"
    and "flow_key (seg_flow segment) = Some key" and "map_of (sessions t) key = Some session"
    and "ses_phase session = Established" and "seg_sequence_number segment = ses_client_next_sequence_number session"
    and "seg_payload segment \<noteq> []" and "seg_ack segment" and "\<not> seg_syn segment" and "\<not> seg_rst segment" and "\<not> seg_fin segment"
    and "tcp_segment_acknowledges_known_server_sequence segment session"
    and "process_tun_tcp_session_segment_with_relay_plan clk segment (recording relay) plan isn w (t, r, log)
      = (result, (t', r', log'))"
  shows "\<exists>frame. log' = log @ [frame] \<and> cpf_payload frame = seg_payload segment
    \<and> ses_key (cpf_session frame) = key"
proof -
  have key: "keyed key segment"
    by (rule parsed_flow_keyed [OF assms(2,3)])
  obtain frame where frame: "accept_client_payload (clk 14) segment t =
      (Ok (Some frame), t\<lparr>sessions := AList.update key (cpf_session frame) (sessions t)\<rparr>)"
      "cpf_payload frame = seg_payload segment"
      "ses_key (cpf_session frame) = ses_key session"
    using accept_in_order [OF key assms(1,4-10,12), of "clk 14"]
    by (auto simp: clear_server_unacked_payload_if_latest_acknowledged_def)
  obtain answer r1 where written: "write_client_payload (recording relay) frame (r, log) = (answer, (r1, log @ [frame]))"
    by (cases "write_client_payload relay frame r") (simp add: recording_def)
  have "log' = log @ [frame]"
    using assms(13) read_after_payload_log [of "clk 15" relay frame
        "(t\<lparr>sessions := AList.update key (cpf_session frame) (sessions t)\<rparr>, r1, log @ [frame])"]
    unfolding process_established [OF key assms(4,5,8-11)] step_client_payload_accepts [where clk = clk, OF frame(1)]
    by (cases answer) (auto simp: sbind_def on_relay_run [where m = "write_client_payload (recording relay) frame", OF written] ret_def split: prod.splits outcome.splits)
  moreover have "ses_key session = key" using table_inv_entries(1) [OF assms(1,4)] by (simp add: session_ok_def)
  ultimately show ?thesis using frame by auto
qed

lemma sample_data_parses:
  "\<exists>packet. parse_tun_tcp_segment packet = Ok (sample_segment 0x18 101 701 40000 [7, 8])"
  by (rule sample_packet_parses) (simp_all add: flags_from_bits_def max_tcp_response_payload_def)

lemma sample_data:
  "flow_key (seg_flow (sample_segment 0x18 101 701 40000 [7, 8])) = Some (sample_key 40000)"
  "map_of (sessions (sample_table Established 6)) (sample_key 40000) = Some (sample_session Established 6)"
  "ses_phase (sample_session Established 6) = Established"
  "seg_sequence_number (sample_segment 0x18 101 701 40000 [7, 8]) = ses_client_next_sequence_number (sample_session Established 6)"
  "seg_payload (sample_segment 0x18 101 701 40000 [7, 8]) \<noteq> []"
  "seg_ack (sample_segment 0x18 101 701 40000 [7, 8])" "\<not> seg_syn (sample_segment 0x18 101 701 40000 [7, 8])"
  "\<not> seg_rst (sample_segment 0x18 101 701 40000 [7, 8])" "\<not> seg_fin (sample_segment 0x18 101 701 40000 [7, 8])"
  "tcp_segment_acknowledges_known_server_sequence (sample_segment 0x18 101 701 40000 [7, 8]) (sample_session Established 6)"
  by (simp add: flow_key_def sample_segment_simps)
    (simp_all add: sample_table_def sample_session_def sample_segment_def flags_from_bits_def flag_defs
      tcp_segment_acknowledges_known_server_sequence_def)

theorem in_order_payload_delivered_witness:
  "\<exists>result t' r' frame. process_tun_tcp_session_segment_with_relay_plan (\<lambda>i. 9)
      (sample_segment 0x18 101 701 40000 [7, 8]) (recording sample_relay) None 5 1024
      (sample_table Established 6, (), []) = (result, (t', r', [frame]))
    \<and> cpf_payload frame = [7, 8]"
proof -
  obtain packet where "parse_tun_tcp_segment packet = Ok (sample_segment 0x18 101 701 40000 [7, 8])"
    using sample_data_parses by blast
  note delivered = in_order_payload_delivered [OF sample_table_inv(2) this sample_data]
  obtain result t' r' log' where run: "process_tun_tcp_session_segment_with_relay_plan (\<lambda>i. 9)
      (sample_segment 0x18 101 701 40000 [7, 8]) (recording sample_relay) None 5 1024
      (sample_table Established 6, (), []) = (result, (t', r', log'))"
    by (rule prod_cases4)
  from delivered [OF run] obtain frame where "log' = [frame]"
      "cpf_payload frame = seg_payload (sample_segment 0x18 101 701 40000 [7, 8])" by auto
  with run show ?thesis by (auto simp: sample_segment_def)
qed

lemma step_client_payload_duplicate:
  assumes "keyed key segment" and "table_inv t" and "map_of (sessions t) key = Some session"
    and "ses_phase session = Established" and "seg_payload segment \<noteq> []" and "seg_ack segment"
    and "\<not> seg_syn segment" and "\<not> seg_rst segment" and "\<not> seg_fin segment"
    and "tcp_segment_acknowledges_known_server_sequence segment session"
    and "ses_client_next_sequence_number session = tcp_segment_next_sequence_number segment"
    and "seg_sequence_number segment < tcp_segment_next_sequence_number segment"
  shows "\<exists>ack t'. step_client_payload clk relay segment rest (t, x) = (Ok (StepDuplicateClientPayload ack), (t', x))
    \<and> dup_acknowledgment_number ack = tcp_segment_next_sequence_number segment"
proof -
  have key: "session_key_from_flow (seg_flow segment) = Ok key" and flow: "tcp_flow (seg_flow segment)"
    using assms(1) by (simp_all add: keyed_def)
  have none: "accept_client_payload now segment t = (Ok None, t)"
      "accept_overlapping_client_payload now segment t = (Ok None, t)" for now
    using key assms(3,11,12)
    by (auto simp: accept_client_payload_def accept_overlapping_client_payload_def with_entry_def run_op Let_def)
  obtain result t' where run: "acknowledge_duplicate_client_payload (clk 18) segment t = (result, t')" by fastforce
  with acknowledge_duplicate_client_payload_ok [OF assms(2) run] flow have "\<exists>y. result = Ok y"
    by (cases result) (simp_all add: step_ok_def)
  with run key assms(3-12) obtain ack where "result = Ok (Some ack)"
      "dup_acknowledgment_number ack = tcp_segment_next_sequence_number segment"
    by (auto simp: acknowledge_duplicate_client_payload_def with_entry_def run_op Let_def
        clear_server_unacked_payload_if_latest_acknowledged_def split: outcome.splits if_splits)
  then show ?thesis
    using run by (auto simp: step_client_payload_def if_some_def sbind_def on_table_run none ret_def)
qed

lemma next_sequence_no_wrap:
  assumes "unat (seg_sequence_number segment) + length (seg_payload segment) < 2 ^ 32"
    and "seg_payload segment \<noteq> []" and "\<not> seg_syn segment" and "\<not> seg_fin segment"
  shows "seg_sequence_number segment < tcp_segment_next_sequence_number segment"
proof -
  have "unat (tcp_segment_next_sequence_number segment)
      = unat (seg_sequence_number segment) + length (seg_payload segment)"
    using assms(1,3,4)
    by (simp add: tcp_segment_next_sequence_number_def tcp_segment_sequence_len_def unat_word_ariths
        unat_of_nat take_bit_eq_mod)
  then show ?thesis using assms(2) by (simp add: word_less_nat_alt)
qed

text \<open>C13. A failed write loses data silently. When the relay refuses the payload of an in-order data
  segment, the step reports the relay's error, but the session already counts the data as received: the
  client's retransmission of the very same segment is acknowledged as a duplicate and not written to
  the relay again.\<close>

theorem failed_write_acknowledged_later:
  assumes "table_inv t" and "parse_tun_tcp_segment packet = Ok segment"
    and "flow_key (seg_flow segment) = Some key" and "map_of (sessions t) key = Some session"
    and "ses_phase session = Established" and "seg_sequence_number segment = ses_client_next_sequence_number session"
    and "seg_payload segment \<noteq> []" and "seg_ack segment" and "\<not> seg_syn segment" and "\<not> seg_rst segment" and "\<not> seg_fin segment"
    and "tcp_segment_acknowledges_known_server_sequence segment session"
    and "unat (seg_sequence_number segment) + length (seg_payload segment) < 2 ^ 32"
    and "\<And>frame. write_client_payload relay frame r = (Err e, r')"
  shows "\<exists>t1 t2 ack. process_tun_tcp_session_segment_with_relay_plan clk segment relay plan isn w (t, r)
      = (Err (SessionRelay e), (t1, r'))
    \<and> process_tun_tcp_session_segment_with_relay_plan clk' segment relay plan isn w (t1, r')
      = (Ok (StepDuplicateClientPayload ack), (t2, r'))
    \<and> dup_acknowledgment_number ack = tcp_segment_next_sequence_number segment"
proof -
  have key: "keyed key segment"
    by (rule parsed_flow_keyed [OF assms(2,3)])
  obtain frame where frame: "accept_client_payload (clk 14) segment t =
      (Ok (Some frame), t\<lparr>sessions := AList.update key (cpf_session frame) (sessions t)\<rparr>)"
      "cpf_session frame = (clear_server_unacked_payload_if_latest_acknowledged segment session)
        \<lparr>ses_client_next_sequence_number := tcp_segment_next_sequence_number segment, ses_last_activity_at := clk 14\<rparr>"
    using accept_in_order [OF key assms(1,4-10,12), of "clk 14"] by blast
  define t1 where "t1 = t\<lparr>sessions := AList.update key (cpf_session frame) (sessions t)\<rparr>"
  have first: "process_tun_tcp_session_segment_with_relay_plan clk segment relay plan isn w (t, r)
      = (Err (SessionRelay e), (t1, r'))"
    unfolding process_established [OF key assms(4,5,8-11)] step_client_payload_accepts [where clk = clk, OF frame(1)]
    by (simp add: sbind_def on_relay_run [where m = "write_client_payload relay frame", OF assms(14)] t1_def)
  have "step_ok (seg_flow segment) cpf_ok t (Ok (Some frame)) t1"
    using frame(1) assms(1) by (auto simp: t1_def intro: accept_client_payload_ok)
  then have inv: "table_inv t1" by (rule step_ok_inv)
  have session: "map_of (sessions t1) key = Some (cpf_session frame)" by (simp add: t1_def update_conv')
  have fields: "ses_phase (cpf_session frame) = Established"
      "ses_client_next_sequence_number (cpf_session frame) = tcp_segment_next_sequence_number segment"
      "tcp_segment_acknowledges_known_server_sequence segment (cpf_session frame)"
    using assms(5,12) by (simp_all add: frame(2) tcp_segment_acknowledges_known_server_sequence_def
        clear_server_unacked_payload_if_latest_acknowledged_def Let_def split: if_splits)
  have "\<exists>ack t2. process_tun_tcp_session_segment_with_relay_plan clk' segment relay plan isn w (t1, r')
      = (Ok (StepDuplicateClientPayload ack), (t2, r'))
    \<and> dup_acknowledgment_number ack = tcp_segment_next_sequence_number segment"
    unfolding process_established [OF key session fields(1) assms(8-11)]
    by (rule step_client_payload_duplicate [OF key inv session fields(1) assms(7-11) fields(3,2)
          next_sequence_no_wrap [OF assms(13,7,9,11)]])
  with first show ?thesis by blast
qed

definition failing_relay :: "unit tcp_session_relay" where
  "failing_relay = sample_relay\<lparr>write_client_payload := \<lambda>frame r. (Err ''broken'', r)\<rparr>"

theorem failed_write_acknowledged_later_witness:
  "\<exists>t1 t2 ack. process_tun_tcp_session_segment_with_relay_plan (\<lambda>i. 9)
      (sample_segment 0x18 101 701 40000 [7, 8]) failing_relay None 5 1024 (sample_table Established 6, ())
      = (Err (SessionRelay ''broken''), (t1, ()))
    \<and> process_tun_tcp_session_segment_with_relay_plan (\<lambda>i. 10)
      (sample_segment 0x18 101 701 40000 [7, 8]) failing_relay None 5 1024 (t1, ())
      = (Ok (StepDuplicateClientPayload ack), (t2, ()))
    \<and> dup_acknowledgment_number ack = 103"
proof -
  obtain packet where packet: "parse_tun_tcp_segment packet = Ok (sample_segment 0x18 101 701 40000 [7, 8])"
    using sample_data_parses by blast
  have "unat (seg_sequence_number (sample_segment 0x18 101 701 40000 [7, 8]))
      + length (seg_payload (sample_segment 0x18 101 701 40000 [7, 8])) < 2 ^ 32"
    by (simp add: sample_segment_def)
  from failed_write_acknowledged_later [OF sample_table_inv(2) packet sample_data this,
      where relay = failing_relay and r = "()" and r' = "()" and e = "''broken''" and plan = None
        and isn = 5 and w = 1024 and clk = "\<lambda>i. 9" and clk' = "\<lambda>i. 10"]
  show ?thesis
    by (simp add: failing_relay_def tcp_segment_next_sequence_number_def tcp_segment_sequence_len_def
        sample_segment_def flags_from_bits_def flag_defs)
qed

text \<open>Data carried by a SYN is acknowledged and never delivered: opening a session with a SYN that
  has a payload does not touch the relay, yet the SYN-ACK and the session acknowledge the payload.\<close>

theorem syn_payload_acknowledged:
  assumes "table_inv t" and "parse_tun_tcp_segment packet = Ok segment"
    and "is_initial_tcp_syn_segment segment" and "\<not> seg_fin segment"
    and "flow_key (seg_flow segment) = Some key" and "table_entry t key = (None, None, None)"
    and "length (sessions t) < max_active_sessions t"
  shows "\<exists>response t'. process_tun_tcp_session_segment_with_relay_plan clk segment relay plan isn w (t, r)
      = (Ok (StepSynAck response), (t', r))
    \<and> map_of (sessions t') key = Some (sar_session response)
    \<and> ses_client_next_sequence_number (sar_session response)
        = seg_sequence_number segment + 1 + of_nat (length (seg_payload segment))"
proof -
  have key: "keyed key segment"
    by (rule parsed_flow_keyed [OF assms(2,5)])
  obtain result t' where run: "start_from_syn (clk 12) segment isn w t = (result, t')" by fastforce
  have "\<exists>response. result = Ok response"
    using start_from_syn_ok [OF assms(1) run] key assms(3,7) by (cases result) (auto simp: keyed_def)
  with run obtain response where response: "result = Ok response"
      "map_of (sessions t') key = Some (sar_session response)"
      "ses_client_next_sequence_number (sar_session response) = tcp_segment_next_sequence_number segment"
    using key assms(3) by (auto simp: start_from_syn_def run_op keyed_def table_simps split: if_splits outcome.splits)
  have "acknowledge_retransmitted_syn (clk 11) segment t = (Ok None, t)"
      "table_get_flow (seg_flow segment) t = (Ok None, t)"
    using key assms(3,6)
    by (simp_all add: acknowledge_retransmitted_syn_def table_get_flow_def get_flow_def with_entry_def run_op
        keyed_def table_entry_def)
  moreover have "\<not> seg_rst segment" "seg_syn segment" using assms(3) by (auto simp: is_initial_tcp_syn_segment_def)
  ultimately show ?thesis
    using assms(3,4) response run
    by (auto simp: process_tun_tcp_session_segment_with_relay_plan_def step_syn_def if_some_def sbind_def
        on_table_run ret_def tcp_segment_next_sequence_number_def tcp_segment_sequence_len_def add_ac)
qed

theorem syn_payload_acknowledged_witness:
  "\<exists>response t'. process_tun_tcp_session_segment_with_relay_plan (\<lambda>i. 9) (sample_segment 0x02 100 0 40000 [7, 8])
      sample_relay None 5 1024 (with_max_active_sessions 1, ()) = (Ok (StepSynAck response), (t', ()))
    \<and> ses_client_next_sequence_number (sar_session response) = 103"
proof -
  obtain packet where packet: "parse_tun_tcp_segment packet = Ok (sample_segment 0x02 100 0 40000 [7, 8])"
    using sample_packet_parses [of "0x02" "[7, 8]" 100 0 40000]
    by (auto simp: flags_from_bits_def max_tcp_response_payload_def)
  have "is_initial_tcp_syn_segment (sample_segment 0x02 100 0 40000 [7, 8])"
      "\<not> seg_fin (sample_segment 0x02 100 0 40000 [7, 8])"
      "flow_key (seg_flow (sample_segment 0x02 100 0 40000 [7, 8])) = Some (sample_key 40000)"
      "table_entry (with_max_active_sessions 1) (sample_key 40000) = (None, None, None)"
      "length (sessions (with_max_active_sessions 1)) < max_active_sessions (with_max_active_sessions 1)"
    by (simp_all add: flow_key_def sample_segment_simps table_entry_def with_max_active_sessions_def)
      (simp_all add: is_initial_tcp_syn_segment_def sample_segment_def flags_from_bits_def flag_defs)
  from syn_payload_acknowledged [OF table_inv_initial packet this, of "\<lambda>i. 9" sample_relay None 5 1024 "()"]
  show ?thesis by (auto simp: sample_segment_def)
qed

end
