(* ===== verification/Keli_Tun_Loop_Facts.thy ===== *)
theory Keli_Tun_Loop_Facts
  imports Keli_Tun_Loop Keli_Tun_Stream
begin

text \<open>
  What the TUN packet loop guarantees. The loop that keeps a summary agrees with the loop that collects
  events; with any device, resolver and relays that return, the loop keeps the session table
  well-formed, writes only answers to packets it has read, and returns; blocked and hijacked packets do
  not reach a relay. Iterations are verified call by call with the rules for \<open>sound\<close>.
\<close>

section \<open>The two loops agree\<close>

text \<open>The summary that belongs to the events of a finished run.\<close>

definition summary_of_run :: "tun_packet_loop_event list \<Rightarrow> tun_packet_loop_summary" where
  "summary_of_run es =
     (if NoPacket \<in> set es then from_events es else record_packet_limit_reached (from_events es))"

lemma from_events_snoc: "record_event e (from_events es) = from_events (es @ [e])"
  by (simp add: from_events_def)

lemma summary_loop_event_loop:
  assumes "NoPacket \<notin> set es"
  shows "summary_loop (\<lambda>i s. sbind (body i) (\<lambda>e. ret (e, record_event e s))) i n (from_events es) w
    = (case event_loop body i n es w of (r, w') \<Rightarrow> (map_outcome id summary_of_run r, w'))"
  using assms
proof (induction n arbitrary: i es w)
  case 0
  then show ?case by (simp add: ret_def summary_of_run_def)
next
  case (Suc n)
  obtain r w' where body: "body i w = (r, w')" by fastforce
  show ?case
  proof (cases r)
    case (Ok e)
    then show ?thesis
      using Suc.IH [of "es @ [e]" "i + 1" w'] Suc.prems body
      by (simp add: sbind_def ret_def from_events_snoc summary_of_run_def)
  qed (simp_all add: body sbind_def)
qed

text \<open>The loop that accumulates a summary is equivalent to the loop that collects the events: it
  has the same effects, fails in the same way, and its summary is the one of the collected events, with
  the packet limit recorded exactly when no idle event ended the run.\<close>

theorem summary_loop_equivalent:
  "run_tun_packet_loop_summary device config clk max_packets w
   = (case run_tun_packet_loop device config clk max_packets w of
        (r, w') \<Rightarrow> (map_outcome id summary_of_run r, w'))"
  using summary_loop_event_loop [of "[]" "\<lambda>i. process_tun_device_packet device config (clk i)" 0 max_packets w]
  by (simp add: run_tun_packet_loop_summary_def run_tun_packet_loop_def from_events_def)

lemma event_loop_shape:
  "event_loop body i n es w = (Ok es', w') \<Longrightarrow> \<exists>new. es' = es @ new \<and> length new \<le> n
    \<and> NoPacket \<notin> set (butlast new) \<and> (length new < n \<longrightarrow> new \<noteq> [] \<and> List.last new = NoPacket)"
proof (induction n arbitrary: i es w)
  case 0
  then show ?case by (simp add: ret_def)
next
  case (Suc n)
  then obtain e w1 where body: "body i w = (Ok e, w1)"
    by (auto simp: sbind_def split: prod.splits outcome.splits)
  show ?case
  proof (cases "e = NoPacket")
    case True
    with Suc.prems body show ?thesis by (intro exI [of _ "[e]"]) (auto simp: sbind_def ret_def)
  next
    case False
    then have "event_loop body (i + 1) n (es @ [e]) w1 = (Ok es', w')"
      using Suc.prems body by (simp add: sbind_def)
    from Suc.IH [OF this] obtain new where "es' = (es @ [e]) @ new" "length new \<le> n"
      "NoPacket \<notin> set (butlast new)" "length new < n \<longrightarrow> new \<noteq> [] \<and> List.last new = NoPacket"
      by blast
    with False show ?thesis by (intro exI [of _ "e # new"]) auto
  qed
qed

section \<open>Replies\<close>

text \<open>\<open>answers_packet query packet\<close>: the packet goes back on the reversed flow of \<open>query\<close>.\<close>

definition answers_packet :: "bytes \<Rightarrow> bytes \<Rightarrow> bool" where
  "answers_packet query packet \<longleftrightarrow> (\<exists>flow. parse_tun_packet_flow query = Ok flow
     \<and> parse_tun_packet_flow packet = Ok (swap_flow flow))"

lemma tcp_segment_flow: "parse_tun_tcp_segment packet = Ok segment \<Longrightarrow> parse_tun_packet_flow packet = Ok (seg_flow segment)"
  by (auto simp: parse_tun_tcp_segment_def parse_tun_packet_flow_def obind_Ok_iff Let_def split: if_splits)

lemma udp_payload_flow: "parse_tun_udp_payload packet = Ok udp \<Longrightarrow> parse_tun_packet_flow packet = Ok (udp_flow udp)"
  by (auto simp: parse_tun_udp_payload_def parse_tun_packet_flow_def obind_Ok_iff Let_def split: if_splits)

lemma udp_response_answers:
  assumes "parse_tun_packet_flow query = Ok flow" and "build_tun_udp_response_packet flow payload = Ok packet"
  shows "parse_tun_udp_payload packet = Ok \<lparr>udp_flow = swap_flow flow, udp_payload = payload\<rparr>"
    and "answers_packet query packet"
proof -
  show "parse_tun_udp_payload packet = Ok \<lparr>udp_flow = swap_flow flow, udp_payload = payload\<rparr>"
    using udp_codec.parse_build [of "(flow, payload)" packet] assms(2) by (simp add: udp_view_def)
  from udp_payload_flow [OF this] assms(1) show "answers_packet query packet"
    by (simp add: answers_packet_def)
qed

lemma tcp_response_answers:
  assumes "parse_tun_packet_flow query = Ok flow"
    and "build_tun_tcp_response_packet flow sq ak flags w payload = Ok packet"
  shows "answers_packet query packet"
  using tcp_codec.parse_build [of "(flow, sq, ak, flags, w, payload)" packet] assms
  by (auto simp: tcp_view_def answers_packet_def dest: tcp_segment_flow)

lemma step_replies_answer:
  assumes "relay_total relay" and "table_inv t" and parse: "parse_tun_tcp_segment packet = Ok segment"
    and "process_tun_tcp_session_segment_with_relay_plan clk segment relay plan isn w (t, r) = (Ok step, s')"
  shows "list_all (answers_packet packet) (response_packets step)"
proof -
  obtain k where k: "keyed k segment" using parse by (rule parsed_segment_keyed)
  then have "okay (seg_flow segment) t (answers k) (Ok step) (fst s', snd s')"
    using assms(1,2,4) by (intro process_okay) auto
  then show ?thesis
    using reply_parses [OF _ k] tcp_segment_flow [OF parse]
    by (fastforce simp: okay_def answers_def list_all_iff answers_packet_def dest: tcp_segment_flow)
qed

section \<open>Processing a packet\<close>

definition resolver_total :: "'n resolver \<Rightarrow> bool" where
  "resolver_total res \<longleftrightarrow> (\<forall>host. op_total (res host))"

lemma decide_tun_packet_route_flow:
  "decide_tun_packet_route packet routes hijack = Ok route \<Longrightarrow> parse_tun_packet_flow packet = Ok (rd_flow route)"
  by (auto simp: decide_tun_packet_route_def obind_Ok_iff Let_def split: if_splits)

lemma decide_tun_packet_route_no_panic: "decide_tun_packet_route packet routes hijack \<noteq> Panic"
  by (auto simp: decide_tun_packet_route_def obind_Panic_iff parse_tun_packet_flow_no_panic Let_def)

lemma plan_tun_packet_relay_no_panic: "plan_tun_packet_relay packet routes hijack \<noteq> Panic"
  by (auto simp: plan_tun_packet_relay_def obind_Panic_iff decide_tun_packet_route_no_panic Let_def)

lemma plan_tun_packet_relay_Ok:
  "plan_tun_packet_relay packet routes hijack = Ok plan \<longleftrightarrow>
    (\<exists>route. decide_tun_packet_route packet routes hijack = Ok route \<and> plan_route plan = route
      \<and> plan_relay_action plan = (case rd_action route of
          Block \<Rightarrow> RelayDrop | HijackDns \<Rightarrow> RelayHijackDns
        | Direct \<Rightarrow> tun_relay_action_for_transport (rd_flow route) None
        | Outbound tag \<Rightarrow> tun_relay_action_for_transport (rd_flow route) (Some tag)))"
  by (cases plan) (auto simp: plan_tun_packet_relay_def obind_Ok_iff Let_def)

lemma dns_hijack_payload_no_panic:
  assumes "resolver_total res"
  shows "fst (build_tun_dns_hijack_payload res now plan ttl e) \<noteq> Panic"
proof -
  have "fst (dns_resolve res (q_name (hp_question plan)) 0 now e) \<noteq> Panic"
    using assms by (intro dns_resolve_no_panic) (simp add: resolver_total_def op_total_def)
  then show ?thesis
    by (auto simp: build_tun_dns_hijack_payload_def split: dns_question_type.splits prod.splits
        outcome.splits dns_error.splits)
qed

lemma plan_tun_dns_hijack_no_panic: "plan_tun_dns_hijack packet \<noteq> Panic"
  by (auto simp: plan_tun_dns_hijack_def obind_Panic_iff parse_tun_udp_payload_no_panic
      parse_dns_query_no_panic split: if_splits option.splits)

lemma plan_tun_dns_hijack_flow:
  assumes "plan_tun_dns_hijack packet = Ok plan"
  obtains udp where "parse_tun_udp_payload packet = Ok udp" and "hp_flow plan = udp_flow udp"
    and "parse_dns_query (udp_payload udp) = Ok (hp_question plan)"
    and "is_dns_hijack_candidate (hp_flow plan)"
  using assms by (auto simp: plan_tun_dns_hijack_def obind_Ok_iff split: if_splits)

lemma dns_hijack_response_Ok:
  assumes "build_tun_dns_hijack_response res now packet ttl e = (Ok response, e')"
  obtains "plan_tun_dns_hijack packet = Ok (hr_plan response)"
    and "build_tun_dns_hijack_payload res now (hr_plan response) ttl e
        = (Ok (hr_dns_payload response, hr_rcode response), e')"
    and "build_tun_udp_response_packet (hp_flow (hr_plan response)) (hr_dns_payload response)
        = Ok (hr_packet response)"
  using assms
  by (auto simp: build_tun_dns_hijack_response_def sbind_def lift_def ret_def build_tun_dns_response_packet_def
      split: outcome.splits prod.splits)

lemma dns_hijack_response_no_panic:
  assumes "resolver_total res"
  shows "fst (build_tun_dns_hijack_response res now packet ttl e) \<noteq> Panic"
  using plan_tun_dns_hijack_no_panic [of packet] dns_hijack_payload_no_panic [OF assms]
  by (auto simp: build_tun_dns_hijack_response_def sbind_def lift_def ret_def
      build_tun_dns_response_packet_def build_tun_udp_no_panic split: outcome.splits prod.splits)
    (metis fst_conv)

text \<open>What one packet may lead to: a reply that answers it, or a plan made for its own flow.\<close>

fun action_ok :: "bytes \<Rightarrow> route_engine \<Rightarrow> bool \<Rightarrow> tun_packet_process_action \<Rightarrow> bool" where
  "action_ok packet routes hijack (WritePacket response) = answers_packet packet (hr_packet response)"
| "action_ok packet routes hijack (WriteTcpReset response) = answers_packet packet (rr_packet response)"
| "action_ok packet routes hijack (RelayPlan plan) \<longleftrightarrow> plan_tun_packet_relay packet routes hijack = Ok plan"

lemma process_tun_packet_ok:
  assumes "process_tun_packet res now packet routes hijack ttl e = (Ok action, e')"
  shows "action_ok packet routes hijack action"
proof -
  obtain plan where plan: "plan_tun_packet_relay packet routes hijack = Ok plan"
    using assms by (auto simp: process_tun_packet_def sbind_def lift_def split: outcome.splits prod.splits)
  show ?thesis
  proof (cases "plan_relay_action plan = RelayHijackDns")
    case True
    then obtain response where "build_tun_dns_hijack_response res now packet ttl e = (Ok response, e')"
        and action: "action = WritePacket response"
      using assms plan
      by (auto simp: process_tun_packet_def sbind_def lift_def ret_def split: outcome.splits prod.splits)
    then show ?thesis
      by (auto elim!: dns_hijack_response_Ok plan_tun_dns_hijack_flow
          intro: udp_response_answers(2) dest: udp_payload_flow)
  next
    case False
    have "answers_packet packet p"
      if "parse_tun_tcp_segment packet = Ok segment" "build_tun_tcp_response_packet (seg_flow segment) a b f w [] = Ok p"
      for segment a b f w p
      using tcp_response_answers [OF tcp_segment_flow] that by blast
    then show ?thesis
      using assms plan False
      by (auto simp: process_tun_packet_def sbind_def lift_def ret_def build_tun_tcp_reset_response_def
          obind_Ok_iff split: outcome.splits prod.splits if_splits)
  qed
qed

lemma process_tun_packet_no_panic:
  assumes "resolver_total res"
  shows "fst (process_tun_packet res now packet routes hijack ttl e) \<noteq> Panic"
  using plan_tun_packet_relay_no_panic [of packet routes hijack]
    dns_hijack_response_no_panic [OF assms, of now packet ttl e]
  by (auto simp: process_tun_packet_def sbind_def lift_def ret_def build_tun_tcp_reset_response_def
      obind_Panic_iff parse_tun_tcp_segment_no_panic build_tun_tcp_no_panic split: outcome.splits prod.splits)

section \<open>The invariant of the loop\<close>

text \<open>\<open>sound E I m R\<close>: \<open>m\<close> keeps \<open>I\<close>, does not panic, its result satisfies \<open>R\<close> and its error \<open>E\<close>.\<close>

definition sound :: "('e \<Rightarrow> bool) \<Rightarrow> ('s \<Rightarrow> bool) \<Rightarrow> ('s, 'e, 'a) op \<Rightarrow> ('a \<Rightarrow> bool) \<Rightarrow> bool" where
  "sound E I m R \<longleftrightarrow> triple I m (\<lambda>r s. I s \<and> (case r of Ok x \<Rightarrow> R x | Err e \<Rightarrow> E e | Panic \<Rightarrow> False))"

named_theorems sound_rules \<open>rules for the parts of an iteration\<close>

lemma sound_ret [sound_rules]: "R x \<Longrightarrow> sound E I (ret x) R"
  by (simp add: sound_def triple_def ret_def)

lemma sound_sbind:
  assumes "sound E I m R" and "\<And>x. R x \<Longrightarrow> sound E I (f x) S"
  shows "sound E I (sbind m f) S"
  unfolding sound_def
proof (rule triple_sbind [OF assms(1) [unfolded sound_def]])
  show "triple (\<lambda>s. I s \<and> (case Ok x of Ok x \<Rightarrow> R x | Err e \<Rightarrow> E e | Panic \<Rightarrow> False)) (f x)
      (\<lambda>r s. I s \<and> (case r of Ok x \<Rightarrow> S x | Err e \<Rightarrow> E e | Panic \<Rightarrow> False))" for x
    using assms(2) [of x] by (cases "R x") (auto simp: sound_def triple_def)
qed simp_all

lemma sound_or_event:
  assumes "sound (\<lambda>_. True) I m R" and "\<And>x. R x \<Longrightarrow> sound E I (f x) S" and "\<And>e. S (g e)"
  shows "sound E I (or_event m g f) S"
  unfolding sound_def
proof (rule tripleI)
  fix s r s' assume I: "I s" and run: "or_event m g f s = (r, s')"
  obtain q t where m: "m s = (q, t)" by fastforce
  with assms(1) I have "I t" and "q \<noteq> Panic" and "\<And>x. q = Ok x \<Longrightarrow> R x"
    by (auto simp: sound_def dest!: tripleD)
  then show "I s' \<and> (case r of Ok x \<Rightarrow> S x | Err e \<Rightarrow> E e | Panic \<Rightarrow> False)"
    using run m assms(2,3) by (cases q) (auto simp: or_event_def sound_def dest: tripleD)
qed

lemma sound_if [sound_rules]:
  "(b \<Longrightarrow> sound E I m R) \<Longrightarrow> (\<not> b \<Longrightarrow> sound E I m' R) \<Longrightarrow> sound E I (if b then m else m') R"
  by simp

lemma sound_weaken: "sound E I m R \<Longrightarrow> (\<And>x. R x \<Longrightarrow> S x) \<Longrightarrow> sound E I m S"
  unfolding sound_def by (erule triple_weaken) (auto split: outcome.splits)

lemma soundD: "sound E I m R \<Longrightarrow> I s \<Longrightarrow> m s = (r, s') \<Longrightarrow>
    I s' \<and> (case r of Ok x \<Rightarrow> R x | Err e \<Rightarrow> E e | Panic \<Rightarrow> False)"
  unfolding sound_def by (rule tripleD)

text \<open>A device that keeps a log of the packets read from it and written to it.\<close>

definition recording_device :: "'d tun_packet_device \<Rightarrow> ('d \<times> bytes list \<times> bytes list) tun_packet_device" where
  "recording_device device = \<lparr>
     read_packet = (\<lambda>(d, seen, written). case read_packet device d of
         (Ok (Some packet), d') \<Rightarrow> (Ok (Some packet), (d', seen @ [packet], written))
       | (r, d') \<Rightarrow> (r, (d', seen, written))),
     write_packet = (\<lambda>packet (d, seen, written). case write_packet device packet d of
         (r, d') \<Rightarrow> (r, (d', seen, written @ [packet])))\<rparr>"

definition device_total :: "'d tun_packet_device \<Rightarrow> bool" where
  "device_total device \<longleftrightarrow> op_total (read_packet device) \<and> (\<forall>packet. op_total (write_packet device packet))"

definition device_reliable :: "'d tun_packet_device \<Rightarrow> bool" where
  "device_reliable device \<longleftrightarrow> (\<forall>d e. fst (read_packet device d) \<noteq> Err e)
     \<and> (\<forall>packet d e. fst (write_packet device packet d) \<noteq> Err e)"

definition udp_relay_total :: "'u tun_udp_relay \<Rightarrow> bool" where
  "udp_relay_total relay \<longleftrightarrow> (\<forall>target payload. op_total (relay_udp_datagram relay target payload))
     \<and> (\<forall>tag target payload. op_total (relay_outbound_udp_datagram relay tag target payload))"

type_synonym ('d, 'n, 'u, 't) recorded_world = "('d \<times> bytes list \<times> bytes list, 'n, 'u, 't) tun_world"

definition seen_packets :: "('d, 'n, 'u, 't) recorded_world \<Rightarrow> bytes list" where
  "seen_packets w = fst (snd (wd_device w))"

definition written_packets :: "('d, 'n, 'u, 't) recorded_world \<Rightarrow> bytes list" where
  "written_packets w = snd (snd (wd_device w))"

definition loop_inv :: "usize \<Rightarrow> bytes set \<Rightarrow> ('d, 'n, 'u, 't) recorded_world \<Rightarrow> bool" where
  "loop_inv limit seen w \<longleftrightarrow> table_inv (wd_sessions w) \<and> max_active_sessions (wd_sessions w) = limit
     \<and> seen \<subseteq> set (seen_packets w)
     \<and> (\<forall>reply_packet \<in> set (written_packets w). \<exists>query \<in> set (seen_packets w). answers_packet query reply_packet)"

lemmas log_defs = loop_inv_def seen_packets_def written_packets_def recording_device_def

lemma sound_write:
  assumes "device_total device" and "query \<in> seen" and "answers_packet query packet"
  shows "sound (\<lambda>_. \<not> device_reliable device) (loop_inv limit seen)
    (write_to_device (recording_device device) packet) (\<lambda>_. True)"
  unfolding sound_def
proof (rule tripleI)
  fix w r w'
  assume inv: "loop_inv limit seen w" and run: "write_to_device (recording_device device) packet w = (r, w')"
  obtain d seen' written where w: "wd_device w = (d, seen', written)" by (cases "wd_device w")
  obtain q d' where q: "write_packet device packet d = (q, d')" by fastforce
  have "r = map_err LoopWrite q" and w': "w' = w\<lparr>wd_device := (d', seen', written @ [packet])\<rparr>"
    using run by (simp_all add: write_to_device_def on_device_def with_err_def recording_device_def w q)
  moreover have "q \<noteq> Panic" using assms(1) q unfolding device_total_def op_total_def by (metis fst_conv)
  moreover have "\<not> device_reliable device" if "q = Err e" for e
    using that q unfolding device_reliable_def by (metis fst_conv)
  moreover have "loop_inv limit seen w'"
    using inv assms(2,3) by (auto simp: log_defs w w')
  ultimately show "loop_inv limit seen w' \<and> (case r of Ok x \<Rightarrow> True | Err e \<Rightarrow> \<not> device_reliable device | Panic \<Rightarrow> False)"
    by (cases q) auto
qed

lemma sound_write_all:
  assumes "device_total device" and "query \<in> seen"
  shows "list_all (answers_packet query) packets \<Longrightarrow> sound (\<lambda>_. \<not> device_reliable device) (loop_inv limit seen)
    (write_all_to_device (recording_device device) packets) (\<lambda>_. True)"
  by (induction packets) (auto intro!: sound_ret sound_sbind [OF sound_write [OF assms]])

lemma sound_on_dns:
  assumes "\<And>e. fst (m e) \<noteq> Panic" and "\<And>e x e'. m e = (Ok x, e') \<Longrightarrow> R x"
  shows "sound (\<lambda>_. True) (loop_inv limit seen) (on_dns m) R"
  unfolding sound_def
proof (rule tripleI)
  fix w r w' assume inv: "loop_inv limit seen w" and run: "on_dns m w = (r, w')"
  then show "loop_inv limit seen w' \<and> (case r of Ok x \<Rightarrow> R x | Err e \<Rightarrow> True | Panic \<Rightarrow> False)"
    using assms(1) [of "wd_dns w"] assms(2) [of "wd_dns w"]
    by (cases "m (wd_dns w)"; cases r) (auto simp: on_dns_def log_defs)
qed

lemma sound_on_udp:
  assumes "\<And>u. fst (m u) \<noteq> Panic" and "\<And>u x u'. m u = (Ok x, u') \<Longrightarrow> R x"
  shows "sound (\<lambda>_. True) (loop_inv limit seen) (on_udp m) R"
  unfolding sound_def
proof (rule tripleI)
  fix w r w' assume inv: "loop_inv limit seen w" and run: "on_udp m w = (r, w')"
  then show "loop_inv limit seen w' \<and> (case r of Ok x \<Rightarrow> R x | Err e \<Rightarrow> True | Panic \<Rightarrow> False)"
    using assms(1) [of "wd_udp w"] assms(2) [of "wd_udp w"]
    by (cases "m (wd_udp w)"; cases r) (auto simp: on_udp_def log_defs)
qed

lemma sound_on_tcp:
  assumes "\<And>t x r t' x'. table_inv t \<Longrightarrow> m (t, x) = (r, (t', x')) \<Longrightarrow>
      table_inv t' \<and> max_active_sessions t' = max_active_sessions t
      \<and> (case r of Ok y \<Rightarrow> R y | Err e \<Rightarrow> E e | Panic \<Rightarrow> False)"
  shows "sound E (loop_inv limit seen) (on_tcp m) R"
  unfolding sound_def
proof (rule tripleI)
  fix w r w' assume inv: "loop_inv limit seen w" and run: "on_tcp m w = (r, w')"
  obtain q t' x' where m: "m (wd_sessions w, wd_tcp w) = (q, (t', x'))" by (rule prod_cases3)
  then have "r = q" and w': "w' = w\<lparr>wd_sessions := t', wd_tcp := x'\<rparr>"
    using run by (simp_all add: on_tcp_def)
  moreover have "table_inv (wd_sessions w)" using inv by (simp add: loop_inv_def)
  ultimately show "loop_inv limit seen w' \<and> (case r of Ok x \<Rightarrow> R x | Err e \<Rightarrow> E e | Panic \<Rightarrow> False)"
    using assms [OF _ m] inv by (auto simp: log_defs)
qed

section \<open>One iteration\<close>

lemma relay_tun_udp_packet_Ok:
  assumes "relay_tun_udp_packet relay packet plan u = (Ok response, u')"
  obtains udp where "parse_tun_udp_payload packet = Ok udp" and "udp_flow udp = rd_flow (plan_route plan)"
    and "build_tun_udp_response_packet (udp_flow udp) (ur_relay_payload response) = Ok (ur_packet response)"
    and "ur_plan response = plan"
  using assms
  by (auto simp: relay_tun_udp_packet_def sbind_def lift_def ret_def split: outcome.splits prod.splits if_splits)

lemma relay_tun_udp_packet_no_panic:
  assumes "udp_relay_total relay"
  shows "fst (relay_tun_udp_packet relay packet plan u) \<noteq> Panic"
proof -
  have "fst ((case plan_relay_action plan of
      DirectUdp target \<Rightarrow> with_err UdpRelayFailed (relay_udp_datagram relay target payload)
    | OutboundUdp tag target \<Rightarrow> with_err UdpRelayFailed (relay_outbound_udp_datagram relay tag target payload)
    | action \<Rightarrow> lift (Err (UnsupportedRelayAction action))) u) \<noteq> Panic" for payload
    using assms
    by (auto simp: udp_relay_total_def op_total_def with_err_def lift_def
        split: tun_packet_relay_action.split prod.splits) (metis fst_conv)+
  then show ?thesis
    by (auto simp: relay_tun_udp_packet_def sbind_def lift_def ret_def parse_tun_udp_payload_no_panic
        build_tun_udp_no_panic split: outcome.splits prod.splits) (metis fst_conv)
qed

lemma sound_relay_udp_plan:
  assumes "device_total device" and "udp_relay_total relay"
  shows "sound (\<lambda>_. \<not> device_reliable device) (loop_inv limit {packet})
    (relay_udp_plan (recording_device device) relay packet plan) (\<lambda>_. True)"
  unfolding relay_udp_plan_def
proof (rule sound_or_event)
  show "sound (\<lambda>_. True) (loop_inv limit {packet}) (on_udp (relay_tun_udp_packet relay packet plan))
      (\<lambda>response. answers_packet packet (ur_packet response))"
    using relay_tun_udp_packet_no_panic [OF assms(2)]
    by (rule sound_on_udp)
      (auto elim!: relay_tun_udp_packet_Ok intro: udp_response_answers(2) dest: udp_payload_flow)
  show "sound (\<lambda>_. \<not> device_reliable device) (loop_inv limit {packet})
      (sbind (write_to_device (recording_device device) (ur_packet response)) (\<lambda>_. ret (WroteUdpRelayPacket response)))
      (\<lambda>_. True)" if "answers_packet packet (ur_packet response)" for response
    using that by (intro sound_sbind [OF sound_write [OF assms(1)]] sound_ret) simp_all
qed simp

lemma sound_process_segment:
  assumes "relay_total relay" and parse: "parse_tun_tcp_segment packet = Ok segment"
  shows "sound (\<lambda>_. True) (loop_inv limit seen)
    (on_tcp (process_tun_tcp_session_segment_with_relay_plan clk segment relay plan isn w))
    (\<lambda>step. list_all (answers_packet packet) (response_packets step))"
proof (rule sound_on_tcp)
  fix t x r t' x'
  assume inv: "table_inv t"
    and run: "process_tun_tcp_session_segment_with_relay_plan clk segment relay plan isn w (t, x) = (r, (t', x'))"
  obtain k where "keyed k segment" using parse by (rule parsed_segment_keyed)
  then have "okay (seg_flow segment) t (answers k) r (t', x')"
    using assms(1) inv run by (intro process_okay)
  then show "table_inv t' \<and> max_active_sessions t' = max_active_sessions t
      \<and> (case r of Ok y \<Rightarrow> list_all (answers_packet packet) (response_packets y) | Err e \<Rightarrow> True | Panic \<Rightarrow> False)"
    using step_replies_answer [OF assms(1) inv parse] run
    by (cases r) (auto simp: okay_def during_def only_key_def)
qed

lemma sound_relay_tcp_plan:
  assumes "device_total device" and "relay_total relay"
  shows "sound (\<lambda>_. \<not> device_reliable device) (loop_inv limit {packet})
    (relay_tcp_plan (recording_device device) clk relay isn w packet plan) (\<lambda>_. True)"
  unfolding relay_tcp_plan_def
proof (rule sound_or_event)
  show "sound (\<lambda>_. True) (loop_inv limit {packet}) (lift (parse_tun_tcp_segment packet))
      (\<lambda>segment. parse_tun_tcp_segment packet = Ok segment)"
    using parse_tun_tcp_segment_no_panic [of packet]
    by (auto simp: sound_def triple_def lift_def split: outcome.split)
qed (auto intro!: sound_or_event [OF sound_process_segment] sound_sbind [OF sound_write_all] sound_ret assms)

lemma sound_process_packet:
  assumes "resolver_total res"
  shows "sound (\<lambda>_. True) (loop_inv limit seen) (on_dns (process_tun_packet res now packet routes hijack ttl))
    (action_ok packet routes hijack)"
  using process_tun_packet_no_panic [OF assms] process_tun_packet_ok by (rule sound_on_dns)

lemma triple_read:
  assumes "device_total device"
  shows "triple (loop_inv limit {}) (on_device (with_err LoopRead (read_packet (recording_device device))))
    (\<lambda>r w. case r of Ok None \<Rightarrow> loop_inv limit {} w | Ok (Some packet) \<Rightarrow> loop_inv limit {packet} w
       | Err e \<Rightarrow> loop_inv limit {} w \<and> \<not> device_reliable device | Panic \<Rightarrow> False)"
proof (rule tripleI)
  fix w r w'
  assume inv: "loop_inv limit {} w"
    and run: "on_device (with_err LoopRead (read_packet (recording_device device))) w = (r, w')"
  obtain d seen written where w: "wd_device w = (d, seen, written)" by (cases "wd_device w")
  obtain q d' where q: "read_packet device d = (q, d')" by fastforce
  have "q \<noteq> Panic" using assms q unfolding device_total_def op_total_def by (metis fst_conv)
  moreover have "\<not> device_reliable device" if "q = Err e" for e
    using that q unfolding device_reliable_def by (metis fst_conv)
  ultimately show "case r of Ok None \<Rightarrow> loop_inv limit {} w' | Ok (Some packet) \<Rightarrow> loop_inv limit {packet} w'
       | Err e \<Rightarrow> loop_inv limit {} w' \<and> \<not> device_reliable device | Panic \<Rightarrow> False"
    using inv run
    by (cases q) (auto simp: on_device_def with_err_def log_defs w q split: option.splits)
qed

lemma sound_handle:
  assumes "device_total device" and "resolver_total (lc_resolver config)"
    and relay: "\<And>packet plan. plan_tun_packet_relay packet (lc_routes config) (lc_dns_hijack_enabled config) = Ok plan \<Longrightarrow>
      sound (\<lambda>_. \<not> device_reliable device) (loop_inv limit {packet}) (relay packet plan) (\<lambda>_. True)"
  shows "sound (\<lambda>_. \<not> device_reliable device) (loop_inv limit {})
    (handle_device_packet (recording_device device) config clk relay) (\<lambda>_. True)"
  unfolding sound_def handle_device_packet_def
proof (rule triple_sbind [OF triple_read [OF assms(1)]])
  fix x :: "bytes option"
  let ?rest = "\<lambda>packet. or_event (on_dns (process_tun_packet (lc_resolver config) (clk 30) packet (lc_routes config)
             (lc_dns_hijack_enabled config) (lc_dns_ttl_seconds config)))
           PacketError
           (\<lambda>action. case action of
              WritePacket response \<Rightarrow>
                sbind (write_to_device (recording_device device) (hr_packet response)) (\<lambda>_. ret (WrotePacket response))
            | WriteTcpReset response \<Rightarrow>
                sbind (write_to_device (recording_device device) (rr_packet response)) (\<lambda>_. ret (WroteTcpResetPacket response))
            | RelayPlan plan \<Rightarrow> relay packet plan)"
  have "sound (\<lambda>_. \<not> device_reliable device) (loop_inv limit {packet}) (?rest packet) (\<lambda>_. True)" for packet
    by (rule sound_or_event [OF sound_process_packet [OF assms(2)]])
      (auto intro!: relay sound_sbind [OF sound_write [OF assms(1)]] sound_ret split: tun_packet_process_action.split)
  then have rest: "triple (loop_inv limit {packet}) (?rest packet)
      (\<lambda>r s. loop_inv limit {packet} s \<and> (case r of Ok x \<Rightarrow> True | Err e \<Rightarrow> \<not> device_reliable device | Panic \<Rightarrow> False))"
      for packet by (simp add: sound_def)
  show "triple (\<lambda>w. case Ok x of Ok None \<Rightarrow> loop_inv limit {} w | Ok (Some packet) \<Rightarrow> loop_inv limit {packet} w
       | Err e \<Rightarrow> loop_inv limit {} w \<and> \<not> device_reliable device | Panic \<Rightarrow> False)
     (case x of None \<Rightarrow> ret NoPacket | Some packet \<Rightarrow> ?rest packet)
     (\<lambda>r s. loop_inv limit {} s \<and> (case r of Ok x \<Rightarrow> True | Err e \<Rightarrow> \<not> device_reliable device | Panic \<Rightarrow> False))"
  proof (cases x)
    case None
    then show ?thesis by (auto intro: triple_ret)
  next
    case (Some packet)
    show ?thesis
      unfolding Some by (simp, rule triple_weaken [OF rest]) (auto simp: loop_inv_def)
  qed
qed simp_all

lemma sound_iteration:
  assumes "device_total device" and "resolver_total (lc_resolver config)"
    and "udp_relay_total udp_relay" and "relay_total tcp_relay"
  shows "sound (\<lambda>_. \<not> device_reliable device) (loop_inv limit {})
    (process_tun_device_packet_with_relays (recording_device device) config clk udp_relay tcp_relay isn w) (\<lambda>_. True)"
  unfolding process_tun_device_packet_with_relays_def
  using assms
  by (intro sound_handle sound_if sound_relay_udp_plan sound_relay_tcp_plan sound_ret) simp_all

section \<open>The loop\<close>

lemma close_pruned_returns:
  assumes "relay_total relay"
  shows "\<exists>report' r'. close_pruned relay pruned report r = (Ok report', r')
    \<and> pr_close_errors report' \<le> pr_close_errors report + length pruned
    \<and> pr_pruned_sessions report' = pr_pruned_sessions report"
proof (induction pruned arbitrary: report r)
  case Nil
  then show ?case by (simp add: ret_def)
next
  case (Cons session pruned)
  obtain q r' where q: "close_session relay session r = (q, r')" by fastforce
  moreover have "q \<noteq> Panic"
    using assms q unfolding relay_total_def op_total_def by (metis fst_conv)
  ultimately show ?case
    using Cons.IH [of report r']
      Cons.IH [of "report\<lparr>pr_close_errors := pr_close_errors report + 1, pr_last_close_error := Some (SessionRelay e)\<rparr>" r' for e]
    by (cases q) fastforce+
qed

lemma sound_prune:
  assumes "relay_total relay"
  shows "sound E (loop_inv limit seen) (on_tcp (with_err g (prune_idle_tun_tcp_sessions relay now idle_timeout)))
    (\<lambda>report. pr_close_errors report \<le> pr_pruned_sessions report)"
proof (rule sound_on_tcp)
  fix t x r t' x'
  assume inv: "table_inv t"
    and run: "with_err g (prune_idle_tun_tcp_sessions relay now idle_timeout) (t, x) = (r, (t', x'))"
  obtain pruned t1 where prune: "prune_idle now idle_timeout t = (pruned, t1)" by fastforce
  let ?report = "\<lparr>pr_pruned_sessions = length pruned,
      pr_pruned_server_closed_sessions = length (server_closed_sessions t) - length (server_closed_sessions t1),
      pr_pruned_post_closed_sessions = length (post_closed_sessions t) - length (post_closed_sessions t1),
      pr_close_errors = 0, pr_last_close_error = None\<rparr>"
  obtain report' x1 where close: "close_pruned relay pruned ?report x = (Ok report', x1)"
    and "pr_close_errors report' \<le> pr_pruned_sessions report'"
    using close_pruned_returns [OF assms, of pruned ?report x] by auto
  moreover have "t' = t1" "r = Ok report'"
    using run prune close by (auto simp: prune_idle_tun_tcp_sessions_def with_err_def on_snd_def)
  moreover have "max_active_sessions t1 = max_active_sessions t"
    using prune by (auto simp: prune_idle_eq [OF inv])
  ultimately show "table_inv t' \<and> max_active_sessions t' = max_active_sessions t
      \<and> (case r of Ok y \<Rightarrow> pr_close_errors y \<le> pr_pruned_sessions y | Err e \<Rightarrow> E e | Panic \<Rightarrow> False)"
    using prune_idle_ok [OF inv prune] by simp
qed

text \<open>The summary after \<open>n\<close> iterations that did not find the device idle, and at the end of a run.\<close>

definition running :: "usize \<Rightarrow> nat \<Rightarrow> tun_packet_loop_summary \<Rightarrow> bool" where
  "running limit n s \<longleftrightarrow> tcp_sessions_peak s \<le> limit \<and> \<not> stop_requested s \<and> \<not> packet_limit_reached s
     \<and> idle_events s = 0 \<and> processed_packets s \<le> n + tcp_sessions_pruned s"

definition finished :: "usize \<Rightarrow> nat \<Rightarrow> tun_packet_loop_summary \<Rightarrow> bool" where
  "finished limit n s \<longleftrightarrow> tcp_sessions_peak s \<le> limit \<and> \<not> stop_requested s
     \<and> idle_events s = (if packet_limit_reached s then 0 else 1) \<and> processed_packets s \<le> n + tcp_sessions_pruned s"

lemma prune_report_frame [simp]:
  "tcp_sessions_peak (record_tcp_session_prune_report report s) = tcp_sessions_peak s"
  "stop_requested (record_tcp_session_prune_report report s) = stop_requested s"
  "packet_limit_reached (record_tcp_session_prune_report report s) = packet_limit_reached s"
  "idle_events (record_tcp_session_prune_report report s) = idle_events s"
  "processed_packets (record_tcp_session_prune_report report s) = processed_packets s + pr_close_errors report"
  "tcp_sessions_pruned (record_tcp_session_prune_report report s) = tcp_sessions_pruned s + pr_pruned_sessions report"
  by (simp_all add: record_tcp_session_prune_report_def Let_def processed_packets_def split: option.split)

lemma table_state_frame [simp]:
  "stop_requested (record_tcp_session_table_state t s) = stop_requested s"
  "packet_limit_reached (record_tcp_session_table_state t s) = packet_limit_reached s"
  "idle_events (record_tcp_session_table_state t s) = idle_events s"
  "processed_packets (record_tcp_session_table_state t s) = processed_packets s"
  "tcp_sessions_pruned (record_tcp_session_table_state t s) = tcp_sessions_pruned s"
  "tcp_sessions_peak (record_tcp_session_table_state t s) = max (tcp_sessions_peak s) (length (sessions t))"
  "tcp_sessions_open (record_tcp_session_table_state t s) = length (sessions t)"
  by (simp_all add: record_tcp_session_table_state_def state_counts_def Let_def processed_packets_def)

lemma marker_reset_peaks [simp]:
  "tcp_sessions_peak (count_marker_reset step s) = tcp_sessions_peak s"
  "tcp_sessions_pruned (count_marker_reset step s) = tcp_sessions_pruned s"
  by (induction step s rule: count_marker_reset.induct) simp_all

lemma record_event_frame [simp]:
  "tcp_sessions_peak (record_event e s) = tcp_sessions_peak s"
  "tcp_sessions_pruned (record_event e s) = tcp_sessions_pruned s"
  by (cases e; simp add: record_defs Let_def)+

lemma limit_reached_frame [simp]:
  "tcp_sessions_peak (record_packet_limit_reached s) = tcp_sessions_peak s"
  "stop_requested (record_packet_limit_reached s) = stop_requested s"
  "packet_limit_reached (record_packet_limit_reached s) = True"
  "idle_events (record_packet_limit_reached s) = idle_events s"
  "processed_packets (record_packet_limit_reached s) = processed_packets s"
  "tcp_sessions_pruned (record_packet_limit_reached s) = tcp_sessions_pruned s"
  by (simp_all add: record_packet_limit_reached_def processed_packets_def)

lemma sound_table_state:
  assumes "\<And>t. length (sessions t) \<le> limit \<Longrightarrow> R (record_tcp_session_table_state t s)"
  shows "sound E (loop_inv limit seen) (record_table_state s) R"
  using assms by (auto simp: sound_def triple_def record_table_state_def loop_inv_def table_inv_def)

lemma sound_body:
  assumes "sound E (loop_inv limit {}) (iteration i) (\<lambda>_. True)" and "relay_total relay" and "running limit n s"
  shows "sound E (loop_inv limit {}) (session_loop_body iteration clk relay idle_timeout i s)
    (\<lambda>(e, s'). if e = NoPacket then finished limit n s' else running limit (n + 1) s')"
  unfolding session_loop_body_def prune_and_record_def
proof (rule sound_sbind)
  show "sound E (loop_inv limit {}) (sbind (on_tcp (with_err LoopRead
        (prune_idle_tun_tcp_sessions relay (clk i 31) idle_timeout)))
      (\<lambda>report. ret (record_tcp_session_prune_report report s))) (running limit n)"
    using assms(3)
    by (intro sound_sbind [OF sound_prune [OF assms(2)]] sound_ret) (simp add: running_def)
next
  fix s' assume s': "running limit n s'"
  show "sound E (loop_inv limit {}) (sbind (iteration i) (\<lambda>event.
      sbind (record_table_state (record_event event s')) (\<lambda>summary''. ret (event, summary''))))
    (\<lambda>(e, s'). if e = NoPacket then finished limit n s' else running limit (n + 1) s')"
  proof (rule sound_sbind [OF assms(1)])
    fix e :: tun_packet_loop_event
    show "sound E (loop_inv limit {}) (sbind (record_table_state (record_event e s'))
        (\<lambda>summary''. ret (e, summary'')))
      (\<lambda>(e, s'). if e = NoPacket then finished limit n s' else running limit (n + 1) s')"
    proof (rule sound_sbind)
      show "sound E (loop_inv limit {}) (record_table_state (record_event e s'))
          (\<lambda>s''. if e = NoPacket then finished limit n s'' else running limit (n + 1) s'')"
        using s' by (intro sound_table_state) (auto simp: running_def finished_def record_event_counts simp del: record_event.simps)
    qed (auto intro: sound_ret)
  qed
qed

lemma sound_summary_loop:
  assumes "\<And>i n s. running limit n s \<Longrightarrow> sound E (loop_inv limit {}) (body i s)
    (\<lambda>(e, s'). if e = NoPacket then finished limit n s' else running limit (n + 1) s')"
  shows "running limit n s \<Longrightarrow> sound E (loop_inv limit {}) (summary_loop body i m s) (finished limit (n + m))"
proof (induction m arbitrary: i n s)
  case 0
  then show ?case by (auto intro!: sound_ret simp: running_def finished_def)
next
  case (Suc m)
  show ?case
    unfolding summary_loop.simps
  proof (rule sound_sbind [OF assms [OF Suc.prems]])
    fix x assume x: "case x of (e, s') \<Rightarrow> if e = NoPacket then finished limit n s' else running limit (n + 1) s'"
    obtain e s' where [simp]: "x = (e, s')" by (cases x)
    show "sound E (loop_inv limit {}) (case x of (event, summary') \<Rightarrow>
        if event = NoPacket then ret summary' else summary_loop body (i + 1) m summary') (finished limit (n + Suc m))"
    proof (cases "e = NoPacket")
      case True
      with x show ?thesis by (auto intro!: sound_ret simp: finished_def)
    next
      case False
      with x have "running limit (n + 1) s'" by simp
      from Suc.IH [OF this, of "i + 1"] False show ?thesis by simp
    qed
  qed
qed

lemma sound_loop:
  assumes "device_total device" and "resolver_total (lc_resolver config)"
    and "udp_relay_total udp_relay" and "relay_total tcp_relay"
  shows "sound (\<lambda>_. \<not> device_reliable device) (loop_inv limit {})
    (run_tun_packet_loop_with_relays_summary_with_idle_timeout (recording_device device) config clk max_packets
      udp_relay tcp_relay isn w idle_timeout)
    (\<lambda>s. finished limit max_packets s \<and> tcp_sessions_open s \<le> tcp_sessions_peak s)"
  unfolding run_tun_packet_loop_with_relays_summary_with_idle_timeout_def
proof (rule sound_sbind)
  have "running limit 0 summary_default" by (simp add: running_def) (simp add: summary_default_def)
  then show "sound (\<lambda>_. \<not> device_reliable device) (loop_inv limit {}) (summary_loop (session_loop_body
       (\<lambda>i. process_tun_device_packet_with_relays (recording_device device) config (clk i) udp_relay tcp_relay
          isn w) clk tcp_relay idle_timeout) 0 max_packets summary_default) (finished limit max_packets)"
    using sound_summary_loop [where n = 0 and m = max_packets, OF sound_body [OF sound_iteration [OF assms] assms(4)]]
    by (simp del: summary_loop.simps)
qed (auto intro!: sound_table_state simp: finished_def)

section \<open>Properties of the loop\<close>

text \<open>A device with a queue of packets, an echoing UDP relay, and a world for the witnesses.\<close>

definition sample_device :: "bytes list tun_packet_device" where
  "sample_device = \<lparr>
     read_packet = (\<lambda>d. case d of [] \<Rightarrow> (Ok None, []) | packet # rest \<Rightarrow> (Ok (Some packet), rest)),
     write_packet = (\<lambda>packet. ret ())\<rparr>"

definition sample_udp_relay :: "unit tun_udp_relay" where
  "sample_udp_relay = default_udp_relay (\<lambda>target payload.
     ret \<lparr>rs_source = \<lparr>sa_ip = V4 0x08080808, sa_port = 443\<rparr>, rs_payload = payload\<rparr>)"

definition sample_config :: "route_action \<Rightarrow> nat tun_loop_config" where
  "sample_config action = \<lparr>lc_routes = route_engine_new action, lc_dns_hijack_enabled = True,
     lc_resolver = counting_resolver, lc_dns_ttl_seconds = 60\<rparr>"

definition sample_world :: "bytes list \<Rightarrow> (bytes list, nat, unit, unit) recorded_world" where
  "sample_world packets = \<lparr>wd_device = (packets, [], []), wd_dns = sample_engine PreventPublicLeak, wd_udp = (),
     wd_sessions = sample_table Established 6, wd_tcp = ()\<rparr>"

lemma sample_totals:
  "device_total sample_device" "device_reliable sample_device"
  "resolver_total (lc_resolver (sample_config action))" "udp_relay_total sample_udp_relay"
  by (auto simp: device_total_def device_reliable_def sample_device_def op_total_def ret_def lift_def
      resolver_total_def sample_config_def counting_resolver_def udp_relay_total_def sample_udp_relay_def
      default_udp_relay_def split: list.split)

lemma sample_world_simps [simp]:
  "table_inv (wd_sessions (sample_world packets))"
  "seen_packets (sample_world packets) = []" "written_packets (sample_world packets) = []"
  by (simp_all add: sample_world_def seen_packets_def written_packets_def sample_table_inv)

text \<open>C3. The client never injects traffic of its own: every packet the loop writes to the device, on any
  path (a DNS answer, a UDP reply, a TCP reset or the packets of a session), goes back on the reversed
  flow of a packet that was read from the device before.\<close>

theorem loop_only_answers:
  assumes "device_total device" and "resolver_total (lc_resolver config)"
    and "udp_relay_total udp_relay" and "relay_total tcp_relay"
    and "table_inv (wd_sessions w)" and "seen_packets w = []" and "written_packets w = []"
    and "run_tun_packet_loop_with_relays_summary_with_idle_timeout (recording_device device) config clk max_packets
      udp_relay tcp_relay isn win idle_timeout w = (r, w')"
  shows "\<forall>reply_packet \<in> set (written_packets w'). \<exists>query \<in> set (seen_packets w'). \<exists>flow.
    parse_tun_packet_flow query = Ok flow \<and> parse_tun_packet_flow reply_packet = Ok (swap_flow flow)"
proof -
  have "loop_inv (max_active_sessions (wd_sessions w)) {} w"
    using assms(5-7) by (simp add: loop_inv_def)
  from soundD [OF sound_loop [OF assms(1-4)] this assms(8)]
  show ?thesis by (simp add: loop_inv_def answers_packet_def)
qed

theorem loop_only_answers_witness:
  "\<exists>r w'. run_tun_packet_loop_with_relays_summary_with_idle_timeout (recording_device sample_device)
      (sample_config Direct) (\<lambda>i j. 9) 5 sample_udp_relay sample_relay 5 1024 60 (sample_world [[0x45], []]) = (r, w')
    \<and> list_all (\<lambda>reply_packet. list_ex (\<lambda>query. answers_packet query reply_packet) (seen_packets w'))
        (written_packets w')"
proof -
  obtain r w' where run: "run_tun_packet_loop_with_relays_summary_with_idle_timeout (recording_device sample_device)
      (sample_config Direct) (\<lambda>i j. 9) 5 sample_udp_relay sample_relay 5 1024 60 (sample_world [[0x45], []]) = (r, w')"
    by (rule prod.exhaust)
  then show ?thesis
    using loop_only_answers [OF sample_totals(1,3,4) sample_relay_total _ _ _ run]
    by (simp add: list_all_iff list_ex_iff answers_packet_def)
qed



text \<open>The summary of a run is within its bounds: open sessions never exceed the recorded peak, and
  the peak never exceeds the limit of the table; the exit reason is \<open>Idle\<close> when the device ran out of
  packets and \<open>PacketLimitReached\<close> otherwise; and the reported packets are at most the packet limit plus
  the sessions pruned for idleness.\<close>

theorem loop_summary_bounds:
  assumes "device_total device" and "resolver_total (lc_resolver config)"
    and "udp_relay_total udp_relay" and "relay_total tcp_relay" and "table_inv (wd_sessions w)"
    and "seen_packets w = []" and "written_packets w = []"
    and "run_tun_packet_loop_with_relays_summary_with_idle_timeout (recording_device device) config clk max_packets
      udp_relay tcp_relay isn win idle_timeout w = (Ok summary, w')"
  shows "tcp_sessions_open summary \<le> tcp_sessions_peak summary
    \<and> tcp_sessions_peak summary \<le> max_active_sessions (wd_sessions w)
    \<and> exit_reason summary = (if idle_events summary = 1 then ExitIdle else ExitPacketLimitReached)
    \<and> processed_packets summary \<le> max_packets + tcp_sessions_pruned summary"
proof -
  have "loop_inv (max_active_sessions (wd_sessions w)) {} w"
    using assms(5-7) by (simp add: loop_inv_def)
  from soundD [OF sound_loop [OF assms(1-4)] this assms(8)]
  show ?thesis by (auto simp: finished_def exit_reason_def split: if_splits)
qed

theorem loop_summary_bounds_witness:
  "\<exists>summary w'. run_tun_packet_loop_with_relays_summary_with_idle_timeout (recording_device sample_device)
      (sample_config Direct) (\<lambda>i j. 9) 5 sample_udp_relay sample_relay 5 1024 60 (sample_world [[0x45], []])
    = (Ok summary, w') \<and> processed_packets summary \<le> 5 + tcp_sessions_pruned summary"
proof -
  obtain r w' where run: "run_tun_packet_loop_with_relays_summary_with_idle_timeout (recording_device sample_device)
      (sample_config Direct) (\<lambda>i j. 9) 5 sample_udp_relay sample_relay 5 1024 60 (sample_world [[0x45], []]) = (r, w')"
    by (rule prod.exhaust)
  have "loop_inv (max_active_sessions (wd_sessions (sample_world [[0x45], []]))) {} (sample_world [[0x45], []])"
    by (simp add: loop_inv_def)
  from soundD [OF sound_loop [OF sample_totals(1,3,4) sample_relay_total] this run] sample_totals(2)
  obtain summary where "r = Ok summary" by (cases r) auto
  with run show ?thesis
    using loop_summary_bounds [OF sample_totals(1,3,4) sample_relay_total _ _ _ run [unfolded \<open>r = Ok summary\<close>]] by simp
qed

text \<open>C9. Blocked and hijacked traffic does not leave the machine: when the route of a packet is to block
  it or to hijack it, the iteration touches neither the UDP relay nor the TCP relay nor the session
  table, and a blocked packet not even the DNS engine.\<close>

theorem blocked_packet_contained:
  assumes "read_packet device (wd_device w) = (Ok (Some packet), d')"
    and "decide_tun_packet_route packet (lc_routes config) (lc_dns_hijack_enabled config) = Ok route"
    and "rd_action route = Block \<or> rd_action route = HijackDns"
    and "process_tun_device_packet_with_relays device config clk udp_relay tcp_relay isn win w = (r, w')"
  shows "wd_udp w' = wd_udp w \<and> wd_sessions w' = wd_sessions w \<and> wd_tcp w' = wd_tcp w
    \<and> (rd_action route = Block \<longrightarrow> wd_dns w' = wd_dns w)"
proof -
  have dns: "process_tun_packet res now packet (lc_routes config) (lc_dns_hijack_enabled config) ttl e = (q, e') \<Longrightarrow>
      (rd_action route = Block \<longrightarrow> e' = e)
      \<and> (\<forall>plan. q = Ok (RelayPlan plan) \<longrightarrow> plan_relay_action plan = RelayDrop)" for res now ttl e q e'
    using assms(2,3)
    by (auto simp: process_tun_packet_def plan_tun_packet_relay_def sbind_def lift_def ret_def
        split: outcome.splits prod.splits if_splits)
  show ?thesis
    using assms(1,4)
    by (auto dest!: dns simp: process_tun_device_packet_with_relays_def handle_device_packet_def sbind_def
        on_device_def with_err_def or_event_def on_dns_def write_to_device_def ret_def
        split: outcome.splits prod.splits tun_packet_process_action.splits if_splits)
qed

lemma sample_tcp_packet:
  obtains packet where "parse_tun_tcp_segment packet = Ok (sample_segment 0x10 101 701 50000 [])"
    and "decide_tun_packet_route packet (lc_routes (sample_config Block)) True
      = Ok \<lparr>rd_flow = (sample_flow Tcp)\<lparr>flow_source_port := Some 50000\<rparr>, rd_action = Block,
            rd_matched_rule = None, rd_dns_hijacked = False\<rparr>"
proof -
  obtain packet where packet: "parse_tun_tcp_segment packet = Ok (sample_segment 0x10 101 701 50000 [])"
    using sample_packet_parses [of "0x10" "[]" 101 701 50000] by (auto simp: flags_from_bits_def)
  from tcp_segment_flow [OF this] show thesis
    by (intro that [OF packet])
      (simp add: decide_tun_packet_route_def sample_segment_simps is_dns_hijack_candidate_def sample_config_def
        route_engine_new_def decide_destination_def Let_def sample_flow_def)
qed

theorem blocked_packet_contained_witness:
  "\<exists>packet r w'. process_tun_device_packet_with_relays (recording_device sample_device) (sample_config Block)
      (\<lambda>i. 9) sample_udp_relay sample_relay 5 1024 (sample_world [packet]) = (r, w')
    \<and> parse_tun_tcp_segment packet = Ok (sample_segment 0x10 101 701 50000 [])
    \<and> wd_sessions w' = wd_sessions (sample_world [packet])"
proof -
  obtain packet where packet: "parse_tun_tcp_segment packet = Ok (sample_segment 0x10 101 701 50000 [])"
    and route: "decide_tun_packet_route packet (lc_routes (sample_config Block)) True
      = Ok \<lparr>rd_flow = (sample_flow Tcp)\<lparr>flow_source_port := Some 50000\<rparr>, rd_action = Block,
            rd_matched_rule = None, rd_dns_hijacked = False\<rparr>"
    by (rule sample_tcp_packet)
  have read: "read_packet (recording_device sample_device) (wd_device (sample_world [packet]))
      = (Ok (Some packet), ([], [packet], []))"
    by (simp add: recording_device_def sample_device_def sample_world_def)
  have "lc_dns_hijack_enabled (sample_config Block)" by (simp add: sample_config_def)
  with route have decision: "decide_tun_packet_route packet (lc_routes (sample_config Block))
      (lc_dns_hijack_enabled (sample_config Block))
    = Ok \<lparr>rd_flow = (sample_flow Tcp)\<lparr>flow_source_port := Some 50000\<rparr>, rd_action = Block,
          rd_matched_rule = None, rd_dns_hijacked = False\<rparr>"
    by simp
  obtain r w' where run: "process_tun_device_packet_with_relays (recording_device sample_device)
      (sample_config Block) (\<lambda>i. 9) sample_udp_relay sample_relay 5 1024 (sample_world [packet]) = (r, w')"
    by (rule prod.exhaust)
  from blocked_packet_contained [OF read decision _ run] packet run show ?thesis by auto
qed

lemma dns_hijack_payload_message:
  assumes "build_tun_dns_hijack_payload res now plan ttl e = (Ok (payload, rcode), e')"
  shows "\<exists>code count rest. payload = dns_response_header (hp_question plan) code count
    @ q_raw_question (hp_question plan) @ rest"
proof -
  have "\<exists>code count rest. build_dns_response (hp_question plan) ips ttl
      = dns_response_header (hp_question plan) code count @ q_raw_question (hp_question plan) @ rest" for ips
    by (auto simp: build_dns_response_def Let_def)
  moreover have "\<exists>code count rest. build_dns_error_response (hp_question plan) c
      = dns_response_header (hp_question plan) code count @ q_raw_question (hp_question plan) @ rest" for c
    by (auto simp: build_dns_error_response_def)
  ultimately show ?thesis
    using assms
    by (auto simp: build_tun_dns_hijack_payload_def split: dns_question_type.splits prod.splits
        outcome.splits dns_error.splits)
qed


definition sample_txt_query :: bytes where
  "sample_txt_query = [0x12, 0x34, 0x01, 0, 0, 1, 0, 0, 0, 0, 0, 0, 1, 0x61, 2, 0x69, 0x6f, 0, 0, 16, 0, 1]"

lemma sample_txt_query_parses:
  "parse_dns_query sample_txt_query = Ok \<lparr>q_id = 0x1234, q_name = ''a.io'', q_type = QUnsupported 16,
     q_raw_question = [1, 0x61, 2, 0x69, 0x6f, 0, 0, 16, 0, 1], q_recursion_desired = True\<rparr>"
  by code_simp

lemma sample_hijack:
  obtains packet response where
    "parse_tun_udp_payload packet = Ok \<lparr>udp_flow = (sample_flow Udp)\<lparr>flow_destination_port := Some 53\<rparr>,
       udp_payload = sample_txt_query\<rparr>"
    and "build_tun_dns_hijack_response counting_resolver 3 packet 60 (sample_engine PreventPublicLeak)
      = (Ok response, sample_engine PreventPublicLeak)"
proof -
  let ?flow = "(sample_flow Udp)\<lparr>flow_destination_port := Some 53\<rparr>"
  obtain packet where "build_tun_udp_response_packet (swap_flow ?flow) sample_txt_query = Ok packet"
    using build_tun_udp_defined [of "swap_flow ?flow" sample_txt_query]
    by (auto simp: swap_flow_def sample_flow_def flow_wf_def max_udp_response_payload_def sample_txt_query_def)
  then have parse: "parse_tun_udp_payload packet = Ok \<lparr>udp_flow = ?flow, udp_payload = sample_txt_query\<rparr>"
    using udp_codec.parse_build [of "(swap_flow ?flow, sample_txt_query)" packet]
    by (simp add: udp_view_def swap_flow_def sample_flow_def)
  then obtain plan where plan: "plan_tun_dns_hijack packet = Ok plan" "hp_flow plan = ?flow"
      "hp_question plan = \<lparr>q_id = 0x1234, q_name = ''a.io'', q_type = QUnsupported 16,
        q_raw_question = [1, 0x61, 2, 0x69, 0x6f, 0, 0, 16, 0, 1], q_recursion_desired = True\<rparr>"
    by (auto simp: plan_tun_dns_hijack_def is_dns_hijack_candidate_def sample_txt_query_parses
        destination_socket_addr_def source_socket_addr_def sample_flow_def)
  have "\<exists>reply_packet. build_tun_udp_response_packet ?flow (build_dns_error_response (hp_question plan) 4) = Ok reply_packet"
    by (subst build_tun_udp_defined)
      (simp_all add: sample_flow_def flow_wf_def max_udp_response_payload_def build_dns_error_response_def plan)
  then show thesis
    using plan that [OF parse]
    by (auto simp: build_tun_dns_hijack_response_def build_tun_dns_hijack_payload_def sbind_def lift_def ret_def
        build_tun_dns_response_packet_def)
qed


section \<open>The resolver\<close>

text \<open>Operations that leave the DNS engine \<open>e\<close> as it is.\<close>

definition dns_frame :: "'n dns_engine \<Rightarrow> (('d, 'n, 'u, 't) tun_world, 'e, 'a) op \<Rightarrow> bool" where
  "dns_frame e m \<longleftrightarrow> triple (\<lambda>w. wd_dns w = e) m (\<lambda>r w. wd_dns w = e)"

named_theorems frame_rules \<open>operations that leave the DNS engine alone\<close>

lemma dns_frame_ret [frame_rules]: "dns_frame e (ret x)"
  by (simp add: dns_frame_def triple_def ret_def)

lemma dns_frame_lift [frame_rules]: "dns_frame e (lift r)"
  by (simp add: dns_frame_def triple_def lift_def)

lemma dns_frame_sbind [frame_rules]:
  "dns_frame e m \<Longrightarrow> (\<And>x. dns_frame e (f x)) \<Longrightarrow> dns_frame e (sbind m f)"
  unfolding dns_frame_def by (rule triple_sbind)

lemma dns_frame_or_event [frame_rules]:
  assumes "dns_frame e m" and "\<And>x. dns_frame e (f x)"
  shows "dns_frame e (or_event m g f)"
  unfolding dns_frame_def
proof (rule tripleI)
  fix w r w' assume w: "wd_dns w = e" and run: "or_event m g f w = (r, w')"
  obtain q v where m: "m w = (q, v)" by fastforce
  with assms(1) w have "wd_dns v = e" by (auto simp: dns_frame_def dest: tripleD)
  then show "wd_dns w' = e"
    using run m assms(2) by (cases q) (auto simp: or_event_def dns_frame_def dest: tripleD)
qed

lemma dns_frame_if [frame_rules]:
  "dns_frame e m \<Longrightarrow> dns_frame e m' \<Longrightarrow> dns_frame e (if b then m else m')"
  by simp

lemma dns_frame_device [frame_rules]: "dns_frame e (on_device m)"
  by (simp add: dns_frame_def triple_def on_device_def split: prod.split)

lemma dns_frame_udp [frame_rules]: "dns_frame e (on_udp m)"
  by (simp add: dns_frame_def triple_def on_udp_def split: prod.split)

lemma dns_frame_tcp [frame_rules]: "dns_frame e (on_tcp m)"
  by (simp add: dns_frame_def triple_def on_tcp_def split: prod.split)

lemma dns_frame_state [frame_rules]: "dns_frame e (record_table_state s)"
  by (simp add: dns_frame_def triple_def record_table_state_def)

lemma dns_frame_write [frame_rules]: "dns_frame e (write_to_device device packet)"
  unfolding write_to_device_def by (rule dns_frame_device)

lemma dns_frame_write_all [frame_rules]: "dns_frame e (write_all_to_device device packets)"
  by (induction packets) (auto intro: frame_rules)

lemma resolve_leaves_engine:
  assumes "dns_policy e = PreventPublicLeak"
  shows "snd (dns_resolve res host port now e) = e"
  using assms by (cases "parse_ip (normalize_host host)") (simp_all add: dns_resolve_simps)

lemma hijack_payload_leaves_engine:
  assumes "dns_policy e = PreventPublicLeak"
  shows "snd (build_tun_dns_hijack_payload res now plan ttl e) = e"
  using resolve_leaves_engine [OF assms, of res "q_name (hp_question plan)" 0 now]
  by (auto simp: build_tun_dns_hijack_payload_def split: dns_question_type.split prod.split
      outcome.split dns_error.split)

lemma process_packet_leaves_engine:
  assumes "dns_policy e = PreventPublicLeak"
  shows "snd (process_tun_packet res now packet routes hijack ttl e) = e"
proof -
  have "snd (build_tun_dns_hijack_response res now packet ttl e) = e"
    using hijack_payload_leaves_engine [OF assms, of res now]
    by (auto simp: build_tun_dns_hijack_response_def sbind_def lift_def ret_def split: prod.split outcome.split)
      (metis snd_conv)+
  then show ?thesis
    by (auto simp: process_tun_packet_def sbind_def lift_def ret_def split: prod.split outcome.split)
qed

lemma dns_frame_iteration:
  assumes "dns_policy e = PreventPublicLeak"
  shows "dns_frame e (process_tun_device_packet_with_relays device config clk udp_relay tcp_relay isn win)"
proof -
  have "dns_frame e (on_dns (process_tun_packet (lc_resolver config) (clk 30) packet (lc_routes config)
      (lc_dns_hijack_enabled config) (lc_dns_ttl_seconds config)))" for packet
    using process_packet_leaves_engine [OF assms, of "lc_resolver config" "clk 30" packet]
    by (auto simp: dns_frame_def triple_def on_dns_def split: prod.split) (metis snd_conv)
  then show ?thesis
    unfolding process_tun_device_packet_with_relays_def handle_device_packet_def relay_udp_plan_def relay_tcp_plan_def
    by (auto intro!: frame_rules split: option.split tun_packet_process_action.split)
qed

lemma dns_frame_summary_loop:
  "(\<And>i s. dns_frame e (body i s)) \<Longrightarrow> dns_frame e (summary_loop body i n s)"
  by (induction n arbitrary: i s) (auto intro!: frame_rules split: prod.split)

text \<open>C8. Under the leak-prevention policy a whole run of the loop never consults the resolver: the DNS
  engine, with the state of its resolver and its cache, is the same before and after, for any device,
  relays and traffic.\<close>

theorem loop_prevents_public_leak:
  assumes "dns_policy (wd_dns w) = PreventPublicLeak"
    and "run_tun_packet_loop_with_relays_summary_with_idle_timeout device config clk max_packets
      udp_relay tcp_relay isn win idle_timeout w = (r, w')"
  shows "wd_dns w' = wd_dns w"
proof -
  have "dns_frame (wd_dns w) (run_tun_packet_loop_with_relays_summary_with_idle_timeout device config clk
      max_packets udp_relay tcp_relay isn win idle_timeout)"
    unfolding run_tun_packet_loop_with_relays_summary_with_idle_timeout_def session_loop_body_def prune_and_record_def
    by (intro frame_rules dns_frame_summary_loop dns_frame_iteration assms(1))
  then show ?thesis using assms(2) by (auto simp: dns_frame_def dest: tripleD)
qed

theorem loop_prevents_public_leak_witness:
  "wd_dns (snd (run_tun_packet_loop_with_relays_summary_with_idle_timeout (recording_device sample_device)
      (sample_config Direct) (\<lambda>i j. 9) 5 sample_udp_relay sample_relay 5 1024 60 (sample_world [[0x45], []])))
   = sample_engine PreventPublicLeak"
  using loop_prevents_public_leak [OF _ prod.collapse [symmetric], of "sample_world [[0x45], []]"]
  by (simp add: sample_world_def sample_engine_def dns_engine_with_policy_def dns_engine_with_policies_def)

section \<open>UDP relays and targets\<close>

text \<open>A UDP datagram routed directly is relayed faithfully: the relay is called once, with the
  payload of the packet and the packet's own destination as its target, and the packet written back
  parses to the relay's payload on the reversed flow.\<close>

theorem direct_udp_relay_roundtrip:
  assumes "plan_tun_packet_relay packet routes hijack = Ok plan" and "rd_action (plan_route plan) = Direct"
    and "relay_tun_udp_packet relay packet plan u = (Ok response, u')"
  shows "\<exists>udp port source payload. parse_tun_udp_payload packet = Ok udp
    \<and> flow_destination_port (udp_flow udp) = Some port
    \<and> relay_udp_datagram relay \<lparr>ot_host = show_ip (flow_destination_ip (udp_flow udp)), ot_port = port\<rparr>
        (udp_payload udp) u = (Ok \<lparr>rs_source = source, rs_payload = payload\<rparr>, u')
    \<and> parse_tun_udp_payload (ur_packet response)
        = Ok \<lparr>udp_flow = swap_flow (udp_flow udp), udp_payload = payload\<rparr>"
proof -
  obtain udp where udp: "parse_tun_udp_payload packet = Ok udp" "udp_flow udp = rd_flow (plan_route plan)"
    and build: "build_tun_udp_response_packet (udp_flow udp) (ur_relay_payload response) = Ok (ur_packet response)"
    using assms(3) by (rule relay_tun_udp_packet_Ok)
  have action: "plan_relay_action plan = tun_relay_action_for_transport (udp_flow udp) None"
    using assms(1,2) udp(2) by (auto simp: plan_tun_packet_relay_Ok)
  have "flow_protocol (udp_flow udp) = Udp" "flow_wf (udp_flow udp)"
    using udp(1)
    by (auto simp: parse_tun_udp_payload_def obind_Ok_iff Let_def dest: parse_tun_packet_parts_wf split: if_splits)
  then obtain port where port: "flow_destination_port (udp_flow udp) = Some port"
      "plan_relay_action plan = DirectUdp \<lparr>ot_host = show_ip (flow_destination_ip (udp_flow udp)), ot_port = port\<rparr>"
    by (auto simp: action tun_relay_action_for_transport_def destination_outbound_target_def
        outbound_target_new_def flow_wf_def)
  show ?thesis
    using assms(3) udp port udp_response_answers(1) [OF udp_payload_flow [OF udp(1)] build]
    by (auto simp: relay_tun_udp_packet_def sbind_def lift_def ret_def with_err_def
        split: outcome.splits prod.splits if_splits intro!: exI [of _ udp])
       (metis udp_relay_response.surjective old.unit.exhaust)
qed

theorem direct_udp_relay_roundtrip_witness:
  "\<exists>packet plan response. plan_tun_packet_relay packet (route_engine_new Direct) True = Ok plan
    \<and> relay_tun_udp_packet sample_udp_relay packet plan () = (Ok response, ())
    \<and> parse_tun_udp_payload (ur_packet response)
        = Ok \<lparr>udp_flow = swap_flow (sample_flow Udp), udp_payload = [1, 2, 3]\<rparr>"
proof -
  obtain packet where "build_tun_udp_response_packet (swap_flow (sample_flow Udp)) [1, 2, 3] = Ok packet"
    using build_tun_udp_defined [of "swap_flow (sample_flow Udp)" "[1, 2, 3]"]
    by (auto simp: swap_flow_def sample_flow_def flow_wf_def max_udp_response_payload_def)
  then have parse: "parse_tun_udp_payload packet = Ok \<lparr>udp_flow = sample_flow Udp, udp_payload = [1, 2, 3]\<rparr>"
    using udp_codec.parse_build [of "(swap_flow (sample_flow Udp), [1, 2, 3])" packet]
    by (simp add: udp_view_def swap_flow_def sample_flow_def)
  then obtain plan where plan: "plan_tun_packet_relay packet (route_engine_new Direct) True = Ok plan"
      "rd_action (plan_route plan) = Direct" "rd_flow (plan_route plan) = sample_flow Udp"
      "plan_relay_action plan = DirectUdp (outbound_target_new (show_ip (V4 0x08080808)) 443)"
    using udp_payload_flow [OF parse]
    by (auto simp: plan_tun_packet_relay_def decide_tun_packet_route_def route_engine_new_def decide_destination_def
        is_dns_hijack_candidate_def tun_relay_action_for_transport_def destination_outbound_target_def
        sample_flow_def Let_def simp del: show_ip.simps)
  obtain reply_packet where "build_tun_udp_response_packet (sample_flow Udp) [1, 2, 3] = Ok reply_packet"
    using sample_flow_builds(2) [of "[1, 2, 3]"] by auto
  then obtain response where run: "relay_tun_udp_packet sample_udp_relay packet plan () = (Ok response, ())"
    using parse plan
    by (auto simp: relay_tun_udp_packet_def sbind_def lift_def ret_def with_err_def sample_udp_relay_def
        default_udp_relay_def)
  from direct_udp_relay_roundtrip [OF plan(1,2) run] parse plan(1) run show ?thesis
    by (auto simp: sample_udp_relay_def default_udp_relay_def ret_def)
qed

section \<open>Ends of a run\<close>

text \<open>The loop reads at most \<open>max_packets\<close> packets, stops at the first idle read, and stops earlier
  only then: every event but the last is a packet, and a run shorter than the limit ends with the idle
  event.\<close>

theorem loop_length:
  assumes "run_tun_packet_loop device config clk max_packets w = (Ok es, w')"
  shows "length es \<le> max_packets \<and> NoPacket \<notin> set (butlast es)
    \<and> (length es < max_packets \<longrightarrow> es \<noteq> [] \<and> List.last es = NoPacket)"
  using event_loop_shape [of _ 0 max_packets "[]"] assms by (auto simp: run_tun_packet_loop_def)

theorem loop_length_witness:
  "run_tun_packet_loop (recording_device sample_device) (sample_config Direct) (\<lambda>i j. 9) 5 (sample_world [])
     = (Ok [NoPacket], sample_world [])
   \<and> List.last [NoPacket] = NoPacket"
proof -
  have "event_loop body i 5 es w = sbind (body i) (\<lambda>event.
     if event = NoPacket then ret (es @ [event]) else event_loop body (i + 1) 4 (es @ [event])) w"
    for body :: "nat \<Rightarrow> (bytes list \<times> bytes list \<times> bytes list, nat, unit, unit, tun_packet_loop_event) world_op" and i es w
    using event_loop.simps(2) [of body i 4 es] by simp
  then have run: "run_tun_packet_loop (recording_device sample_device) (sample_config Direct) (\<lambda>i j. 9) 5 (sample_world [])
     = (Ok [NoPacket], sample_world [])"
    by (simp add: run_tun_packet_loop_def process_tun_device_packet_def handle_device_packet_def on_device_def
        with_err_def sbind_def ret_def recording_device_def sample_device_def sample_world_def)
  from loop_length [OF run] run show ?thesis by simp
qed

lemma close_pruned_failing:
  assumes "\<And>session x. \<exists>e x'. close_session relay session x = (Err e, x')"
  shows "\<exists>report' x'. close_pruned relay pruned report x = (Ok report', x')
    \<and> pr_close_errors report' = pr_close_errors report + length pruned"
proof (induction pruned arbitrary: report x)
  case Nil
  then show ?case by (simp add: ret_def)
next
  case (Cons session pruned)
  obtain e x1 where "close_session relay session x = (Err e, x1)" using assms by blast
  then show ?case
    using Cons.IH [of "report\<lparr>pr_close_errors := pr_close_errors report + 1,
        pr_last_close_error := Some (SessionRelay e)\<rparr>" x1] by auto
qed

lemma prune_failing:
  assumes "\<And>session x. \<exists>e x'. close_session relay session x = (Err e, x')"
    and "prune_idle now idle_timeout t = (pruned, t')"
  shows "\<exists>report x'. prune_idle_tun_tcp_sessions relay now idle_timeout (t, x) = (Ok report, (t', x'))
    \<and> pr_close_errors report = length pruned"
  using close_pruned_failing [OF assms(1), of pruned "\<lparr>pr_pruned_sessions = length pruned,
      pr_pruned_server_closed_sessions = length (server_closed_sessions t) - length (server_closed_sessions t'),
      pr_pruned_post_closed_sessions = length (post_closed_sessions t) - length (post_closed_sessions t'),
      pr_close_errors = 0, pr_last_close_error = None\<rparr>" x] assms(2)
  by (auto simp: prune_idle_tun_tcp_sessions_def on_snd_def)

text \<open>C16. Failed closes of idle sessions are reported as processed packets: on an idle device, from which
  no packet is read, a run that prunes sessions whose close fails reports one processed packet for each
  of them.\<close>

theorem prune_errors_reported_as_packets:
  assumes "\<And>d. \<exists>d'. read_packet device d = (Ok None, d')"
    and "\<And>session x. \<exists>e x'. close_session tcp_relay session x = (Err e, x')"
    and "0 < max_packets"
  shows "\<exists>summary w'. run_tun_packet_loop_with_relays_summary_with_idle_timeout device config clk max_packets
      udp_relay tcp_relay isn win idle_timeout w = (Ok summary, w')
    \<and> processed_packets summary = length (fst (prune_idle (clk 0 31) idle_timeout (wd_sessions w)))"
proof -
  obtain n where n: "max_packets = Suc n" using assms(3) by (cases max_packets) auto
  obtain pruned t where prune: "prune_idle (clk 0 31) idle_timeout (wd_sessions w) = (pruned, t)" by fastforce
  obtain report x where close: "prune_idle_tun_tcp_sessions tcp_relay (clk 0 31) idle_timeout (wd_sessions w, wd_tcp w)
      = (Ok report, (t, x))" and errors: "pr_close_errors report = length pruned"
    using prune_failing [OF assms(2) prune, of "wd_tcp w"] by blast
  obtain d' where read: "read_packet device (wd_device w) = (Ok None, d')" using assms(1) by blast
  show ?thesis
    by (simp add: n run_tun_packet_loop_with_relays_summary_with_idle_timeout_def session_loop_body_def
        prune_and_record_def sbind_def on_tcp_def with_err_def close ret_def record_table_state_def
        process_tun_device_packet_with_relays_def handle_device_packet_def on_device_def read prune
        record_event_counts errors del: record_event.simps)
qed

definition failing_close_relay :: "unit tcp_session_relay" where
  "failing_close_relay = default_session_relay (\<lambda>session. ret None) (\<lambda>session. lift (Err ''gone''))"

theorem prune_errors_reported_as_packets_witness:
  "\<exists>summary w'. run_tun_packet_loop_with_relays_summary_with_idle_timeout
      \<lparr>read_packet = ret None, write_packet = (\<lambda>packet. ret ())\<rparr> (sample_config Direct) (\<lambda>i j. 100) 5
      sample_udp_relay failing_close_relay 5 1024 60
      \<lparr>wd_device = (), wd_dns = sample_engine AllowSystem, wd_udp = (), wd_sessions = sample_table Established 6,
       wd_tcp = ()\<rparr> = (Ok summary, w')
    \<and> processed_packets summary = 1"
proof -
  have "length (fst (prune_idle 100 60 (sample_table Established 6))) = 1"
    by (subst prune_idle_eq [OF sample_table_inv(2)]) (simp add: sample_table_def sample_session_def)
  moreover have "\<exists>e x'. close_session failing_close_relay session x = (Err e, x')" for session x
    by (simp add: failing_close_relay_def default_session_relay_def lift_def)
  ultimately show ?thesis
    using prune_errors_reported_as_packets [of "\<lparr>read_packet = ret None, write_packet = (\<lambda>packet. ret ())\<rparr>"
        failing_close_relay 5 "sample_config Direct" "\<lambda>i j. 100" sample_udp_relay 5 1024 60
        "\<lparr>wd_device = (), wd_dns = sample_engine AllowSystem, wd_udp = (), wd_sessions = sample_table Established 6,
          wd_tcp = ()\<rparr>"]
    by (simp add: ret_def)
qed

end
