(* ===== verification/Keli_Strings.thy ===== *)
theory Keli_Strings
  imports Keli_Net_Addr
begin

text \<open>
  The string functions of the standard library that the protocol crates use: prefixes, splitting at a
  character, lines, trimming of brackets, and the parser of unsigned numbers, with the lemmas about them
  that the codecs need.
\<close>

section \<open>Splitting\<close>

definition starts_with :: "string \<Rightarrow> string \<Rightarrow> bool" where
  "starts_with s p \<longleftrightarrow> prefix p s"

definition strip_prefix :: "string \<Rightarrow> string \<Rightarrow> string option" where
  "strip_prefix p s = (if prefix p s then Some (drop (length p) s) else None)"

definition split_once :: "char \<Rightarrow> string \<Rightarrow> (string \<times> string) option" where
  "split_once c s = (case dropWhile (\<lambda>x. x \<noteq> c) s of
      [] \<Rightarrow> None
    | _ # rest \<Rightarrow> Some (takeWhile (\<lambda>x. x \<noteq> c) s, rest))"

definition rsplit_once :: "char \<Rightarrow> string \<Rightarrow> (string \<times> string) option" where
  "rsplit_once c s = map_option (\<lambda>(a, b). (rev b, rev a)) (split_once c (rev s))"

lemma split_once_shorter: "split_once c s = Some (a, b) \<Longrightarrow> length b < length s"
  using length_dropWhile_le [of "\<lambda>x. x \<noteq> c" s] by (auto simp: split_once_def split: list.splits)

function split_on :: "char \<Rightarrow> string \<Rightarrow> string list" where
  "split_on c s = (case split_once c s of None \<Rightarrow> [s] | Some (a, rest) \<Rightarrow> a # split_on c rest)"
  by pat_completeness auto
termination
  by (relation "measure (\<lambda>(c, s). length s)") (auto dest: split_once_shorter)

declare split_on.simps [simp del]

text \<open>\<open>str::lines\<close>: a line ends at a line feed, and a carriage return before it is dropped with it.\<close>

definition strip_cr :: "string \<Rightarrow> string" where
  "strip_cr s = (if s \<noteq> [] \<and> List.last s = CHR 0x0D then butlast s else s)"

function lines :: "string \<Rightarrow> string list" where
  "lines s = (if s = [] then [] else
     case split_once CHR 0x0A s of None \<Rightarrow> [s] | Some (a, rest) \<Rightarrow> strip_cr a # lines rest)"
  by pat_completeness auto
termination
  by (relation "measure length") (auto dest: split_once_shorter)

declare lines.simps [simp del]

section \<open>Trimming\<close>

definition trim_start :: "string \<Rightarrow> string" where
  "trim_start s = trim_leading whitespace_strs s"

text \<open>\<open>trim_matches(['[', ']'])\<close>.\<close>

definition bracket :: "char \<Rightarrow> bool" where
  "bracket c \<longleftrightarrow> c = CHR ''['' \<or> c = CHR '']''"

definition trim_brackets :: "string \<Rightarrow> string" where
  "trim_brackets s = rev (dropWhile bracket (rev (dropWhile bracket s)))"

text \<open>\<open>chars().filter(|ch| !ch.is_whitespace())\<close>.\<close>

function remove_whitespace :: "string \<Rightarrow> string" where
  "remove_whitespace s = (case s of
      [] \<Rightarrow> []
    | c # rest \<Rightarrow>
        let n = whitespace_len whitespace_strs s in
        if n = 0 then c # remove_whitespace rest else remove_whitespace (drop n s))"
  by pat_completeness auto
termination
  by (relation "measure length") auto

declare remove_whitespace.simps [simp del]

section \<open>Numbers\<close>

text \<open>\<open>str::parse\<close> for an unsigned type with the given largest value.\<close>

definition parse_unsigned :: "nat \<Rightarrow> string \<Rightarrow> nat option" where
  "parse_unsigned max_value s =
     (let digits = (case s of c # rest \<Rightarrow> if c = CHR ''+'' then rest else s | [] \<Rightarrow> [])
      in if digits = [] \<or> \<not> list_all (\<lambda>c. to_digit 10 c \<noteq> None) digits then None
         else let n = digits_value 10 0 digits in if n \<le> max_value then Some n else None)"

definition parse_u16 :: "string \<Rightarrow> u16 option" where
  "parse_u16 s = map_option of_nat (parse_unsigned 65535 s)"

definition show_u16 :: "u16 \<Rightarrow> string" where
  "show_u16 n = show_radix 10 (unat n)"

definition is_ascii_hexdigit :: "char \<Rightarrow> bool" where
  "is_ascii_hexdigit c \<longleftrightarrow> to_digit 16 c \<noteq> None"

section \<open>Facts\<close>

lemma split_once_append:
  assumes "c \<notin> set a"
  shows "split_once c (a @ c # b) = Some (a, b)"
proof -
  have "dropWhile (\<lambda>x. x \<noteq> c) (a @ c # b) = c # b" "takeWhile (\<lambda>x. x \<noteq> c) (a @ c # b) = a"
    using assms by (subst dropWhile_append2 takeWhile_append2; auto)+
  then show ?thesis by (simp add: split_once_def)
qed

lemma rsplit_once_append: "c \<notin> set b \<Longrightarrow> rsplit_once c (a @ c # b) = Some (a, b)"
  using split_once_append [of c "rev b" "rev a"] by (simp add: rsplit_once_def)

lemma split_once_Some: "split_once c s = Some (a, b) \<Longrightarrow> s = a @ c # b \<and> c \<notin> set a"
proof -
  assume split: "split_once c s = Some (a, b)"
  then obtain x where drop: "dropWhile (\<lambda>x. x \<noteq> c) s = x # b" and a: "a = takeWhile (\<lambda>x. x \<noteq> c) s"
    by (auto simp: split_once_def split: list.splits)
  from drop have "x = c" using hd_dropWhile [of "\<lambda>x. x \<noteq> c" s] by simp
  with drop a show ?thesis
    using takeWhile_dropWhile_id [of "\<lambda>x. x \<noteq> c" s] by (auto dest: set_takeWhileD)
qed

lemma parse_u16_show [simp]: "parse_u16 (show_u16 n) = Some n"
proof -
  have digits: "list_all (\<lambda>c. to_digit 10 c \<noteq> None) (show_radix 10 (unat n))"
    using show_radix_digits [of 10 _ "unat n"] by (auto simp: list_all_iff)
  have plus: "to_digit 10 CHR ''+'' = None" by (simp add: to_digit_def char_code_def)
  have "(case show_radix 10 (unat n) of c # rest \<Rightarrow> if c = CHR ''+'' then rest else show_radix 10 (unat n) | [] \<Rightarrow> [])
      = show_radix 10 (unat n)"
    using digits plus show_radix_nonempty [of 10 "unat n"] by (cases "show_radix 10 (unat n)") auto
  moreover have "unat n \<le> 65535" using unat_u16_le [of n] by simp
  ultimately show ?thesis
    using digits show_radix_nonempty [of 10 "unat n"]
    by (simp add: parse_u16_def show_u16_def parse_unsigned_def Let_def digits_value_show_radix)
qed

lemma show_u16_no_colon: "CHR '':'' \<notin> set (show_u16 n)"
  using show_radix_digits [of 10 "CHR '':''" "unat n"]
  by (auto simp: show_u16_def to_digit_def char_code_def)

end
