(* ===== verification/Keli_Text_Facts.thy ===== *)
theory Keli_Text_Facts
  imports Keli_Strings
begin

text \<open>
  Facts about trimming and UTF-8 that the codecs use: trimming twice is trimming once, and trimming,
  splitting at a boundary and joining keep a string well formed.
\<close>

section \<open>Trimming\<close>

definition no_space_prefix :: "string list \<Rightarrow> string \<Rightarrow> bool" where
  "no_space_prefix ws s \<longleftrightarrow> list_all (\<lambda>w. \<not> prefix w s) ws"

lemma whitespace_len_zero: "[] \<notin> set ws \<Longrightarrow> whitespace_len ws s = 0 \<longleftrightarrow> no_space_prefix ws s"
  by (auto simp: whitespace_len_def no_space_prefix_def list_all_iff find_None_iff find_Some_iff
      split: option.split) (metis length_0_conv nth_mem)

lemma whitespace_len_prefix: "whitespace_len ws s = n \<Longrightarrow> 0 < n \<Longrightarrow> \<exists>w \<in> set ws. prefix w s \<and> length w = n"
  by (auto simp: whitespace_len_def find_Some_iff split: option.splits)

lemma trim_leading_stop: "no_space_prefix ws s \<Longrightarrow> [] \<notin> set ws \<Longrightarrow> trim_leading ws s = s"
  by (simp add: trim_leading.simps [of ws s] whitespace_len_zero)

lemma no_space_prefix_trim_leading: "[] \<notin> set ws \<Longrightarrow> no_space_prefix ws (trim_leading ws s)"
proof (induction ws s rule: trim_leading.induct)
  case (1 ws s)
  show ?case
  proof (cases "whitespace_len ws s = 0 \<or> s = []")
    case True
    then show ?thesis
      using 1 whitespace_len_zero [of ws s]
      by (auto simp: trim_leading.simps [of ws s] no_space_prefix_def list_all_iff)
  next
    case False
    then show ?thesis
      using 1 by (simp add: trim_leading.simps [of ws s])
  qed
qed

text \<open>What is trimmed away at the front is a sequence of white-space characters.\<close>

lemma trim_leading_split: "\<exists>spaces. set spaces \<subseteq> set ws \<and> s = concat spaces @ trim_leading ws s"
proof (induction ws s rule: trim_leading.induct)
  case (1 ws s)
  show ?case
  proof (cases "whitespace_len ws s = 0 \<or> s = []")
    case True
    then show ?thesis by (intro exI [of _ "[]"]) (auto simp: trim_leading.simps [of ws s])
  next
    case False
    then obtain w where w: "w \<in> set ws" "prefix w s" "length w = whitespace_len ws s"
      using whitespace_len_prefix [of ws s] by auto
    obtain spaces where "set spaces \<subseteq> set ws"
        "drop (length w) s = concat spaces @ trim_leading ws (drop (length w) s)"
      using 1 [OF refl] False w by auto
    moreover have "s = w @ drop (length w) s" using w(2) by (auto simp: prefix_def)
    moreover have "trim_leading ws s = trim_leading ws (drop (length w) s)"
      using False w by (simp add: trim_leading.simps [of ws s])
    ultimately show ?thesis using w(1) by (intro exI [of _ "w # spaces"]) auto
  qed
qed

lemma whitespace_strs_nonempty: "[] \<notin> set whitespace_strs" "[] \<notin> set (map rev whitespace_strs)"
  by (auto simp: whitespace_strs_def whitespace_encodings_def str_of_bytes_def)

lemma trim_split:
  obtains before after where "set before \<subseteq> set whitespace_strs" "set after \<subseteq> set whitespace_strs"
    "s = concat before @ trim s @ concat after"
proof -
  let ?a = "trim_leading whitespace_strs s"
  obtain before where before: "set before \<subseteq> set whitespace_strs" "s = concat before @ ?a"
    using trim_leading_split [of whitespace_strs s] by auto
  obtain spaces where spaces: "set spaces \<subseteq> rev ` set whitespace_strs" "rev ?a = concat spaces @ rev (trim s)"
    using trim_leading_split [of "map rev whitespace_strs" "rev ?a"] by (auto simp: trim_def)
  have "?a = trim s @ concat (map rev (rev spaces))"
    using arg_cong [OF spaces(2), of rev] by (simp add: rev_concat rev_map)
  moreover have "set (map rev (rev spaces)) \<subseteq> set whitespace_strs" using spaces(1) by auto
  ultimately show thesis using that before by metis
qed

lemma no_space_prefix_prefix: "no_space_prefix ws s \<Longrightarrow> prefix t s \<Longrightarrow> no_space_prefix ws t"
  by (auto simp: no_space_prefix_def list_all_iff dest: prefix_order.trans)

lemma trim_leading_suffix: "suffix (trim_leading ws s) s"
  using trim_leading_split [of ws s] by (metis suffix_def)

lemma trim_trim [simp]: "trim (trim s) = trim s"
proof -
  let ?a = "trim_leading whitespace_strs s"
  have "suffix (rev (trim s)) (rev ?a)"
    using trim_leading_suffix [of "map rev whitespace_strs" "rev ?a"] by (simp add: trim_def)
  then have "prefix (trim s) ?a" by (simp add: suffix_to_prefix)
  then have "no_space_prefix whitespace_strs (trim s)"
    using no_space_prefix_trim_leading [OF whitespace_strs_nonempty(1)] no_space_prefix_prefix by blast
  then have "trim_leading whitespace_strs (trim s) = trim s"
    by (rule trim_leading_stop) (rule whitespace_strs_nonempty)
  moreover have "no_space_prefix (map rev whitespace_strs) (rev (trim s))"
    using no_space_prefix_trim_leading [OF whitespace_strs_nonempty(2)] by (simp add: trim_def)
  then have "trim_leading (map rev whitespace_strs) (rev (trim s)) = rev (trim s)"
    by (rule trim_leading_stop) (rule whitespace_strs_nonempty)
  ultimately show ?thesis unfolding trim_def [of "trim s"] by simp
qed

text \<open>Visible ASCII at both ends leaves nothing to trim.\<close>

definition visible :: "char \<Rightarrow> bool" where
  "visible c \<longleftrightarrow> 32 < char_code c \<and> char_code c < 127"

lemma whitespace_not_visible: "w \<in> set whitespace_strs \<Longrightarrow> w \<noteq> [] \<and> \<not> visible (hd w) \<and> \<not> visible (last w)"
  by (auto simp: whitespace_strs_def whitespace_encodings_def str_of_bytes_def visible_def char_code_def)

lemma trim_visible:
  assumes "s \<noteq> []" "visible (hd s)" "visible (last s)"
  shows "trim s = s"
proof -
  have "no_space_prefix whitespace_strs s"
    using assms whitespace_not_visible by (fastforce simp: no_space_prefix_def list_all_iff prefix_def)
  then have "trim_leading whitespace_strs s = s"
    by (rule trim_leading_stop) (rule whitespace_strs_nonempty)
  moreover have "no_space_prefix (map rev whitespace_strs) (rev s)"
    using assms whitespace_not_visible
    by (fastforce simp: no_space_prefix_def list_all_iff simp flip: suffix_to_prefix simp: suffix_def)
  then have "trim_leading (map rev whitespace_strs) (rev s) = rev s"
    by (rule trim_leading_stop) (rule whitespace_strs_nonempty)
  ultimately show ?thesis by (simp add: trim_def)
qed

lemma visible_no_space: "visible c \<Longrightarrow> whitespace_len whitespace_strs (c # s) = 0"
proof -
  assume c: "visible c"
  have "\<not> prefix w (c # s)" if "w \<in> set whitespace_strs" for w
    using whitespace_not_visible [OF that] c by (cases w) auto
  then show ?thesis
    by (simp add: whitespace_len_zero whitespace_strs_nonempty no_space_prefix_def list_all_iff)
qed

lemma trim_start_visible: "visible c \<Longrightarrow> trim_start (c # s) = c # s"
  using visible_no_space [of c s] by (simp add: trim_start_def trim_leading.simps)

lemma visible_trim: "list_all visible s \<Longrightarrow> trim s = s"
proof (cases s)
  case (Cons c rest)
  then show "list_all visible s \<Longrightarrow> trim s = s"
    by (intro trim_visible) (auto simp: list_all_iff dest: last_in_set)
qed (simp add: trim_def trim_leading.simps)

section \<open>UTF-8\<close>

text \<open>The four shapes of an encoded character, which exclude each other by the first byte.\<close>

definition utf8_two :: "u8 \<Rightarrow> u8 \<Rightarrow> bool" where
  "utf8_two x c \<longleftrightarrow> 0xC2 \<le> x \<and> x \<le> 0xDF \<and> utf8_cont c"

definition utf8_three :: "u8 \<Rightarrow> u8 \<Rightarrow> u8 \<Rightarrow> bool" where
  "utf8_three x c d \<longleftrightarrow> 0xE0 \<le> x \<and> x \<le> 0xEF \<and> utf8_cont c \<and> utf8_cont d
     \<and> (x = 0xE0 \<longrightarrow> 0xA0 \<le> c) \<and> (x = 0xED \<longrightarrow> c \<le> 0x9F)"

definition utf8_four :: "u8 \<Rightarrow> u8 \<Rightarrow> u8 \<Rightarrow> u8 \<Rightarrow> bool" where
  "utf8_four x c d e \<longleftrightarrow> 0xF0 \<le> x \<and> x \<le> 0xF4 \<and> utf8_cont c \<and> utf8_cont d \<and> utf8_cont e
     \<and> (x = 0xF0 \<longrightarrow> 0x90 \<le> c) \<and> (x = 0xF4 \<longrightarrow> c \<le> 0x8F)"

inductive utf8 :: "bytes \<Rightarrow> bool" where
  utf8_nil: "utf8 []"
| utf8_ascii: "x < 0x80 \<Longrightarrow> utf8 r \<Longrightarrow> utf8 (x # r)"
| utf8_two: "utf8_two x c \<Longrightarrow> utf8 r \<Longrightarrow> utf8 (x # c # r)"
| utf8_three: "utf8_three x c d \<Longrightarrow> utf8 r \<Longrightarrow> utf8 (x # c # d # r)"
| utf8_four: "utf8_four x c d e \<Longrightarrow> utf8 r \<Longrightarrow> utf8 (x # c # d # e # r)"

lemmas utf8_intros = utf8.intros

inductive_cases utf8_ConsE: "utf8 (x # r)"

lemma utf8_lead:
  "x < 0x80 \<Longrightarrow> \<not> utf8_two x c \<and> \<not> utf8_three x c d \<and> \<not> utf8_four x c d e"
  "utf8_two x c \<Longrightarrow> \<not> x < 0x80 \<and> \<not> utf8_three x c' d \<and> \<not> utf8_four x c' d e"
  "utf8_three x c d \<Longrightarrow> \<not> x < 0x80 \<and> \<not> utf8_two x c' \<and> \<not> utf8_four x c' d' e"
  "utf8_four x c d e \<Longrightarrow> \<not> x < 0x80 \<and> \<not> utf8_two x c' \<and> \<not> utf8_three x c' d'"
  by (auto simp: utf8_two_def utf8_three_def utf8_four_def word_less_nat_alt word_le_nat_alt)

lemma utf8_conts:
  "utf8_two x c \<Longrightarrow> utf8_cont c" "utf8_three x c d \<Longrightarrow> utf8_cont c \<and> utf8_cont d"
  "utf8_four x c d e \<Longrightarrow> utf8_cont c \<and> utf8_cont d \<and> utf8_cont e"
  by (simp_all add: utf8_two_def utf8_three_def utf8_four_def)

lemma utf8_valid_two: "utf8_two x c \<Longrightarrow> utf8_valid (x # c # r) = utf8_valid r"
  using utf8_lead(2) [of x c] by (simp add: utf8_two_def)

lemma utf8_valid_three: "utf8_three x c d \<Longrightarrow> utf8_valid (x # c # d # r) = utf8_valid r"
proof -
  assume three: "utf8_three x c d"
  then have "\<not> x < 0x80" "\<not> (0xC2 \<le> x \<and> x \<le> 0xDF)"
    by (auto simp: utf8_three_def word_less_nat_alt word_le_nat_alt)
  with three show ?thesis
    by (subst utf8_valid.simps) (auto simp: utf8_three_def simp del: utf8_valid.simps)
qed

lemma utf8_valid_four: "utf8_four x c d e \<Longrightarrow> utf8_valid (x # c # d # e # r) = utf8_valid r"
proof -
  assume four: "utf8_four x c d e"
  then have "\<not> x < 0x80" "\<not> (0xC2 \<le> x \<and> x \<le> 0xDF)" "\<not> (0xE0 \<le> x \<and> x \<le> 0xEF)"
    by (auto simp: utf8_four_def word_less_nat_alt word_le_nat_alt)
  with four show ?thesis
    by (subst utf8_valid.simps) (auto simp: utf8_four_def simp del: utf8_valid.simps)
qed

lemma utf8_valid_cases:
  assumes "utf8_valid (x # bs)"
  obtains "x < 0x80" "utf8_valid bs"
  | c r where "bs = c # r" "utf8_two x c" "utf8_valid r"
  | c d r where "bs = c # d # r" "utf8_three x c d" "utf8_valid r"
  | c d e r where "bs = c # d # e # r" "utf8_four x c d e" "utf8_valid r"
proof -
  consider "x < 0x80" | "\<not> x < 0x80" "0xC2 \<le> x \<and> x \<le> 0xDF"
    | "\<not> x < 0x80" "\<not> (0xC2 \<le> x \<and> x \<le> 0xDF)" "0xE0 \<le> x \<and> x \<le> 0xEF"
    | "\<not> x < 0x80" "\<not> (0xC2 \<le> x \<and> x \<le> 0xDF)" "\<not> (0xE0 \<le> x \<and> x \<le> 0xEF)" "0xF0 \<le> x \<and> x \<le> 0xF4"
    | "\<not> x < 0x80" "\<not> (0xC2 \<le> x \<and> x \<le> 0xDF)" "\<not> (0xE0 \<le> x \<and> x \<le> 0xEF)" "\<not> (0xF0 \<le> x \<and> x \<le> 0xF4)"
    by blast
  then show thesis
  proof cases
    case 1
    with assms that(1) show ?thesis by simp
  next
    case 2
    with assms show ?thesis by (cases bs) (simp_all add: that(2) utf8_two_def)
  next
    case 3
    with assms show ?thesis
      by (cases bs; cases "tl bs") (simp_all add: that(3) [of "hd bs" "hd (tl bs)" "tl (tl bs)"] utf8_three_def)
  next
    case 4
    with assms show ?thesis
      by (cases bs; cases "tl bs"; cases "tl (tl bs)")
        (simp_all add: that(4) [of "hd bs" "hd (tl bs)" "hd (tl (tl bs))" "tl (tl (tl bs))"] utf8_four_def)
  next
    case 5
    with assms show ?thesis by simp
  qed
qed

lemma utf8_valid_imp: "utf8_valid bs \<Longrightarrow> utf8 bs"
proof (induction "length bs" arbitrary: bs rule: less_induct)
  case less
  show ?case
  proof (cases bs)
    case (Cons x r)
    with less.prems have "utf8_valid (x # r)" by simp
    then show ?thesis
      by (rule utf8_valid_cases) (use Cons in \<open>auto intro!: utf8.intros(2-) intro: less.hyps\<close>)
  qed (simp add: utf8_nil)
qed

lemma utf8_iff: "utf8_valid bs \<longleftrightarrow> utf8 bs"
proof
  assume "utf8 bs"
  then show "utf8_valid bs"
  proof induction
    case (utf8_ascii x r)
    then show ?case by simp
  qed (simp_all add: utf8_valid_two utf8_valid_three utf8_valid_four del: utf8_valid.simps(2))
qed (rule utf8_valid_imp)

lemma utf8_append: "utf8 a \<Longrightarrow> utf8 (a @ b) \<longleftrightarrow> utf8 b"
  by (induction rule: utf8.induct) (auto elim: utf8_ConsE intro: utf8_intros dest: utf8_lead)

lemma utf8_prefix: "utf8 s \<Longrightarrow> s = a @ b \<Longrightarrow> b = [] \<or> \<not> utf8_cont (hd b) \<Longrightarrow> utf8 a"
proof (induction arbitrary: a rule: utf8.induct)
qed (auto simp: Cons_eq_append_conv intro: utf8_intros dest: utf8_conts)

text \<open>A Rust \<open>String\<close> holds well-formed UTF-8.\<close>

abbreviation utf8_str :: "string \<Rightarrow> bool" where
  "utf8_str s \<equiv> utf8_valid (bytes_of_str s)"

lemma from_utf8_bytes [simp]: "utf8_str s \<Longrightarrow> from_utf8 (bytes_of_str s) = Some s"
  by (simp add: from_utf8_def)

lemma utf8_ascii_only: "list_all (\<lambda>b. b < 0x80) bs \<Longrightarrow> utf8 bs"
  by (induction bs) (auto intro: utf8_intros)

lemma ascii_not_cont: "b < 0x80 \<Longrightarrow> \<not> utf8_cont b"
  by (auto simp: utf8_cont_def word_less_nat_alt word_le_nat_alt)

lemma whitespace_chars: "list_all (\<lambda>w. w \<noteq> [] \<and> utf8_valid w \<and> \<not> utf8_cont (hd w)) whitespace_encodings"
  by code_simp

lemma bytes_of_str_Nil [simp]: "bytes_of_str [] = []"
  by (simp add: bytes_of_str_def)

lemma bytes_of_str_append [simp]: "bytes_of_str (a @ b) = bytes_of_str a @ bytes_of_str b"
  by (simp add: bytes_of_str_def)

lemma whitespace_str:
  assumes "w \<in> set whitespace_strs"
  shows "bytes_of_str w \<noteq> []" "utf8 (bytes_of_str w)" "\<not> utf8_cont (hd (bytes_of_str w))"
  using assms whitespace_chars by (auto simp: whitespace_strs_def list_all_iff utf8_iff)

lemma whitespace_strs_utf8: "set ws \<subseteq> set whitespace_strs \<Longrightarrow> utf8 (bytes_of_str (concat ws))"
  by (induction ws) (auto simp: utf8_append whitespace_str utf8_nil)

lemma whitespace_strs_boundary:
  assumes "set ws \<subseteq> set whitespace_strs"
  shows "bytes_of_str (concat ws) = [] \<or> \<not> utf8_cont (hd (bytes_of_str (concat ws)))"
proof (cases ws)
  case (Cons w rest)
  with assms whitespace_str [of w] show ?thesis by (simp add: hd_append)
qed simp

lemma utf8_str_trim [simp]: "utf8_str s \<Longrightarrow> utf8_str (trim s)"
proof -
  assume valid: "utf8_str s"
  obtain before after where ws: "set before \<subseteq> set whitespace_strs" "set after \<subseteq> set whitespace_strs"
      and s: "s = concat before @ trim s @ concat after"
    by (rule trim_split)
  have "utf8 (bytes_of_str (concat before) @ bytes_of_str (trim s) @ bytes_of_str (concat after))"
    using valid by (subst (asm) s) (simp add: utf8_iff)
  then have "utf8 (bytes_of_str (trim s) @ bytes_of_str (concat after))"
    by (simp add: utf8_append whitespace_strs_utf8 [OF ws(1)])
  then show ?thesis
    using utf8_prefix whitespace_strs_boundary [OF ws(2)] by (auto simp: utf8_iff)
qed

lemma bracket_byte: "bracket c \<Longrightarrow> of_nat (of_char c) < (0x80 :: u8)"
  by (auto simp: bracket_def)

lemma brackets_utf8:
  assumes "\<And>c. c \<in> set s \<Longrightarrow> bracket c"
  shows "utf8 (bytes_of_str s)" "bytes_of_str s = [] \<or> \<not> utf8_cont (hd (bytes_of_str s))"
  using assms
  by (auto simp: bytes_of_str_def list_all_iff bracket_byte hd_map intro!: utf8_ascii_only ascii_not_cont)

lemma trim_brackets_split:
  obtains a b where "s = a @ trim_brackets s @ b" "\<And>c. c \<in> set a \<Longrightarrow> bracket c" "\<And>c. c \<in> set b \<Longrightarrow> bracket c"
proof -
  let ?d = "dropWhile bracket s"
  have "rev ?d = takeWhile bracket (rev ?d) @ dropWhile bracket (rev ?d)" by simp
  then have "?d = trim_brackets s @ rev (takeWhile bracket (rev ?d))"
    by (metis rev_append rev_rev_ident trim_brackets_def)
  then have "s = takeWhile bracket s @ trim_brackets s @ rev (takeWhile bracket (rev ?d))"
    by (metis takeWhile_dropWhile_id)
  then show thesis
    by (rule that) (auto dest: set_takeWhileD)
qed

lemma utf8_str_trim_brackets [simp]: "utf8_str s \<Longrightarrow> utf8_str (trim_brackets s)"
proof -
  assume valid: "utf8_str s"
  obtain a b where s: "s = a @ trim_brackets s @ b"
      and ab: "\<And>c. c \<in> set a \<Longrightarrow> bracket c" "\<And>c. c \<in> set b \<Longrightarrow> bracket c"
    by (rule trim_brackets_split) blast
  have "utf8 (bytes_of_str a @ bytes_of_str (trim_brackets s) @ bytes_of_str b)"
    using valid by (subst (asm) s) (simp add: utf8_iff)
  then have "utf8 (bytes_of_str (trim_brackets s) @ bytes_of_str b)"
    by (simp add: utf8_append brackets_utf8 [OF ab(1)])
  then show ?thesis
    using utf8_prefix brackets_utf8(2) [OF ab(2)] by (auto simp: utf8_iff)
qed

end
