(* ===== verification/Keli_Protocol.thy ===== *)
theory Keli_Protocol
  imports Keli_Text_Facts
begin

text \<open>
  The outbound profiles of \<open>keli-protocol\<close>: protocols, transports, security, the credential formats and
  \<open>OutboundProfile::validate\<close>, with what an accepted profile guarantees. The UUID parser of the request
  encoders is here as well, because acceptance of a UUID credential is a promise to it.
\<close>

section \<open>Profiles\<close>

datatype proxy_protocol =
  Trojan | Vmess | Vless | Naive | Mieru | Hy2 | Shadowsocks | AnyTls | Tuic | Socks | Http

datatype transport_kind =
    TransportTcp
  | WebSocket string "string option"
  | HttpUpgrade string "string option"
  | Http2 string "string option"
  | Grpc "string option"
  | Quic "string option" "string option" "string option"

datatype security_kind = SecurityNone | SecurityTls "string option" bool

record endpoint =
  ep_host :: string
  ep_port :: u16

definition endpoint_new :: "string \<Rightarrow> u16 \<Rightarrow> endpoint" where
  "endpoint_new host port = \<lparr>ep_host = host, ep_port = port\<rparr>"

record outbound_profile =
  pf_tag :: string
  pf_protocol :: proxy_protocol
  pf_endpoint :: endpoint
  pf_transport :: transport_kind
  pf_security :: security_kind
  pf_credential :: string
  pf_cipher :: "string option"
  pf_flow :: "string option"

datatype protocol_validation_error =
    MissingTag
  | MissingServer
  | MissingCredential proxy_protocol
  | MissingTls
  | InvalidUuid
  | InvalidVmessTransport
  | InvalidNaiveCredential
  | InvalidNaiveTransport
  | InvalidMieruCredential
  | InvalidMieruTransport
  | InvalidWebSocketPath
  | InvalidHttpUpgradePath
  | InvalidHttp2Path
  | InvalidHy2Transport
  | InvalidTuicCredential
  | InvalidTuicTransport
  | MissingShadowsocksCipher
  | InvalidShadowsocksCipher
  | InvalidShadowsocksTransport
  | InvalidAnyTlsTransport
  | InvalidSocksTransport
  | InvalidHttpTransport

fun show_proxy_protocol :: "proxy_protocol \<Rightarrow> string" where
  "show_proxy_protocol Trojan = ''Trojan''"
| "show_proxy_protocol Vmess = ''Vmess''"
| "show_proxy_protocol Vless = ''Vless''"
| "show_proxy_protocol Naive = ''Naive''"
| "show_proxy_protocol Mieru = ''Mieru''"
| "show_proxy_protocol Hy2 = ''Hy2''"
| "show_proxy_protocol Shadowsocks = ''Shadowsocks''"
| "show_proxy_protocol AnyTls = ''AnyTls''"
| "show_proxy_protocol Tuic = ''Tuic''"
| "show_proxy_protocol Socks = ''Socks''"
| "show_proxy_protocol Http = ''Http''"

definition quoted_slash :: string where
  "quoted_slash = [CHR 0x27, CHR ''/'', CHR 0x27]"

fun show_validation_error :: "protocol_validation_error \<Rightarrow> string" where
  "show_validation_error MissingTag = ''outbound tag is empty''"
| "show_validation_error MissingServer = ''server host is empty''"
| "show_validation_error (MissingCredential p) = show_proxy_protocol p @ '' credential is empty''"
| "show_validation_error MissingTls = ''TLS is required for this profile''"
| "show_validation_error InvalidUuid = ''proxy credential must be a UUID''"
| "show_validation_error InvalidVmessTransport =
     ''VMess supports TCP/WS/HTTPUpgrade/gRPC/H2/QUIC with optional TLS''"
| "show_validation_error InvalidNaiveCredential =
     ''Naive credential must be formatted as username:password''"
| "show_validation_error InvalidNaiveTransport = ''Naive requires TCP or QUIC transport with TLS''"
| "show_validation_error InvalidMieruCredential =
     ''Mieru credential must be formatted as username:password''"
| "show_validation_error InvalidMieruTransport = ''Mieru currently supports TCP transport without TLS''"
| "show_validation_error InvalidWebSocketPath = ''WebSocket path must start with '' @ quoted_slash"
| "show_validation_error InvalidHttpUpgradePath = ''HTTPUpgrade path must start with '' @ quoted_slash"
| "show_validation_error InvalidHttp2Path = ''HTTP/2 path must start with '' @ quoted_slash"
| "show_validation_error InvalidHy2Transport = ''HY2 requires QUIC transport with TLS''"
| "show_validation_error InvalidTuicCredential = ''TUIC credential must be formatted as uuid:password''"
| "show_validation_error InvalidTuicTransport = ''TUIC requires QUIC transport with TLS''"
| "show_validation_error MissingShadowsocksCipher = ''Shadowsocks cipher is required''"
| "show_validation_error InvalidShadowsocksCipher = ''Shadowsocks cipher is unsupported''"
| "show_validation_error InvalidShadowsocksTransport =
     ''Shadowsocks requires TCP transport without TLS; UDP relay is supported with AEAD ciphers''"
| "show_validation_error InvalidAnyTlsTransport = ''AnyTLS requires TCP transport with TLS''"
| "show_validation_error InvalidSocksTransport = ''SOCKS outbound requires TCP transport without TLS''"
| "show_validation_error InvalidHttpTransport = ''HTTP outbound requires TCP transport without TLS''"

section \<open>Credentials\<close>

definition uuid_char_ok :: "nat \<Rightarrow> char \<Rightarrow> bool" where
  "uuid_char_ok i c \<longleftrightarrow>
     (if i = 8 \<or> i = 13 \<or> i = 18 \<or> i = 23 then c = CHR ''-'' else is_ascii_hexdigit c)"

definition looks_like_uuid :: "string \<Rightarrow> bool" where
  "looks_like_uuid value \<longleftrightarrow>
     length value = 36 \<and> list_all (\<lambda>(i, c). uuid_char_ok i c) (List.enumerate 0 value)"

definition is_tuic_credential :: "string \<Rightarrow> bool" where
  "is_tuic_credential value = (case split_once CHR '':'' value of
      None \<Rightarrow> False
    | Some (uuid, password) \<Rightarrow> looks_like_uuid (trim uuid) \<and> trim password \<noteq> [])"

definition is_user_password_credential :: "string \<Rightarrow> bool" where
  "is_user_password_credential value = (case split_once CHR '':'' value of
      None \<Rightarrow> False
    | Some (username, password) \<Rightarrow> trim username \<noteq> [] \<and> trim password \<noteq> [])"

definition is_supported_shadowsocks_aead_cipher :: "string \<Rightarrow> bool" where
  "is_supported_shadowsocks_aead_cipher cipher \<longleftrightarrow>
     to_ascii_lowercase cipher \<in> {''aes-128-gcm'', ''aes-256-gcm'', ''chacha20-ietf-poly1305''}"

section \<open>Validation\<close>

text \<open>
  \<open>OutboundProfile::validate\<close>: the common checks, then the arms of its match, one function for the
  arms of each protocol whose rules depend on more than one transport.
\<close>

definition check :: "bool \<Rightarrow> 'e \<Rightarrow> ('e, unit) outcome" where
  "check b e = (if b then Ok () else Err e)"

definition slash_path :: "string \<Rightarrow> bool" where
  "slash_path path \<longleftrightarrow> starts_with path ''/''"

fun validate_trojan :: "transport_kind \<Rightarrow> security_kind \<Rightarrow> (protocol_validation_error, unit) outcome" where
  "validate_trojan (WebSocket path host) security = check (slash_path path) InvalidWebSocketPath"
| "validate_trojan (HttpUpgrade path host) security = check (slash_path path) InvalidHttpUpgradePath"
| "validate_trojan (Http2 path host) security = check (slash_path path) InvalidHttp2Path"
| "validate_trojan (Quic s k h) security = Ok ()"
| "validate_trojan (Grpc service) security = Ok ()"
| "validate_trojan TransportTcp (SecurityTls sni skip_verify) = Ok ()"
| "validate_trojan TransportTcp SecurityNone = Err MissingTls"

fun validate_vmess :: "string \<Rightarrow> transport_kind \<Rightarrow> (protocol_validation_error, unit) outcome" where
  "validate_vmess credential transport =
     (if \<not> looks_like_uuid credential then Err InvalidUuid
      else case transport of
          TransportTcp \<Rightarrow> Ok ()
        | WebSocket path host \<Rightarrow> check (slash_path path) InvalidWebSocketPath
        | HttpUpgrade path host \<Rightarrow> check (slash_path path) InvalidHttpUpgradePath
        | Http2 path host \<Rightarrow> check (slash_path path) InvalidHttp2Path
        | Quic s k h \<Rightarrow> Ok ()
        | Grpc service \<Rightarrow> Ok ())"

fun validate_vless :: "string \<Rightarrow> transport_kind \<Rightarrow> (protocol_validation_error, unit) outcome" where
  "validate_vless credential transport =
     (if \<not> looks_like_uuid credential then Err InvalidUuid
      else case transport of
          HttpUpgrade path host \<Rightarrow> check (slash_path path) InvalidHttpUpgradePath
        | Http2 path host \<Rightarrow> check (slash_path path) InvalidHttp2Path
        | _ \<Rightarrow> Ok ())"

fun validate_naive :: "string \<Rightarrow> transport_kind \<Rightarrow> security_kind
    \<Rightarrow> (protocol_validation_error, unit) outcome" where
  "validate_naive credential transport security =
     (if \<not> is_user_password_credential credential then Err InvalidNaiveCredential
      else case (transport, security) of
          (TransportTcp, SecurityTls sni skip_verify) \<Rightarrow> Ok ()
        | (Quic s k h, SecurityTls sni skip_verify) \<Rightarrow> Ok ()
        | (_, SecurityNone) \<Rightarrow> Err MissingTls
        | (_, _) \<Rightarrow> Err InvalidNaiveTransport)"

fun validate_shadowsocks :: "string option \<Rightarrow> transport_kind \<Rightarrow> security_kind
    \<Rightarrow> (protocol_validation_error, unit) outcome" where
  "validate_shadowsocks cipher TransportTcp SecurityNone =
     (case map_option trim cipher of
        Some c \<Rightarrow> if c = [] then Err MissingShadowsocksCipher
          else check (is_supported_shadowsocks_aead_cipher c) InvalidShadowsocksCipher
      | None \<Rightarrow> Err MissingShadowsocksCipher)"
| "validate_shadowsocks cipher transport security = Err InvalidShadowsocksTransport"

declare validate_vmess.simps [simp del] validate_vless.simps [simp del] validate_naive.simps [simp del]
  validate_shadowsocks.simps [simp del]

definition validate_match :: "proxy_protocol \<Rightarrow> transport_kind \<Rightarrow> security_kind \<Rightarrow> string \<Rightarrow> string option
    \<Rightarrow> (protocol_validation_error, unit) outcome" where
  "validate_match protocol transport security credential cipher = (case protocol of
      Trojan \<Rightarrow> validate_trojan transport security
    | Vmess \<Rightarrow> validate_vmess credential transport
    | Vless \<Rightarrow> validate_vless credential transport
    | Naive \<Rightarrow> validate_naive credential transport security
    | Mieru \<Rightarrow>
        if \<not> is_user_password_credential credential then Err InvalidMieruCredential
        else (case (transport, security) of
            (TransportTcp, SecurityNone) \<Rightarrow> Ok ()
          | _ \<Rightarrow> Err InvalidMieruTransport)
    | Hy2 \<Rightarrow> (case (transport, security) of
          (Quic s k h, SecurityTls sni skip_verify) \<Rightarrow> Ok ()
        | _ \<Rightarrow> Err InvalidHy2Transport)
    | Tuic \<Rightarrow> (case (transport, security) of
          (Quic s k h, SecurityTls sni skip_verify) \<Rightarrow>
            check (is_tuic_credential credential) InvalidTuicCredential
        | _ \<Rightarrow> Err InvalidTuicTransport)
    | Shadowsocks \<Rightarrow> validate_shadowsocks cipher transport security
    | AnyTls \<Rightarrow> (case (transport, security) of
          (TransportTcp, SecurityTls sni skip_verify) \<Rightarrow> Ok ()
        | (_, SecurityNone) \<Rightarrow> Err MissingTls
        | _ \<Rightarrow> Err InvalidAnyTlsTransport)
    | Socks \<Rightarrow> (case (transport, security) of
          (TransportTcp, SecurityNone) \<Rightarrow> Ok ()
        | _ \<Rightarrow> Err InvalidSocksTransport)
    | Http \<Rightarrow> (case (transport, security) of
          (TransportTcp, SecurityNone) \<Rightarrow> Ok ()
        | _ \<Rightarrow> Err InvalidHttpTransport))"

definition validate :: "outbound_profile \<Rightarrow> (protocol_validation_error, unit) outcome" where
  "validate p =
     (if trim (pf_tag p) = [] then Err MissingTag
      else if trim (ep_host (pf_endpoint p)) = [] then Err MissingServer
      else if trim (pf_credential p) = [] \<and> pf_protocol p \<noteq> Socks \<and> pf_protocol p \<noteq> Http
        then Err (MissingCredential (pf_protocol p))
      else validate_match (pf_protocol p) (pf_transport p) (pf_security p) (pf_credential p) (pf_cipher p))"

section \<open>UUID bytes\<close>

datatype protocol_encoding_error =
    EncInvalidUuid
  | EncInvalidPassword
  | EncInvalidTargetHost
  | EncFlowTooLong
  | EncPacketTooLong

definition hex_nibble :: "u8 \<Rightarrow> (protocol_encoding_error, u8) outcome" where
  "hex_nibble byte =
     (if 0x30 \<le> byte \<and> byte \<le> 0x39 then Ok (byte - 0x30)
      else if 0x61 \<le> byte \<and> byte \<le> 0x66 then Ok (byte - 0x61 + 10)
      else if 0x41 \<le> byte \<and> byte \<le> 0x46 then Ok (byte - 0x41 + 10)
      else Err EncInvalidUuid)"

fun fill_uuid :: "nat \<Rightarrow> bytes \<Rightarrow> bytes \<Rightarrow> (protocol_encoding_error, bytes) outcome" where
  "fill_uuid i (a # b # chunks) output =
     obind (hex_nibble a) (\<lambda>hi. obind (hex_nibble b) (\<lambda>lo.
     obind (set_index i (push_bit 4 hi OR lo) output) (fill_uuid (i + 1) chunks)))"
| "fill_uuid i _ output = Ok output"

definition parse_uuid_bytes :: "string \<Rightarrow> (protocol_encoding_error, bytes) outcome" where
  "parse_uuid_bytes value =
     (if \<not> looks_like_uuid value then Err EncInvalidUuid
      else fill_uuid 0 (filter (\<lambda>b. b \<noteq> 0x2D) (bytes_of_str value)) (replicate 16 0))"

definition lower_hex_digits :: bytes where
  "lower_hex_digits = bytes_of_str ''0123456789abcdef''"

definition push_lower_hex :: "u8 \<Rightarrow> bytes" where
  "push_lower_hex byte =
     [lower_hex_digits ! unat (drop_bit 4 byte), lower_hex_digits ! unat (byte AND 0x0F)]"

section \<open>A UUID credential has sixteen bytes\<close>

definition lower_byte :: "u8 \<Rightarrow> u8" where
  "lower_byte b = of_nat (of_char (ascii_lower (char_of (unat b))))"

definition hex_byte :: "u8 \<Rightarrow> bool" where
  "hex_byte b \<longleftrightarrow> is_ascii_hexdigit (char_of (unat b))"

definition hex_bytes :: bytes where
  "hex_bytes = bytes_of_str ''0123456789abcdefABCDEF''"

lemma hex_byte_cases: "hex_byte b \<Longrightarrow> b \<in> set hex_bytes"
proof -
  assume "hex_byte b"
  then have "unat b \<in> set [48..<58] \<union> set [97..<103] \<union> set [65..<71]"
    by (simp add: hex_byte_def is_ascii_hexdigit_def to_digit_def char_code_def Let_def split: if_splits;
      presburger)
  then have "unat b \<in> unat ` set hex_bytes"
    by (simp add: hex_bytes_def bytes_of_str_def upt_rec; argo)
  then show ?thesis by (metis imageE word_unat_eq_iff)
qed

lemma hex_bytes_nibbles: "list_all (\<lambda>b. case hex_nibble b of
    Ok n \<Rightarrow> n < 16 \<and> lower_hex_digits ! unat n = lower_byte b | _ \<Rightarrow> False) hex_bytes"
  by code_simp

lemma hex_byte_nibble:
  assumes "hex_byte b"
  obtains n where "hex_nibble b = Ok n" "n < 16" "lower_hex_digits ! unat n = lower_byte b"
proof -
  have "case hex_nibble b of Ok n \<Rightarrow> n < 16 \<and> lower_hex_digits ! unat n = lower_byte b | _ \<Rightarrow> False"
    using hex_bytes_nibbles hex_byte_cases [OF assms] unfolding list_all_iff by (rule bspec)
  with that show thesis by (auto split: outcome.splits)
qed

lemma nibble_bits: "(n :: u8) < 16 \<Longrightarrow> bit n k \<Longrightarrow> k < 4"
proof -
  assume "n < 16"
  then have "unat n < 16" by (simp add: word_less_nat_alt)
  then have "take_bit 4 n = n" by (simp add: take_bit_eq_mod word_arith_nat_mod)
  moreover assume "bit n k"
  ultimately show ?thesis by (metis bit_take_bit_iff)
qed

lemma nibble_facts:
  assumes "(hi :: u8) < 16" "(lo :: u8) < 16"
  shows "drop_bit 4 (push_bit 4 hi OR lo) = hi" "(push_bit 4 hi OR lo) AND 0x0F = lo"
proof -
  show "drop_bit 4 (push_bit 4 hi OR lo) = hi"
    by (rule bit_word_eqI) (auto simp: bit_simps dest: nibble_bits [OF assms(1)] nibble_bits [OF assms(2)])
  have mask: "(0x0F :: u8) = mask 4" by (simp add: mask_eq_exp_minus_1)
  show "(push_bit 4 hi OR lo) AND 0x0F = lo"
    unfolding mask by (rule bit_word_eqI) (auto simp: bit_simps dest: nibble_bits [OF assms(2)])
qed

lemma push_lower_hex_nibbles:
  assumes "hex_nibble a = Ok hi" "hi < 16" "lower_hex_digits ! unat hi = lower_byte a"
    and "hex_nibble b = Ok lo" "lo < 16" "lower_hex_digits ! unat lo = lower_byte b"
  shows "push_lower_hex (push_bit 4 hi OR lo) = [lower_byte a, lower_byte b]"
  using nibble_facts [of hi lo] assms by (simp add: push_lower_hex_def)

lemma fill_uuid_ok:
  assumes "length chunks = 2 * n" "list_all hex_byte chunks" "i + n = length buf"
  shows "\<exists>bs. fill_uuid i chunks buf = Ok (take i buf @ bs) \<and> length bs = n
    \<and> concat (map push_lower_hex bs) = map lower_byte chunks"
  using assms
proof (induction n arbitrary: i chunks buf)
  case 0
  then show ?case by simp
next
  case (Suc n)
  then obtain a b rest where chunks: "chunks = a # b # rest" "length rest = 2 * n"
    by (auto simp: length_Suc_conv eval_nat_numeral)
  from Suc.prems chunks have hex: "hex_byte a" "hex_byte b" "list_all hex_byte rest" by simp_all
  obtain hi where hi: "hex_nibble a = Ok hi" "hi < 16" "lower_hex_digits ! unat hi = lower_byte a"
    using hex(1) by (rule hex_byte_nibble)
  obtain lo where lo: "hex_nibble b = Ok lo" "lo < 16" "lower_hex_digits ! unat lo = lower_byte b"
    using hex(2) by (rule hex_byte_nibble)
  let ?v = "push_bit 4 hi OR lo"
  have i: "i < length buf" using Suc.prems by simp
  obtain bs where bs: "fill_uuid (i + 1) rest (buf[i := ?v]) = Ok (take (i + 1) (buf[i := ?v]) @ bs)"
      "length bs = n" "concat (map push_lower_hex bs) = map lower_byte rest"
    using Suc.IH [of rest "i + 1" "buf[i := ?v]"] chunks hex Suc.prems by auto
  have "take (i + 1) (buf[i := ?v]) = take i buf @ [?v]"
    using i by (simp add: take_Suc_conv_app_nth)
  with chunks hi lo bs i have "fill_uuid i chunks buf = Ok (take i buf @ ?v # bs)"
    by (simp add: set_index_def)
  moreover have "concat (map push_lower_hex (?v # bs)) = map lower_byte chunks"
    using push_lower_hex_nibbles [OF hi lo] bs chunks by simp
  ultimately show ?case using bs by (intro exI [of _ "?v # bs"]) simp
qed

lemma enumerate_upt: "List.enumerate k xs = map (\<lambda>i. (k + i, xs ! i)) [0..<length xs]"
  by (rule nth_equalityI) (simp_all add: nth_enumerate_eq)

lemma uuid_chars:
  assumes "looks_like_uuid value" and "i < 36"
  shows "uuid_char_ok i (value ! i)" "length value = 36"
  using assms by (auto simp: looks_like_uuid_def enumerate_upt list_all_iff)

lemma drop_piece:
  "k + m < length xs \<Longrightarrow> drop k xs = take m (drop k xs) @ xs ! (k + m) # drop (Suc (k + m)) xs"
  using id_take_nth_drop [of m "drop k xs"] by (simp add: add.commute)

definition plain_hex :: "string \<Rightarrow> bool" where
  "plain_hex s \<longleftrightarrow> list_all is_ascii_hexdigit s"

lemma uuid_piece:
  assumes "looks_like_uuid value" and "k + m \<le> 36"
    and "8 \<notin> {k..<k + m}" "13 \<notin> {k..<k + m}" "18 \<notin> {k..<k + m}" "23 \<notin> {k..<k + m}"
  shows "plain_hex (take m (drop k value))"
  unfolding plain_hex_def list_all_length
proof (intro allI impI)
  fix i assume i: "i < length (take m (drop k value))"
  with assms(2-) have "k + i < 36" "k + i \<noteq> 8" "k + i \<noteq> 13" "k + i \<noteq> 18" "k + i \<noteq> 23" by auto
  with uuid_chars [OF assms(1), of "k + i"] i show "is_ascii_hexdigit (take m (drop k value) ! i)"
    by (simp add: uuid_char_ok_def)
qed

lemma uuid_pieces:
  assumes "looks_like_uuid value"
  shows "value = take 8 value @ CHR ''-'' # take 4 (drop 9 value) @ CHR ''-'' # take 4 (drop 14 value)
    @ CHR ''-'' # take 4 (drop 19 value) @ CHR ''-'' # drop 24 value"
proof -
  note uc = uuid_chars [OF assms]
  have dash: "value ! 8 = CHR ''-''" "value ! 13 = CHR ''-''" "value ! 18 = CHR ''-''" "value ! 23 = CHR ''-''"
    using uc [of 8] uc [of 13] uc [of 18] uc [of 23] by (simp_all add: uuid_char_ok_def)
  have len: "length value = 36" using uc [of 0] by simp
  show ?thesis
    using drop_piece [of 0 8 "value"] drop_piece [of 9 4 "value"] drop_piece [of 14 4 "value"]
      drop_piece [of 19 4 "value"] dash len by simp
qed

lemma plain_hex_bytes:
  assumes "plain_hex s"
  shows "filter (\<lambda>b. b \<noteq> 0x2D) (bytes_of_str s) = bytes_of_str s" "list_all hex_byte (bytes_of_str s)"
proof -
  have hex: "hex_byte (of_nat (of_char c))" if "c \<in> set s" for c
    using assms that by (simp add: plain_hex_def list_all_iff hex_byte_def char_byte_char)
  have "\<not> hex_byte 0x2D" by code_simp
  with hex show "filter (\<lambda>b. b \<noteq> 0x2D) (bytes_of_str s) = bytes_of_str s"
    by (auto simp: bytes_of_str_def filter_id_conv) metis
  from hex show "list_all hex_byte (bytes_of_str s)"
    by (auto simp: bytes_of_str_def list_all_iff)
qed

lemma bytes_of_str_dash: "bytes_of_str (CHR ''-'' # s) = 0x2D # bytes_of_str s"
  by (simp add: bytes_of_str_def)

lemma uuid_split:
  assumes "looks_like_uuid value"
  shows "list_all hex_byte (filter (\<lambda>b. b \<noteq> 0x2D) (bytes_of_str value))
    \<and> length (filter (\<lambda>b. b \<noteq> 0x2D) (bytes_of_str value)) = 32"
proof -
  have len: "length value = 36" using uuid_chars [OF assms, of 0] by simp
  have plain: "plain_hex (take 8 value)" "plain_hex (take 4 (drop 9 value))" "plain_hex (take 4 (drop 14 value))"
      "plain_hex (take 4 (drop 19 value))" "plain_hex (drop 24 value)"
    using uuid_piece [OF assms, of 0 8] uuid_piece [OF assms, of 9 4] uuid_piece [OF assms, of 14 4]
      uuid_piece [OF assms, of 19 4] uuid_piece [OF assms, of 24 12] len by simp_all
  from len show ?thesis
    by (subst (1 2) uuid_pieces [OF assms])
      (simp add: bytes_of_str_dash plain_hex_bytes [OF plain(1)] plain_hex_bytes [OF plain(2)]
        plain_hex_bytes [OF plain(3)] plain_hex_bytes [OF plain(4)] plain_hex_bytes [OF plain(5)])
qed

lemma parse_uuid_bytes_ok:
  assumes "looks_like_uuid value"
  obtains bs where "parse_uuid_bytes value = Ok bs" "length bs = 16"
    "concat (map push_lower_hex bs) = map lower_byte (filter (\<lambda>b. b \<noteq> 0x2D) (bytes_of_str value))"
  using fill_uuid_ok [of "filter (\<lambda>b. b \<noteq> 0x2D) (bytes_of_str value)" 16 0 "replicate 16 0"]
    uuid_split [OF assms] assms by (auto simp: parse_uuid_bytes_def)

section \<open>What an accepted profile guarantees\<close>

text \<open>
  The rules by requirement instead of by protocol: which transports and security a protocol allows,
  where a path is needed, and the form of the credential.
\<close>

fun transport_allowed :: "proxy_protocol \<Rightarrow> transport_kind \<Rightarrow> security_kind \<Rightarrow> bool" where
  "transport_allowed p t s \<longleftrightarrow>
     (let tls = (s \<noteq> SecurityNone); tcp = (t = TransportTcp); quic = (case t of Quic _ _ _ \<Rightarrow> True | _ \<Rightarrow> False)
      in case p of
          Trojan \<Rightarrow> tcp \<longrightarrow> tls
        | Vmess \<Rightarrow> True | Vless \<Rightarrow> True
        | Naive \<Rightarrow> (tcp \<or> quic) \<and> tls
        | Hy2 \<Rightarrow> quic \<and> tls | Tuic \<Rightarrow> quic \<and> tls
        | AnyTls \<Rightarrow> tcp \<and> tls
        | Mieru \<Rightarrow> tcp \<and> \<not> tls | Shadowsocks \<Rightarrow> tcp \<and> \<not> tls | Socks \<Rightarrow> tcp \<and> \<not> tls | Http \<Rightarrow> tcp \<and> \<not> tls)"

fun path_allowed :: "proxy_protocol \<Rightarrow> transport_kind \<Rightarrow> bool" where
  "path_allowed p (WebSocket path host) \<longleftrightarrow> p = Vless \<or> slash_path path"
| "path_allowed p (HttpUpgrade path host) \<longleftrightarrow> slash_path path"
| "path_allowed p (Http2 path host) \<longleftrightarrow> slash_path path"
| "path_allowed p t \<longleftrightarrow> True"

fun credential_allowed :: "proxy_protocol \<Rightarrow> string \<Rightarrow> string option \<Rightarrow> bool" where
  "credential_allowed p credential cipher \<longleftrightarrow>
     (case p of
        Vmess \<Rightarrow> looks_like_uuid credential
      | Vless \<Rightarrow> looks_like_uuid credential
      | Naive \<Rightarrow> is_user_password_credential credential
      | Mieru \<Rightarrow> is_user_password_credential credential
      | Tuic \<Rightarrow> is_tuic_credential credential
      | Shadowsocks \<Rightarrow> (\<exists>c. cipher = Some c \<and> trim c \<noteq> [] \<and> is_supported_shadowsocks_aead_cipher (trim c))
      | _ \<Rightarrow> True)"

lemma check_Ok_iff [simp]: "check b e = Ok u \<longleftrightarrow> b"
  by (simp add: check_def)

lemma check_neq_Panic [simp]: "check b e \<noteq> Panic"
  by (simp add: check_def)

lemma validate_vmess_Ok: "validate_vmess c t = Ok () \<longleftrightarrow> looks_like_uuid c \<and> path_allowed Vmess t"
  by (cases t) (simp_all add: validate_vmess.simps)

lemma validate_vless_Ok: "validate_vless c t = Ok () \<longleftrightarrow> looks_like_uuid c \<and> path_allowed Vless t"
  by (cases t) (simp_all add: validate_vless.simps)

lemma validate_trojan_Ok:
  "validate_trojan t s = Ok () \<longleftrightarrow> transport_allowed Trojan t s \<and> path_allowed Trojan t"
  by (cases "(t, s)" rule: validate_trojan.cases) simp_all

lemma validate_naive_Ok:
  "validate_naive c t s = Ok () \<longleftrightarrow> is_user_password_credential c \<and> transport_allowed Naive t s"
  by (cases t; cases s) (simp_all add: validate_naive.simps)

lemma validate_shadowsocks_Ok:
  "validate_shadowsocks c t s = Ok () \<longleftrightarrow> transport_allowed Shadowsocks t s
    \<and> (\<exists>x. c = Some x \<and> trim x \<noteq> [] \<and> is_supported_shadowsocks_aead_cipher (trim x))"
  by (cases t; cases s; cases c) (simp_all add: validate_shadowsocks.simps)

lemma validate_match_Ok:
  "validate_match p t s credential cipher = Ok () \<longleftrightarrow>
     transport_allowed p t s \<and> path_allowed p t \<and> credential_allowed p credential cipher"
proof (cases p)
  case Trojan
  then show ?thesis by (simp add: validate_match_def validate_trojan_Ok)
next
  case Vmess
  then show ?thesis by (auto simp add: validate_match_def validate_vmess_Ok)
next
  case Vless
  then show ?thesis by (auto simp add: validate_match_def validate_vless_Ok)
next
  case Naive
  then show ?thesis by (cases t; cases s; simp add: validate_match_def validate_naive_Ok)
next
  case Shadowsocks
  then show ?thesis by (cases t; cases s; simp add: validate_match_def validate_shadowsocks_Ok)
qed (cases t; cases s; simp add: validate_match_def)+

lemma validate_accepts:
  "validate p = Ok () \<longleftrightarrow>
     trim (pf_tag p) \<noteq> [] \<and> trim (ep_host (pf_endpoint p)) \<noteq> []
     \<and> (trim (pf_credential p) \<noteq> [] \<or> pf_protocol p \<in> {Socks, Http})
     \<and> transport_allowed (pf_protocol p) (pf_transport p) (pf_security p)
     \<and> path_allowed (pf_protocol p) (pf_transport p)
     \<and> credential_allowed (pf_protocol p) (pf_credential p) (pf_cipher p)"
  by (auto simp: validate_def validate_match_Ok simp del: transport_allowed.simps credential_allowed.simps)

end
