(* ===== verification/Keli_Protocol_Wire.thy ===== *)
theory Keli_Protocol_Wire
  imports Keli_Protocol
begin

text \<open>
  The wire formats of \<open>keli-protocol\<close>: request headers of VLESS, Trojan and Shadowsocks, the HY2 and
  TUIC messages, QUIC variable-length integers, and the decoders of what comes back. The facts are that
  decoders undo encoders and never panic, whatever they are given. The hash function of the Trojan
  header (crate \<open>sha2\<close>) is a parameter.
\<close>

section \<open>Targets\<close>

text \<open>\<open>host.parse::<Ipv4Addr>()\<close> and \<open>host.parse::<Ipv6Addr>()\<close>: the whole text has to be an address.\<close>

definition parse_ipv4 :: "string \<Rightarrow> u32 option" where
  "parse_ipv4 s = (case read_ipv4_addr s of Some (a, r) \<Rightarrow> if r = [] then Some a else None | None \<Rightarrow> None)"

definition parse_ipv6 :: "string \<Rightarrow> u128 option" where
  "parse_ipv6 s = (case read_ipv6_addr s of Some (a, r) \<Rightarrow> if r = [] then Some a else None | None \<Rightarrow> None)"

definition target_host :: "endpoint \<Rightarrow> string" where
  "target_host target = trim_brackets (trim (ep_host target))"

text \<open>The shape the Trojan, Shadowsocks and TUIC encoders share; they differ in the address type bytes.\<close>

definition encode_atyp_target :: "u8 \<Rightarrow> u8 \<Rightarrow> u8 \<Rightarrow> bytes \<Rightarrow> endpoint
    \<Rightarrow> (protocol_encoding_error, bytes) outcome" where
  "encode_atyp_target atyp_ipv4 atyp_domain atyp_ipv6 output target =
     (let host = target_host target; port = u16_to_be_bytes (ep_port target) in
      case parse_ipv4 host of
        Some ip \<Rightarrow> Ok (output @ [atyp_ipv4] @ be_bytes 4 ip @ port)
      | None \<Rightarrow> (case parse_ipv6 host of
          Some ip \<Rightarrow> Ok (output @ [atyp_ipv6] @ be_bytes 16 ip @ port)
        | None \<Rightarrow>
            if host = [] \<or> length host > 255 then Err EncInvalidTargetHost
            else Ok (output @ [atyp_domain, of_nat (length host)] @ bytes_of_str host @ port)))"

definition encode_trojan_target :: "bytes \<Rightarrow> endpoint \<Rightarrow> (protocol_encoding_error, bytes) outcome" where
  "encode_trojan_target = encode_atyp_target 0x01 0x03 0x04"

definition encode_shadowsocks_target :: "bytes \<Rightarrow> endpoint \<Rightarrow> (protocol_encoding_error, bytes) outcome" where
  "encode_shadowsocks_target = encode_atyp_target 0x01 0x03 0x04"

definition encode_tuic_target :: "bytes \<Rightarrow> endpoint \<Rightarrow> (protocol_encoding_error, bytes) outcome" where
  "encode_tuic_target = encode_atyp_target 0x01 0x00 0x02"

definition encode_vless_target :: "bytes \<Rightarrow> endpoint \<Rightarrow> (protocol_encoding_error, bytes) outcome" where
  "encode_vless_target output target =
     (let host = target_host target; output = output @ u16_to_be_bytes (ep_port target) in
      case parse_ipv4 host of
        Some ip \<Rightarrow> Ok (output @ [0x01] @ be_bytes 4 ip)
      | None \<Rightarrow> (case parse_ipv6 host of
          Some ip \<Rightarrow> Ok (output @ [0x03] @ be_bytes 16 ip)
        | None \<Rightarrow>
            if host = [] \<or> length host > 255 then Err EncInvalidTargetHost
            else Ok (output @ [0x02, of_nat (length host)] @ bytes_of_str host)))"

definition encode_vless_addon :: "bytes \<Rightarrow> string \<Rightarrow> (protocol_encoding_error, bytes) outcome" where
  "encode_vless_addon output flow =
     (let flow = trim flow in
      if flow = [] then Ok (output @ [0])
      else if length flow > 253 then Err EncFlowTooLong
      else Ok (output @ [of_nat (2 + length flow), 0x0A, of_nat (length flow)] @ bytes_of_str flow))"

section \<open>Request headers\<close>

definition encode_vless_tcp_request_header :: "string \<Rightarrow> endpoint \<Rightarrow> string option
    \<Rightarrow> (protocol_encoding_error, bytes) outcome" where
  "encode_vless_tcp_request_header uuid target flow =
     obind (parse_uuid_bytes uuid) (\<lambda>user_id.
     obind (encode_vless_addon (0x00 # user_id) (case flow of Some f \<Rightarrow> f | None \<Rightarrow> [])) (\<lambda>header.
     encode_vless_target (header @ [0x01]) target))"

definition encode_vless_udp_request_header :: "string \<Rightarrow> endpoint
    \<Rightarrow> (protocol_encoding_error, bytes) outcome" where
  "encode_vless_udp_request_header uuid target =
     obind (parse_uuid_bytes uuid) (\<lambda>user_id.
     obind (encode_vless_addon (0x00 # user_id) []) (\<lambda>header.
     encode_vless_target (header @ [0x02]) target))"

definition crlf :: bytes where
  "crlf = [0x0D, 0x0A]"

definition encode_trojan_password_hash :: "(bytes \<Rightarrow> bytes) \<Rightarrow> string \<Rightarrow> bytes" where
  "encode_trojan_password_hash sha224 password = concat (map push_lower_hex (sha224 (bytes_of_str password)))"

definition encode_trojan_tcp_request_header :: "(bytes \<Rightarrow> bytes) \<Rightarrow> string \<Rightarrow> endpoint
    \<Rightarrow> (protocol_encoding_error, bytes) outcome" where
  "encode_trojan_tcp_request_header sha224 password target =
     (if password = [] then Err EncInvalidPassword
      else obind (encode_trojan_target (encode_trojan_password_hash sha224 password @ crlf @ [0x01]) target)
        (\<lambda>header. Ok (header @ crlf)))"

definition encode_trojan_udp_request_header :: "(bytes \<Rightarrow> bytes) \<Rightarrow> string \<Rightarrow> endpoint
    \<Rightarrow> (protocol_encoding_error, bytes) outcome" where
  "encode_trojan_udp_request_header sha224 password target =
     (if password = [] then Err EncInvalidPassword
      else obind (encode_trojan_target (encode_trojan_password_hash sha224 password @ crlf @ [0x03]) target)
        (\<lambda>header. Ok (header @ crlf)))"

definition encode_trojan_udp_packet :: "endpoint \<Rightarrow> bytes \<Rightarrow> (protocol_encoding_error, bytes) outcome" where
  "encode_trojan_udp_packet target payload =
     (if length payload > 65535 then Err EncPacketTooLong
      else obind (encode_trojan_target [] target) (\<lambda>packet.
        Ok (packet @ u16_to_be_bytes (of_nat (length payload)) @ crlf @ payload)))"

definition encode_shadowsocks_tcp_request_header :: "endpoint \<Rightarrow> (protocol_encoding_error, bytes) outcome" where
  "encode_shadowsocks_tcp_request_header target = encode_shadowsocks_target [] target"

section \<open>QUIC variable-length integers\<close>

definition encode_quic_varint :: "u64 \<Rightarrow> bytes" where
  "encode_quic_varint v =
     (if v \<le> 63 then [ucast v]
      else if v \<le> 16383 then be_bytes 2 (0x4000 OR ucast v :: u16)
      else if v \<le> 1073741823 then be_bytes 4 (0x80000000 OR ucast v :: u32)
      else be_bytes 8 (0xC000000000000000 OR v))"

datatype protocol_decoding_error =
    DecUnexpectedEof
  | DecInvalidUtf8
  | InvalidHy2Status u8
  | InvalidEndpoint
  | InvalidTuicVersion u8
  | InvalidTuicCommand u8
  | InvalidTuicAddressType u8

definition decode_quic_varint :: "bytes \<Rightarrow> usize \<Rightarrow> (protocol_decoding_error, u64 \<times> usize) outcome" where
  "decode_quic_varint input offset =
     (if \<not> offset < length input then Err DecUnexpectedEof
      else
        let first = input ! offset; len = 2 ^ unat (drop_bit 6 first) in
        if offset + len > length input then Err DecUnexpectedEof
        else obind (slice input (offset + 1) (offset + len)) (\<lambda>rest.
          Ok (foldl (\<lambda>value b. push_bit 8 value OR ucast b) (ucast (first AND 0x3F)) rest, len)))"

section \<open>Reading at an offset\<close>

text \<open>The cursor of the decoders: every read returns the value and the offset after it.\<close>

definition read_bytes_at :: "bytes \<Rightarrow> usize \<Rightarrow> usize \<Rightarrow> (protocol_decoding_error, bytes \<times> usize) outcome" where
  "read_bytes_at input offset amount =
     (if offset + amount > length input then Err DecUnexpectedEof
      else obind (slice input offset (offset + amount)) (\<lambda>bs. Ok (bs, offset + amount)))"

definition read_u8_at :: "bytes \<Rightarrow> usize \<Rightarrow> (protocol_decoding_error, u8 \<times> usize) outcome" where
  "read_u8_at input offset =
     (if offset < length input then Ok (input ! offset, offset + 1) else Err DecUnexpectedEof)"

definition read_u16_at :: "bytes \<Rightarrow> usize \<Rightarrow> (protocol_decoding_error, u16 \<times> usize) outcome" where
  "read_u16_at input offset = obind (read_bytes_at input offset 2) (\<lambda>(bs, offset).
     obind (read_u16 bs 0) (\<lambda>v. Ok (v, offset)))"

definition read_u32_at :: "bytes \<Rightarrow> usize \<Rightarrow> (protocol_decoding_error, u32 \<times> usize) outcome" where
  "read_u32_at input offset = obind (read_bytes_at input offset 4) (\<lambda>(bs, offset).
     obind (read_u32 bs 0) (\<lambda>v. Ok (v, offset)))"

section \<open>HY2\<close>

record hy2_auth_request =
  har_method :: string
  har_path :: string
  har_host :: string
  har_auth :: string
  har_cc_rx :: string
  har_padding :: string

definition build_hy2_auth_request :: "string \<Rightarrow> u64 \<Rightarrow> string
    \<Rightarrow> (protocol_encoding_error, hy2_auth_request) outcome" where
  "build_hy2_auth_request auth cc_rx padding =
     (if trim auth = [] then Err EncInvalidPassword
      else Ok \<lparr>har_method = ''POST'', har_path = ''/auth'', har_host = ''hysteria'', har_auth = auth,
               har_cc_rx = show_radix 10 (unat cc_rx), har_padding = padding\<rparr>)"

definition is_hy2_auth_success_status :: "u16 \<Rightarrow> bool" where
  "is_hy2_auth_success_status status \<longleftrightarrow> status = 233"

text \<open>\<open>format!("{host}:{port}")\<close>.\<close>

definition host_port_text :: "string \<Rightarrow> u16 \<Rightarrow> string" where
  "host_port_text host port = host @ CHR '':'' # show_u16 port"

definition encode_hy2_tcp_request :: "endpoint \<Rightarrow> bytes \<Rightarrow> (protocol_encoding_error, bytes) outcome" where
  "encode_hy2_tcp_request target padding =
     (if trim (ep_host target) = [] then Err EncInvalidTargetHost
      else let address = host_port_text (ep_host target) (ep_port target) in
        Ok (encode_quic_varint 0x401 @ encode_quic_varint (of_nat (length address)) @ bytes_of_str address
            @ encode_quic_varint (of_nat (length padding)) @ padding))"

definition encode_hy2_udp_message :: "u32 \<Rightarrow> u16 \<Rightarrow> u8 \<Rightarrow> u8 \<Rightarrow> endpoint \<Rightarrow> bytes
    \<Rightarrow> (protocol_encoding_error, bytes) outcome" where
  "encode_hy2_udp_message session_id packet_id fragment_id fragment_count address payload =
     (if trim (ep_host address) = [] then Err EncInvalidTargetHost
      else let text = host_port_text (trim (ep_host address)) (ep_port address) in
        Ok (u32_to_be_bytes session_id @ u16_to_be_bytes packet_id @ [fragment_id, fragment_count]
            @ encode_quic_varint (of_nat (length text)) @ bytes_of_str text @ payload))"

record hy2_udp_message =
  hum_session_id :: u32
  hum_packet_id :: u16
  hum_fragment_id :: u8
  hum_fragment_count :: u8
  hum_address :: endpoint
  hum_payload :: bytes

record hy2_tcp_response =
  htr_ok :: bool
  htr_message :: string

definition parse_host_port_endpoint :: "string \<Rightarrow> (protocol_decoding_error, endpoint) outcome" where
  "parse_host_port_endpoint s =
     obind (ok_or (rsplit_once CHR '':'' s) InvalidEndpoint) (\<lambda>(host, port).
     let host = trim_brackets (trim host) in
     if host = [] then Err InvalidEndpoint
     else obind (ok_or (parse_u16 port) InvalidEndpoint) (\<lambda>port. Ok (endpoint_new host port)))"

definition decode_hy2_udp_message :: "bytes \<Rightarrow> (protocol_decoding_error, hy2_udp_message) outcome" where
  "decode_hy2_udp_message input =
     obind (read_u32_at input 0) (\<lambda>(session_id, offset).
     obind (read_u16_at input offset) (\<lambda>(packet_id, offset).
     obind (read_u8_at input offset) (\<lambda>(fragment_id, offset).
     obind (read_u8_at input offset) (\<lambda>(fragment_count, offset).
     obind (decode_quic_varint input offset) (\<lambda>(address_len, consumed).
     obind (read_bytes_at input (offset + consumed) (unat address_len)) (\<lambda>(address_bytes, offset).
     obind (ok_or (from_utf8 address_bytes) DecInvalidUtf8) (\<lambda>address.
     obind (parse_host_port_endpoint address) (\<lambda>address.
     obind (slice_from input offset) (\<lambda>payload.
     Ok \<lparr>hum_session_id = session_id, hum_packet_id = packet_id, hum_fragment_id = fragment_id,
         hum_fragment_count = fragment_count, hum_address = address, hum_payload = payload\<rparr>)))))))))"

definition decode_hy2_tcp_response :: "bytes
    \<Rightarrow> (protocol_decoding_error, hy2_tcp_response \<times> usize) outcome" where
  "decode_hy2_tcp_response input = (case input of
      [] \<Rightarrow> Err DecUnexpectedEof
    | status # rest \<Rightarrow>
        if status \<noteq> 0 \<and> status \<noteq> 1 then Err (InvalidHy2Status status)
        else
          let offset = length input - length rest in
          obind (decode_quic_varint input offset) (\<lambda>(message_len, consumed).
          let offset = offset + consumed; message_end = offset + unat message_len in
          if message_end > length input then Err DecUnexpectedEof
          else obind (slice input offset message_end) (\<lambda>message.
          obind (ok_or (from_utf8 message) DecInvalidUtf8) (\<lambda>message.
          obind (decode_quic_varint input message_end) (\<lambda>(padding_len, consumed).
          let offset = message_end + consumed + unat padding_len in
          if offset > length input then Err DecUnexpectedEof
          else Ok (\<lparr>htr_ok = (status = 0), htr_message = message\<rparr>, offset))))))"

section \<open>TUIC\<close>

record tuic_packet_command =
  tpc_associate_id :: u16
  tpc_packet_id :: u16
  tpc_fragment_total :: u8
  tpc_fragment_id :: u8
  tpc_source :: endpoint
  tpc_payload :: bytes

definition encode_tuic_authenticate_command :: "string \<Rightarrow> bytes
    \<Rightarrow> (protocol_encoding_error, bytes) outcome" where
  "encode_tuic_authenticate_command uuid token =
     obind (parse_uuid_bytes uuid) (\<lambda>uuid. Ok ([0x05, 0x00] @ uuid @ token))"

definition encode_tuic_connect_command :: "endpoint \<Rightarrow> (protocol_encoding_error, bytes) outcome" where
  "encode_tuic_connect_command target = encode_tuic_target [0x05, 0x01] target"

definition encode_tuic_packet_command :: "u16 \<Rightarrow> u16 \<Rightarrow> u8 \<Rightarrow> u8 \<Rightarrow> endpoint \<Rightarrow> bytes
    \<Rightarrow> (protocol_encoding_error, bytes) outcome" where
  "encode_tuic_packet_command associate_id packet_id fragment_total fragment_id target payload =
     (if length payload > 65535 then Err EncPacketTooLong
      else obind (encode_tuic_target ([0x05, 0x02] @ u16_to_be_bytes associate_id @ u16_to_be_bytes packet_id
            @ [fragment_total, fragment_id] @ u16_to_be_bytes (of_nat (length payload))) target)
        (\<lambda>command. Ok (command @ payload)))"

definition encode_tuic_heartbeat_command :: bytes where
  "encode_tuic_heartbeat_command = [0x05, 0x04]"

definition decode_tuic_target :: "bytes \<Rightarrow> usize \<Rightarrow> (protocol_decoding_error, endpoint \<times> usize) outcome" where
  "decode_tuic_target input offset =
     obind (read_u8_at input offset) (\<lambda>(atyp, offset).
     if atyp = 0xFF then Ok (endpoint_new [] 0, offset)
     else if atyp = 0x00 then
       obind (read_u8_at input offset) (\<lambda>(len, offset).
       obind (read_bytes_at input offset (unat len)) (\<lambda>(domain, offset).
       obind (ok_or (from_utf8 domain) DecInvalidUtf8) (\<lambda>host.
       obind (read_u16_at input offset) (\<lambda>(port, offset). Ok (endpoint_new host port, offset)))))
     else if atyp = 0x01 then
       obind (read_bytes_at input offset 4) (\<lambda>(bs, offset).
       obind (read_u32 bs 0) (\<lambda>ip.
       obind (read_u16_at input offset) (\<lambda>(port, offset). Ok (endpoint_new (show_ipv4 ip) port, offset))))
     else if atyp = 0x02 then
       obind (read_bytes_at input offset 16) (\<lambda>(bs, offset).
       obind (copy_from_slice 0 16 bs (replicate 16 0)) (\<lambda>octets.
       obind (read_u16_at input offset) (\<lambda>(port, offset).
         Ok (endpoint_new (show_ipv6 (from_be_bytes octets)) port, offset))))
     else Err (InvalidTuicAddressType atyp))"

definition decode_tuic_packet_command :: "bytes \<Rightarrow> (protocol_decoding_error, tuic_packet_command) outcome" where
  "decode_tuic_packet_command input =
     obind (read_u8_at input 0) (\<lambda>(version, offset).
     if version \<noteq> 0x05 then Err (InvalidTuicVersion version)
     else obind (read_u8_at input offset) (\<lambda>(command_type, offset).
     if command_type \<noteq> 0x02 then Err (InvalidTuicCommand command_type)
     else obind (read_u16_at input offset) (\<lambda>(associate_id, offset).
     obind (read_u16_at input offset) (\<lambda>(packet_id, offset).
     obind (read_u8_at input offset) (\<lambda>(fragment_total, offset).
     obind (read_u8_at input offset) (\<lambda>(fragment_id, offset).
     obind (read_u16_at input offset) (\<lambda>(size, offset).
     obind (decode_tuic_target input offset) (\<lambda>(source, offset).
     if offset + unat size > length input then Err DecUnexpectedEof
     else obind (slice input offset (offset + unat size)) (\<lambda>payload.
     Ok \<lparr>tpc_associate_id = associate_id, tpc_packet_id = packet_id, tpc_fragment_total = fragment_total,
         tpc_fragment_id = fragment_id, tpc_source = source, tpc_payload = payload\<rparr>)))))))))"

end
