(* ===== verification/Keli_Wire_Facts.thy ===== *)
theory Keli_Wire_Facts
  imports Keli_Protocol_Wire
begin

text \<open>
  The codecs of \<open>keli-protocol\<close>: round trips of QUIC integers, HY2 and TUIC datagrams, totality of the
  decoders, and that a credential the validation accepts is one the encoders can encode.
\<close>

section \<open>Samples\<close>

lemma parse_ipv4_no_digit: "to_digit 10 c = None \<Longrightarrow> parse_ipv4 (c # s) = None"
  by (simp add: parse_ipv4_def read_ipv4_addr_no_digit)

lemma parse_ipv6_no_digit: "to_digit 16 c = None \<Longrightarrow> c \<noteq> CHR '':'' \<Longrightarrow> parse_ipv6 (c # s) = None"
  by (auto simp: parse_ipv6_def read_ipv6_addr_def read_groups_no_digit split: list.splits)

definition sample_endpoint :: endpoint where
  "sample_endpoint = endpoint_new ''server.example'' 853"

lemma sample_target_host: "target_host sample_endpoint = ''server.example''"
  by (simp add: sample_endpoint_def target_host_def endpoint_new_def trim_visible visible_def char_code_def
      trim_brackets_def bracket_def)

lemma sample_utf8: "utf8_str (ep_host sample_endpoint)"
  by (simp add: sample_endpoint_def endpoint_new_def bytes_of_str_def)

lemma sample_not_ip: "parse_ipv4 ''server.example'' = None" "parse_ipv6 ''server.example'' = None"
  by (simp_all add: parse_ipv4_no_digit parse_ipv6_no_digit to_digit_def char_code_def)

definition sample_profile :: outbound_profile where
  "sample_profile = \<lparr>pf_tag = ''node'', pf_protocol = Vless, pf_endpoint = endpoint_new ''server.example'' 443,
     pf_transport = TransportTcp, pf_security = SecurityTls None False,
     pf_credential = ''12345678-90ab-cdef-1234-567890ABCDEF'', pf_cipher = None, pf_flow = Some ''xtls-rprx-vision''\<rparr>"

lemma sample_uuid: "looks_like_uuid ''12345678-90ab-cdef-1234-567890ABCDEF''"
  by (simp add: looks_like_uuid_def uuid_char_ok_def is_ascii_hexdigit_def to_digit_def char_code_def)

lemma sample_valid: "validate sample_profile = Ok ()"
  by (simp add: validate_accepts sample_profile_def sample_uuid trim_visible visible_def char_code_def endpoint_new_def)

section \<open>Reading at an offset\<close>

text \<open>\<open>rest_at input offset rest\<close>: the cursor is at the start of \<open>rest\<close>.\<close>

definition rest_at :: "bytes \<Rightarrow> usize \<Rightarrow> bytes \<Rightarrow> bool" where
  "rest_at input offset rest \<longleftrightarrow> offset \<le> length input \<and> drop offset input = rest"

lemma rest_at_zero: "rest_at input 0 input"
  by (simp add: rest_at_def)

lemma rest_at_length: "rest_at input offset rest \<Longrightarrow> offset + length rest = length input"
  by (auto simp: rest_at_def)

lemma rest_at_append: "rest_at input offset (x @ rest) \<Longrightarrow> rest_at input (offset + length x) rest"
proof -
  assume at: "rest_at input offset (x @ rest)"
  then have "drop (offset + length x) input = drop (length x) (x @ rest)"
    by (metis add.commute drop_drop rest_at_def)
  with rest_at_length [OF at] show ?thesis by (simp add: rest_at_def)
qed

lemma rest_at_Cons: "rest_at input offset (b # rest) \<Longrightarrow> rest_at input (offset + 1) rest"
  using rest_at_append [of input offset "[b]" rest] by simp

lemma read_bytes_at_rest:
  "rest_at input offset (x @ rest) \<Longrightarrow> read_bytes_at input offset (length x) = Ok (x, offset + length x)"
  using rest_at_length [of input offset "x @ rest"]
  by (simp add: read_bytes_at_def slice_def rest_at_def)

lemma read_u8_at_rest: "rest_at input offset (b # rest) \<Longrightarrow> read_u8_at input offset = Ok (b, offset + 1)"
  using rest_at_length [of input offset "b # rest"]
  by (simp add: read_u8_at_def rest_at_def) (metis nth_via_drop)

lemma read_u16_be [simp]: "read_u16 (be_bytes 2 w) 0 = Ok w"
  by (simp add: read_u16_def index_def be_bytes_u16 from_be_bytes_fields)

lemma read_u32_be [simp]: "read_u32 (be_bytes 4 w) 0 = Ok w"
  by (simp add: read_u32_def index_def be_bytes_u32 from_be_bytes_fields)

lemma read_u16_at_rest:
  "rest_at input offset (be_bytes 2 w @ rest) \<Longrightarrow> read_u16_at input offset = Ok (w, offset + 2)"
  using read_bytes_at_rest [of input offset "be_bytes 2 w" rest]
  by (simp add: read_u16_at_def)

lemma read_u32_at_rest:
  "rest_at input offset (be_bytes 4 w @ rest) \<Longrightarrow> read_u32_at input offset = Ok (w, offset + 4)"
  using read_bytes_at_rest [of input offset "be_bytes 4 w" rest]
  by (simp add: read_u32_at_def)

lemma rest_at_u16: "rest_at input offset (be_bytes 2 w @ rest) \<Longrightarrow> rest_at input (offset + 2) rest"
  using rest_at_append [of input offset "be_bytes 2 w" rest] by simp

lemma rest_at_u32: "rest_at input offset (be_bytes 4 w @ rest) \<Longrightarrow> rest_at input (offset + 4) rest"
  using rest_at_append [of input offset "be_bytes 4 w" rest] by simp

section \<open>QUIC integers\<close>

lemma nat_bit_le: "bit (n :: nat) k \<Longrightarrow> 2 ^ k \<le> n"
  by (metis bit_iff_odd div_less even_zero not_le)

lemma word_bit_bound: "unat v < 2 ^ m \<Longrightarrow> bit v k \<Longrightarrow> k < m"
proof -
  assume v: "unat v < 2 ^ m" and "bit v k"
  then have "bit (unat v) k" by (simp add: bit_unsigned_iff bit_imp_le_length)
  then have "(2 :: nat) ^ k \<le> unat v" by (rule nat_bit_le)
  with v have "(2 :: nat) ^ k < 2 ^ m" by (rule le_less_trans [rotated])
  then show ?thesis by (simp only: power_strict_increasing_iff)
qed

lemma varint_word:
  fixes v c :: u64
  assumes v: "unat v < 2 ^ (8 * k + 6)" and c: "unat c < 2 ^ 2" and k: "k \<le> 7"
  defines "w \<equiv> push_bit (8 * k + 6) c OR v"
  defines "first \<equiv> (ucast (drop_bit (8 * k) w) :: u8)"
  shows "drop_bit 6 first = ucast c"
    and "push_bit (8 * k) (ucast (first AND 0x3F)) OR take_bit (8 * k) w = v"
proof -
  have mask: "(0x3F :: u8) = mask 6" by (simp add: mask_eq_exp_minus_1)
  note bounds = word_bit_bound [OF v] word_bit_bound [OF c]
  show "drop_bit 6 first = ucast c"
    unfolding first_def w_def using k
    by (intro bit_word_eqI) (auto simp: bit_simps ac_simps dest: bounds)
  show "push_bit (8 * k) (ucast (first AND 0x3F)) OR take_bit (8 * k) w = v"
    unfolding first_def w_def mask using k
    by (intro bit_word_eqI) (auto simp: bit_simps ac_simps dest: bounds)
qed

lemma be_bytes_ucast: "8 * n \<le> LENGTH('b) \<Longrightarrow> be_bytes n (ucast w :: 'b::len word) = be_bytes n (w :: 'a::len word)"
proof (induction n)
  case (Suc n)
  have "ucast (drop_bit (8 * n) (ucast w :: 'b word)) = (ucast (drop_bit (8 * n) w) :: u8)"
    using Suc.prems by (intro bit_word_eqI) (auto simp: bit_simps)
  with Suc show ?case by simp
qed simp

lemma decode_varint_rest:
  fixes v c :: u64
  assumes at: "rest_at input offset (be_bytes (Suc k) (push_bit (8 * k + 6) c OR v) @ rest)"
    and v: "unat v < 2 ^ (8 * k + 6)" and c: "unat c < 2 ^ 2" and k: "k \<le> 7" "2 ^ unat c = Suc k"
  shows "decode_quic_varint input offset = Ok (v, Suc k)"
proof -
  let ?w = "push_bit (8 * k + 6) c OR v"
  let ?first = "ucast (drop_bit (8 * k) ?w) :: u8"
  have len: "offset + Suc k \<le> length input" using rest_at_length [OF at] by simp
  have drop: "drop offset input = ?first # be_bytes k ?w @ rest" using at by (simp add: rest_at_def)
  then have first: "input ! offset = ?first" by (metis nth_via_drop)
  have "drop (offset + 1) input = be_bytes k ?w @ rest"
    using drop by (metis Suc_eq_plus1 drop_Suc list.sel(3) tl_drop)
  then have slice: "slice input (offset + 1) (offset + Suc k) = (Ok (be_bytes k ?w) :: (protocol_decoding_error, bytes) outcome)"
    using len by (simp add: slice_def)
  have "unat (ucast c :: u8) = unat c"
    using c by (simp add: unsigned_ucast_eq take_bit_nat_eq_self)
  then have shift: "2 ^ unat (drop_bit 6 ?first) = Suc k"
    using varint_word(1) [OF v c k(1)] k(2) by simp
  have "foldl (\<lambda>value b. push_bit 8 value OR ucast b) (ucast (?first AND 0x3F)) (be_bytes k ?w) = v"
    using be_step_bytes [of "ucast (?first AND 0x3F)" k ?w] varint_word(2) [OF v c k(1)]
    by (simp add: be_step_def [abs_def])
  with first slice shift len show ?thesis
    by (simp add: decode_quic_varint_def Let_def)
qed

lemma encode_varint_words:
  obtains n k c where "encode_quic_varint v = be_bytes n (push_bit (8 * k + 6) c OR v)"
    "n = Suc k" "unat v < 2 ^ 62 \<Longrightarrow> unat v < 2 ^ (8 * k + 6)" "unat c < 2 ^ 2" "k \<le> 7" "2 ^ unat c = Suc k"
proof -
  consider "v \<le> 63" | "\<not> v \<le> 63" "v \<le> 16383" | "\<not> v \<le> 63" "\<not> v \<le> 16383" "v \<le> 1073741823"
    | "\<not> v \<le> 63" "\<not> v \<le> 16383" "\<not> v \<le> 1073741823" by blast
  then show thesis
  proof cases
    case 1
    then show ?thesis
      by (intro that [of 1 0 0]) (simp_all add: encode_quic_varint_def word_le_nat_alt)
  next
    case 2
    have "be_bytes 2 (0x4000 OR ucast v :: u16) = be_bytes 2 (push_bit 14 1 OR v)"
      using be_bytes_ucast [of 2 "push_bit 14 1 OR v", where 'b = 16] by (simp add: unsigned_or_eq)
    with 2 show ?thesis
      by (intro that [of 2 1 1]) (simp_all add: encode_quic_varint_def word_le_nat_alt)
  next
    case 3
    have "be_bytes 4 (0x80000000 OR ucast v :: u32) = be_bytes 4 (push_bit 30 2 OR v)"
      using be_bytes_ucast [of 4 "push_bit 30 2 OR v", where 'b = 32] by (simp add: unsigned_or_eq)
    with 3 show ?thesis
      by (intro that [of 4 3 2]) (simp_all add: encode_quic_varint_def word_le_nat_alt)
  next
    case 4
    then show ?thesis
      by (intro that [of 8 7 3]) (simp_all add: encode_quic_varint_def)
  qed
qed

text \<open>A value below \<open>2 ^ 62\<close> survives the encoding, at any place of a message.\<close>

lemma quic_varint_roundtrip:
  assumes "rest_at input offset (encode_quic_varint v @ rest)" and "unat v < 2 ^ 62"
  shows "decode_quic_varint input offset = Ok (v, length (encode_quic_varint v))"
  using encode_varint_words [of v] decode_varint_rest assms by (metis length_be_bytes)

section \<open>TUIC datagrams\<close>

text \<open>What a decoder finds in place of a target host: the canonical text of an address, or the name.\<close>

definition canonical_host :: "endpoint \<Rightarrow> string" where
  "canonical_host target = (case parse_ipv4 (target_host target) of
      Some ip \<Rightarrow> show_ipv4 ip
    | None \<Rightarrow> (case parse_ipv6 (target_host target) of Some ip \<Rightarrow> show_ipv6 ip | None \<Rightarrow> target_host target))"

lemma encode_atyp_target_prefix:
  assumes "encode_atyp_target a d x output target = Ok message"
  obtains enc where "encode_atyp_target a d x [] target = Ok enc" "message = output @ enc"
  using assms by (auto simp: encode_atyp_target_def Let_def split: option.splits if_splits)

lemma encode_atyp_target_cases:
  assumes "encode_atyp_target a d x [] target = Ok enc"
  obtains (v4) ip where "parse_ipv4 (target_host target) = Some ip"
      "enc = a # be_bytes 4 ip @ be_bytes 2 (ep_port target)"
  | (v6) ip where "parse_ipv4 (target_host target) = None" "parse_ipv6 (target_host target) = Some ip"
      "enc = x # be_bytes 16 ip @ be_bytes 2 (ep_port target)"
  | (domain) "parse_ipv4 (target_host target) = None" "parse_ipv6 (target_host target) = None"
      "length (target_host target) \<le> 255"
      "enc = d # of_nat (length (target_host target)) # bytes_of_str (target_host target)
        @ be_bytes 2 (ep_port target)"
  using assms
  by (cases "parse_ipv4 (target_host target)"; cases "parse_ipv6 (target_host target)")
    (auto simp: encode_atyp_target_def Let_def split: if_splits)

lemma unat_length_u8: "n \<le> 255 \<Longrightarrow> unat (of_nat n :: u8) = n"
  by (simp add: unat_of_nat)

lemma utf8_str_target_host: "utf8_str (ep_host target) \<Longrightarrow> utf8_str (target_host target)"
  by (simp add: target_host_def)

lemma decode_tuic_target_rest:
  assumes enc: "encode_tuic_target [] target = Ok enc" and utf8: "utf8_str (ep_host target)"
    and at: "rest_at input offset (enc @ rest)"
  shows "decode_tuic_target input offset
    = Ok (endpoint_new (canonical_host target) (ep_port target), offset + length enc)"
  using enc [unfolded encode_tuic_target_def]
proof (cases rule: encode_atyp_target_cases)
  case (v4 ip)
  note at = at [unfolded v4 append_Cons append_assoc]
  note at1 = rest_at_Cons [OF at] and at2 = rest_at_append [OF rest_at_Cons [OF at]]
  show ?thesis
    using v4 read_u8_at_rest [OF at] read_bytes_at_rest [OF at1] read_u16_at_rest [OF at2]
    by (simp add: decode_tuic_target_def canonical_host_def)
next
  case (v6 ip)
  note at = at [unfolded v6 append_Cons append_assoc]
  note at1 = rest_at_Cons [OF at] and at2 = rest_at_append [OF rest_at_Cons [OF at]]
  show ?thesis
    using v6 read_u8_at_rest [OF at] read_bytes_at_rest [OF at1] read_u16_at_rest [OF at2]
    by (simp add: decode_tuic_target_def canonical_host_def copy_from_slice_def)
next
  case domain
  note at = at [unfolded domain append_Cons append_assoc]
  note at1 = rest_at_Cons [OF at] and at2 = rest_at_Cons [OF rest_at_Cons [OF at]]
  show ?thesis
    using domain read_u8_at_rest [OF at] read_u8_at_rest [OF at1] read_bytes_at_rest [OF at2]
      read_u16_at_rest [OF rest_at_append [OF at2]] utf8_str_target_host [OF utf8]
    by (simp add: decode_tuic_target_def canonical_host_def unat_length_u8)
qed

text \<open>
  Decoding an encoded TUIC packet command gives its fields back, with the target in canonical form
  and the payload unchanged.
\<close>

theorem tuic_packet_roundtrip:
  assumes "encode_tuic_packet_command associate_id packet_id fragment_total fragment_id target payload
      = Ok command" and utf8: "utf8_str (ep_host target)"
  shows "decode_tuic_packet_command command
    = Ok \<lparr>tpc_associate_id = associate_id, tpc_packet_id = packet_id, tpc_fragment_total = fragment_total,
          tpc_fragment_id = fragment_id, tpc_source = endpoint_new (canonical_host target) (ep_port target),
          tpc_payload = payload\<rparr>"
proof -
  let ?head = "[0x05, 0x02] @ be_bytes 2 associate_id @ be_bytes 2 packet_id
    @ [fragment_total, fragment_id] @ be_bytes 2 (of_nat (length payload) :: u16)"
  from assms(1) obtain message where message: "encode_tuic_target ?head target = Ok message"
      and len: "length payload \<le> 65535" and command_eq: "command = message @ payload"
    by (auto simp: encode_tuic_packet_command_def outcome_simps split: if_splits)
  obtain enc where enc: "encode_tuic_target [] target = Ok enc" and "message = ?head @ enc"
    using message unfolding encode_tuic_target_def by (rule encode_atyp_target_prefix)
  with command_eq have command: "command = 0x05 # 0x02 # be_bytes 2 associate_id @ be_bytes 2 packet_id
      @ fragment_total # fragment_id # be_bytes 2 (of_nat (length payload) :: u16) @ enc @ payload"
    by simp
  note at0 = rest_at_zero [of command, unfolded command]
  note at1 = rest_at_Cons [OF at0]
  note at2 = rest_at_Cons [OF at1]
  note at3 = rest_at_u16 [OF at2]
  note at4 = rest_at_u16 [OF at3]
  note at5 = rest_at_Cons [OF at4]
  note at6 = rest_at_Cons [OF at5]
  note at7 = rest_at_u16 [OF at6]
  note at8 = rest_at_append [OF at7]
  have size: "unat (of_nat (length payload) :: u16) = length payload"
    using len by (simp add: unat_of_nat_u16)
  show ?thesis
    using rest_at_length [OF at8] at8 size
      read_u8_at_rest [OF at0] read_u8_at_rest [OF at1] read_u16_at_rest [OF at2] read_u16_at_rest [OF at3]
      read_u8_at_rest [OF at4] read_u8_at_rest [OF at5] read_u16_at_rest [OF at6]
      decode_tuic_target_rest [OF enc utf8 at7]
    unfolding command decode_tuic_packet_command_def
    by (simp add: slice_def rest_at_def)
qed

theorem tuic_packet_roundtrip_witness:
  "\<exists>command. encode_tuic_packet_command 7 9 1 0 sample_endpoint [1, 2, 3] = Ok command
    \<and> decode_tuic_packet_command command
      = Ok \<lparr>tpc_associate_id = 7, tpc_packet_id = 9, tpc_fragment_total = 1, tpc_fragment_id = 0,
            tpc_source = endpoint_new ''server.example'' 853, tpc_payload = [1, 2, 3]\<rparr>"
proof -
  obtain command where command: "encode_tuic_packet_command 7 9 1 0 sample_endpoint [1, 2, 3] = Ok command"
    by (simp add: encode_tuic_packet_command_def encode_tuic_target_def encode_atyp_target_def Let_def
        sample_target_host sample_not_ip)
  then show ?thesis
    using tuic_packet_roundtrip [OF command sample_utf8]
    by (simp add: canonical_host_def sample_target_host sample_not_ip) (simp add: sample_endpoint_def endpoint_new_def)
qed

section \<open>HY2 datagrams\<close>

lemma utf8_show_u16: "utf8 (bytes_of_str (CHR '':'' # show_u16 port))"
proof -
  have "of_nat (of_char c) < (0x80 :: u8)" if c: "c \<in> set (show_u16 port)" for c
  proof -
    obtain d where "to_digit 10 c = Some d"
      using c show_radix_digits [of 10 c "unat port"] by (auto simp: show_u16_def)
    then have "of_char c < (58 :: nat)"
      by (auto simp: to_digit_def char_code_def Let_def split: if_splits)
    then show ?thesis by (simp add: word_less_nat_alt unat_of_nat)
  qed
  then show ?thesis
    by (intro utf8_ascii_only) (auto simp: bytes_of_str_def list_all_iff)
qed

lemma host_port_endpoint:
  assumes "utf8_str host" and "trim_brackets (trim host) \<noteq> []"
  shows "from_utf8 (bytes_of_str (host_port_text (trim host) port)) = Some (host_port_text (trim host) port)"
    and "parse_host_port_endpoint (host_port_text (trim host) port)
      = Ok (endpoint_new (trim_brackets (trim host)) port)"
proof -
  have "utf8 (bytes_of_str (trim host))" using assms(1) by (simp flip: utf8_iff)
  then have "utf8_str (host_port_text (trim host) port)"
    using utf8_show_u16 [of port] by (simp add: host_port_text_def utf8_iff utf8_append)
  then show "from_utf8 (bytes_of_str (host_port_text (trim host) port)) = Some (host_port_text (trim host) port)"
    by simp
  show "parse_host_port_endpoint (host_port_text (trim host) port)
      = Ok (endpoint_new (trim_brackets (trim host)) port)"
    using assms(2) rsplit_once_append [OF show_u16_no_colon [of port], of "trim host"]
    by (simp add: parse_host_port_endpoint_def host_port_text_def Let_def)
qed

lemma length_trim: "length (trim s) \<le> length s"
proof -
  obtain before after where "s = concat before @ trim s @ concat after" by (rule trim_split)
  from arg_cong [OF this, of length] show ?thesis by simp
qed

lemma length_show_u16: "length (show_u16 port) \<le> 5"
  using length_show_radix [of 10 "unat port" 4] unat_u16_le [of port] by (simp add: show_u16_def)

text \<open>
  Decoding an encoded HY2 datagram gives its fields back, with the host trimmed of white space and
  brackets and the payload unchanged, as long as something is left of the host.
\<close>

theorem hy2_udp_roundtrip:
  assumes "encode_hy2_udp_message session_id packet_id fragment_id fragment_count address payload = Ok message"
    and utf8: "utf8_str (ep_host address)" and host: "target_host address \<noteq> []"
    and short: "length (ep_host address) < 2 ^ 61"
  shows "decode_hy2_udp_message message
    = Ok \<lparr>hum_session_id = session_id, hum_packet_id = packet_id, hum_fragment_id = fragment_id,
          hum_fragment_count = fragment_count,
          hum_address = endpoint_new (target_host address) (ep_port address), hum_payload = payload\<rparr>"
proof -
  let ?text = "host_port_text (trim (ep_host address)) (ep_port address)"
  let ?len = "of_nat (length ?text) :: u64"
  have message: "message = be_bytes 4 session_id @ be_bytes 2 packet_id @ fragment_id # fragment_count
      # encode_quic_varint ?len @ bytes_of_str ?text @ payload"
    using assms(1) by (auto simp: encode_hy2_udp_message_def Let_def split: if_splits)
  have "length ?text < 2 ^ 62"
    using short length_trim [of "ep_host address"] length_show_u16 [of "ep_port address"]
    by (simp add: host_port_text_def)
  then have len: "unat ?len = length ?text" "unat ?len < 2 ^ 62"
    by (simp_all add: unat_of_nat)
  note at0 = rest_at_zero [of message, unfolded message]
  note at1 = rest_at_u32 [OF at0]
  note at2 = rest_at_u16 [OF at1]
  note at3 = rest_at_Cons [OF at2]
  note at4 = rest_at_Cons [OF at3]
  note at5 = rest_at_append [OF at4]
  note at6 = rest_at_append [OF at5]
  show ?thesis
    using read_u32_at_rest [OF at0] read_u16_at_rest [OF at1] read_u8_at_rest [OF at2] read_u8_at_rest [OF at3]
      quic_varint_roundtrip [OF at4 len(2)] read_bytes_at_rest [OF at5] len(1) at6
      host_port_endpoint [OF utf8] host
    unfolding message decode_hy2_udp_message_def
    by (simp add: slice_from_def rest_at_def target_host_def)
qed

theorem hy2_udp_roundtrip_witness:
  "\<exists>message. encode_hy2_udp_message 7 9 0 1 sample_endpoint [1, 2, 3] = Ok message
    \<and> decode_hy2_udp_message message
      = Ok \<lparr>hum_session_id = 7, hum_packet_id = 9, hum_fragment_id = 0, hum_fragment_count = 1,
            hum_address = endpoint_new ''server.example'' 853, hum_payload = [1, 2, 3]\<rparr>"
proof -
  have "trim (ep_host sample_endpoint) \<noteq> []"
    by (simp add: sample_endpoint_def endpoint_new_def trim_visible visible_def char_code_def)
  then obtain message where message: "encode_hy2_udp_message 7 9 0 1 sample_endpoint [1, 2, 3] = Ok message"
    by (simp add: encode_hy2_udp_message_def Let_def)
  have "length (ep_host sample_endpoint) < 2 ^ 61" by (simp add: sample_endpoint_def endpoint_new_def)
  then show ?thesis
    using hy2_udp_roundtrip [OF message sample_utf8] message
    by (simp add: sample_target_host) (simp add: sample_endpoint_def endpoint_new_def)
qed

section \<open>Decoders never panic\<close>

lemma read_bytes_at_Ok: "read_bytes_at input offset n = Ok (bs, offset') \<Longrightarrow>
    length bs = n \<and> offset' = offset + n \<and> offset' \<le> length input"
  by (auto simp: read_bytes_at_def slice_def split: if_splits)

lemma reads_total [simp]:
  "read_bytes_at input offset n \<noteq> Panic" "read_u8_at input offset \<noteq> Panic"
  "read_u16_at input offset \<noteq> Panic" "read_u32_at input offset \<noteq> Panic"
proof -
  show bytes: "read_bytes_at input offset n \<noteq> Panic" for n
    by (simp add: read_bytes_at_def slice_def)
  show "read_u8_at input offset \<noteq> Panic" by (simp add: read_u8_at_def)
  show "read_u16_at input offset \<noteq> Panic"
    using bytes by (auto simp: read_u16_at_def outcome_simps dest!: read_bytes_at_Ok)
  show "read_u32_at input offset \<noteq> Panic"
    using bytes by (auto simp: read_u32_at_def outcome_simps dest!: read_bytes_at_Ok)
qed

lemma read_u8_at_Ok: "read_u8_at input offset = Ok (b, offset') \<Longrightarrow> offset' = offset + 1 \<and> offset' \<le> length input"
  by (auto simp: read_u8_at_def split: if_splits)

lemma read_u16_at_Ok: "read_u16_at input offset = Ok (w, offset') \<Longrightarrow> offset' = offset + 2 \<and> offset' \<le> length input"
  by (auto simp: read_u16_at_def outcome_simps dest!: read_bytes_at_Ok)

lemma decode_quic_varint_total [simp]: "decode_quic_varint input offset \<noteq> Panic"
  by (auto simp: decode_quic_varint_def Let_def slice_def outcome_simps)

lemma decode_quic_varint_Ok:
  "decode_quic_varint input offset = Ok (v, n) \<Longrightarrow> offset + n \<le> length input"
  by (auto simp: decode_quic_varint_def Let_def slice_def outcome_simps split: if_splits)

lemma decode_tuic_target_total [simp]: "decode_tuic_target input offset \<noteq> Panic"
  by (auto simp: decode_tuic_target_def outcome_simps copy_from_slice_def dest!: read_bytes_at_Ok)

lemma decode_tuic_target_Ok:
  "decode_tuic_target input offset = Ok (e, offset') \<Longrightarrow> offset' \<le> length input"
  by (auto simp: decode_tuic_target_def outcome_simps dest!: read_bytes_at_Ok read_u8_at_Ok read_u16_at_Ok
      split: if_splits)

lemma parse_host_port_endpoint_total [simp]: "parse_host_port_endpoint s \<noteq> Panic"
  by (auto simp: parse_host_port_endpoint_def outcome_simps Let_def)

lemma decode_hy2_tcp_response_total:
  "case decode_hy2_tcp_response input of Ok (response, consumed) \<Rightarrow> consumed \<le> length input
    | Err e \<Rightarrow> True | Panic \<Rightarrow> False"
proof (cases "decode_hy2_tcp_response input")
  case (Ok r)
  then show ?thesis
    by (auto simp: decode_hy2_tcp_response_def outcome_simps Let_def split: list.splits if_splits)
next
  case Panic
  then show ?thesis
    by (auto simp: decode_hy2_tcp_response_def outcome_simps Let_def slice_def split: list.splits if_splits
        dest!: decode_quic_varint_Ok)
qed simp

text \<open>
  The decoders of what a server sends (TUIC packet commands, HY2 datagrams, HY2 stream responses)
  return a value or an error for every input, and the HY2 stream decoder never claims to have consumed
  more than it was given.
\<close>

theorem wire_decoders_total:
  "decode_tuic_packet_command input \<noteq> Panic \<and> decode_hy2_udp_message input \<noteq> Panic
   \<and> (case decode_hy2_tcp_response input of Ok (response, consumed) \<Rightarrow> consumed \<le> length input
      | Err e \<Rightarrow> True | Panic \<Rightarrow> False)"
proof (intro conjI)
  show "decode_tuic_packet_command input \<noteq> Panic"
    by (auto simp: decode_tuic_packet_command_def outcome_simps slice_def dest!: decode_tuic_target_Ok)
  show "decode_hy2_udp_message input \<noteq> Panic"
    by (auto simp: decode_hy2_udp_message_def outcome_simps slice_from_def dest!: read_bytes_at_Ok)
qed (rule decode_hy2_tcp_response_total)

section \<open>Accepted credentials can be encoded\<close>

lemma encode_vless_target_prefix:
  assumes "encode_vless_target [] target = Ok enc"
  shows "encode_vless_target output target = Ok (output @ enc)"
  using assms by (auto simp: encode_vless_target_def Let_def split: option.splits if_splits)

lemma encode_vless_addon_ok:
  assumes "length (trim flow) \<le> 253"
  obtains addon where "\<And>output. encode_vless_addon output flow = Ok (output @ addon)"
    "length addon = 1 + unat (hd addon)"
proof (cases "trim flow = []")
  case True
  with that [of "[0]"] show ?thesis by (simp add: encode_vless_addon_def)
next
  case False
  have "unat (of_nat (2 + length (trim flow)) :: u8) = 2 + length (trim flow)"
    using assms by (intro unat_length_u8) simp
  with False assms that [of "[of_nat (2 + length (trim flow)), 0x0A, of_nat (length (trim flow))] @ bytes_of_str (trim flow)"]
  show ?thesis by (simp add: encode_vless_addon_def Let_def)
qed

text \<open>
  A VLESS profile that \<open>validate\<close> accepts has a credential the request encoder can use: for every
  target that can be encoded, and a flow that fits in the addon length, the header is the version byte,
  the sixteen bytes whose hexadecimal text is the UUID, the addon with its length byte, the command and
  the target.
\<close>

theorem accepted_vless_encodes:
  assumes "validate p = Ok ()" and "pf_protocol p = Vless"
    and "encode_vless_target [] target = Ok enc"
    and "length (trim (case pf_flow p of Some f \<Rightarrow> f | None \<Rightarrow> [])) \<le> 253"
  shows "\<exists>uuid addon. encode_vless_tcp_request_header (pf_credential p) target (pf_flow p)
      = Ok ([0x00] @ uuid @ addon @ [0x01] @ enc)
    \<and> length uuid = 16
    \<and> concat (map push_lower_hex uuid)
      = map lower_byte (filter (\<lambda>b. b \<noteq> 0x2D) (bytes_of_str (pf_credential p)))
    \<and> length addon = 1 + unat (hd addon)"
proof -
  have "looks_like_uuid (pf_credential p)" using assms(1,2) by (simp add: validate_accepts)
  then obtain uuid where uuid: "parse_uuid_bytes (pf_credential p) = Ok uuid" "length uuid = 16"
      "concat (map push_lower_hex uuid)
        = map lower_byte (filter (\<lambda>b. b \<noteq> 0x2D) (bytes_of_str (pf_credential p)))"
    by (rule parse_uuid_bytes_ok)
  obtain addon where addon:
      "\<And>output. encode_vless_addon output (case pf_flow p of Some f \<Rightarrow> f | None \<Rightarrow> []) = Ok (output @ addon)"
      "length addon = 1 + unat (hd addon)"
    by (rule encode_vless_addon_ok [OF assms(4)]) blast
  show ?thesis
    using uuid addon encode_vless_target_prefix [OF assms(3)]
    by (intro exI [of _ uuid] exI [of _ addon]) (simp add: encode_vless_tcp_request_header_def)
qed

theorem accepted_vless_encodes_witness:
  "\<exists>uuid addon enc. encode_vless_target [] sample_endpoint = Ok enc
    \<and> encode_vless_tcp_request_header (pf_credential sample_profile) sample_endpoint (pf_flow sample_profile)
      = Ok ([0x00] @ uuid @ addon @ [0x01] @ enc)
    \<and> length uuid = 16"
proof -
  obtain enc where enc: "encode_vless_target [] sample_endpoint = Ok enc"
    by (simp add: encode_vless_target_def Let_def sample_target_host sample_not_ip)
  have "length (trim (case pf_flow sample_profile of Some f \<Rightarrow> f | None \<Rightarrow> [])) \<le> 253"
    by (simp add: sample_profile_def trim_visible visible_def char_code_def)
  then show ?thesis
    using accepted_vless_encodes [OF sample_valid _ enc] enc by (auto simp: sample_profile_def)
qed

end
