(* ===== verification/Keli_Stream.thy ===== *)
theory Keli_Stream
  imports Keli_Wire_Facts Keli_Effects
begin

text \<open>
  Byte streams as the relay code sees them, through \<open>Read\<close> and \<open>Write\<close>: what the peer has sent and not
  been read yet, how the stream ends after it (end of file, or an error such as a timeout), and what was
  written. The codecs of \<open>direct.rs\<close> that read from and write to a stream follow: Trojan and VLESS
  datagrams over a stream, and the Shadowsocks datagram address.
\<close>

section \<open>Streams\<close>

datatype io_error_kind =
    UnexpectedEof | InvalidData | InvalidInput | PermissionDenied | Unsupported | ConnectionRefused
  | AddrNotAvailable | NotFound | TimedOut | WouldBlock | Interrupted | WriteZero | ConnectionReset | OtherErrorKind

datatype io_error = IoError (error_kind: io_error_kind) (error_message: string)

record duplex =
  dx_incoming :: bytes
  dx_end :: io_error
  dx_outgoing :: bytes
  dx_write_error :: "io_error option"

text \<open>\<open>read_exact\<close> into a buffer of \<open>n\<close> bytes: a stream that ends before that leaves nothing to read.\<close>

definition read_exact :: "nat \<Rightarrow> (duplex, io_error, bytes) op" where
  "read_exact n s =
     (if n \<le> length (dx_incoming s)
      then (Ok (take n (dx_incoming s)), s\<lparr>dx_incoming := drop n (dx_incoming s)\<rparr>)
      else (Err (dx_end s), s\<lparr>dx_incoming := []\<rparr>))"

definition write_all :: "bytes \<Rightarrow> (duplex, io_error, unit) op" where
  "write_all bs s = (case dx_write_error s of
      None \<Rightarrow> (Ok (), s\<lparr>dx_outgoing := dx_outgoing s @ bs\<rparr>)
    | Some e \<Rightarrow> (Err e, s))"

abbreviation io_fail :: "io_error_kind \<Rightarrow> string \<Rightarrow> (duplex, io_error, 'a) op" where
  "io_fail kind message \<equiv> lift (Err (IoError kind message))"

text \<open>The first byte of a buffer that \<open>read_exact(&mut [0; 1])\<close> filled.\<close>

definition read_byte :: "(duplex, io_error, u8) op" where
  "read_byte = sbind (read_exact 1) (\<lambda>bs. lift (index bs 0))"

definition read_be_u16 :: "(duplex, io_error, u16) op" where
  "read_be_u16 = sbind (read_exact 2) (\<lambda>bs. lift (read_u16 bs 0))"

section \<open>Trojan datagrams\<close>

definition read_trojan_packet_target :: "(duplex, io_error, endpoint) op" where
  "read_trojan_packet_target =
     sbind read_byte (\<lambda>atyp.
     sbind
       (if atyp = 0x01 then sbind (read_exact 4) (\<lambda>ip. ret (show_ipv4 (from_be_bytes ip)))
        else if atyp = 0x03 then
          sbind read_byte (\<lambda>len.
          sbind (read_exact (unat len)) (\<lambda>host.
          lift (ok_or (from_utf8 host) (IoError InvalidData ''Trojan UDP domain is invalid UTF-8''))))
        else if atyp = 0x04 then sbind (read_exact 16) (\<lambda>ip. ret (show_ipv6 (from_be_bytes ip)))
        else io_fail InvalidData (''Trojan UDP address type is unsupported: '' @ show_radix 10 (unat atyp)))
     (\<lambda>host. sbind read_be_u16 (\<lambda>port. ret (endpoint_new host port))))"

definition read_trojan_crlf :: "(duplex, io_error, unit) op" where
  "read_trojan_crlf = sbind (read_exact 2) (\<lambda>bs.
     if bs = crlf then ret () else io_fail InvalidData ''Trojan UDP packet is missing CRLF'')"

text \<open>\<open>read_trojan_udp_packet\<close> up to the resolution of the source address.\<close>

definition read_trojan_udp_packet :: "(duplex, io_error, endpoint \<times> bytes) op" where
  "read_trojan_udp_packet =
     sbind read_trojan_packet_target (\<lambda>source.
     sbind read_be_u16 (\<lambda>len.
     sbind read_trojan_crlf (\<lambda>_.
     sbind (read_exact (unat len)) (\<lambda>payload. ret (source, payload)))))"

definition protocol_encoding_to_io :: "protocol_encoding_error \<Rightarrow> io_error" where
  "protocol_encoding_to_io e = IoError InvalidInput (case e of
      EncInvalidUuid \<Rightarrow> ''VLESS credential must be a UUID''
    | EncInvalidPassword \<Rightarrow> ''Trojan password is empty''
    | EncInvalidTargetHost \<Rightarrow> ''VLESS target host is invalid''
    | EncFlowTooLong \<Rightarrow> ''VLESS flow is too long''
    | EncPacketTooLong \<Rightarrow> ''UDP packet payload is too long'')"

definition send_trojan_udp_over_stream :: "(bytes \<Rightarrow> bytes) \<Rightarrow> string \<Rightarrow> outbound_target \<Rightarrow> bytes
    \<Rightarrow> (duplex, io_error, endpoint \<times> bytes) op" where
  "send_trojan_udp_over_stream sha224 password target payload =
     (let target_endpoint = endpoint_new (ot_host target) (ot_port target) in
      sbind (lift (map_err protocol_encoding_to_io
        (encode_trojan_udp_request_header sha224 password target_endpoint))) (\<lambda>header.
      sbind (lift (map_err protocol_encoding_to_io (encode_trojan_udp_packet target_endpoint payload))) (\<lambda>packet.
      sbind (write_all header) (\<lambda>_.
      sbind (write_all packet) (\<lambda>_.
      read_trojan_udp_packet)))))"

section \<open>VLESS datagrams\<close>

definition read_vless_response_header_from_stream :: "(duplex, io_error, unit) op" where
  "read_vless_response_header_from_stream = sbind (read_exact 2) (\<lambda>header.
     sbind (lift (index header 0)) (\<lambda>version.
     sbind (lift (index header 1)) (\<lambda>addon_len.
     if version \<noteq> 0x00 then io_fail InvalidData ''invalid VLESS response version''
     else if addon_len > 0 then sbind (read_exact (unat addon_len)) (\<lambda>_. ret ())
     else ret ())))"

definition write_vless_udp_payload :: "bytes \<Rightarrow> (duplex, io_error, unit) op" where
  "write_vless_udp_payload payload =
     (if length payload > 65535 then io_fail InvalidData ''VLESS UDP payload is too large''
      else sbind (write_all (u16_to_be_bytes (of_nat (length payload)))) (\<lambda>_. write_all payload))"

definition read_vless_udp_payload :: "(duplex, io_error, bytes) op" where
  "read_vless_udp_payload = sbind read_be_u16 (\<lambda>len. read_exact (unat len))"

definition send_vless_udp_over_stream :: "string \<Rightarrow> string option \<Rightarrow> outbound_target \<Rightarrow> bytes
    \<Rightarrow> (duplex, io_error, bytes) op" where
  "send_vless_udp_over_stream uuid flow target payload =
     (if (case flow of Some f \<Rightarrow> trim f \<noteq> [] | None \<Rightarrow> False)
      then io_fail Unsupported ''VLESS UDP outbound does not support flow''
      else
        let target_endpoint = endpoint_new (ot_host target) (ot_port target) in
        sbind (lift (map_err protocol_encoding_to_io (encode_vless_udp_request_header uuid target_endpoint))) (\<lambda>header.
        sbind (write_all header) (\<lambda>_.
        sbind read_vless_response_header_from_stream (\<lambda>_.
        sbind (write_vless_udp_payload payload) (\<lambda>_.
        read_vless_udp_payload)))))"

section \<open>Shadowsocks datagram address\<close>

text \<open>The message of a host that is not UTF-8 is the standard library's and abbreviated here.\<close>

definition decode_shadowsocks_udp_address :: "bytes \<Rightarrow> (io_error, endpoint \<times> usize) outcome" where
  "decode_shadowsocks_udp_address payload = (case payload of
      [] \<Rightarrow> Err (IoError UnexpectedEof ''missing shadowsocks UDP address type'')
    | atyp # _ \<Rightarrow>
        if atyp = 0x01 then
          if length payload < 7 then Err (IoError UnexpectedEof ''missing shadowsocks UDP IPv4 address'')
          else obind (read_u32 payload 1) (\<lambda>ip. obind (read_u16 payload 5) (\<lambda>port.
            Ok (endpoint_new (show_ipv4 ip) port, 7)))
        else if atyp = 0x03 then
          if length payload < 2 then Err (IoError UnexpectedEof ''missing shadowsocks UDP domain length'')
          else
            let len = unat (payload ! 1); required = 2 + len + 2 in
            if length payload < required
            then Err (IoError UnexpectedEof ''missing shadowsocks UDP domain address'')
            else obind (slice payload 2 (2 + len)) (\<lambda>host.
              obind (ok_or (from_utf8 host) (IoError InvalidData ''invalid utf-8 sequence'')) (\<lambda>host.
              obind (read_u16 payload (2 + len)) (\<lambda>port.
              Ok (endpoint_new host port, required))))
        else if atyp = 0x04 then
          if length payload < 19 then Err (IoError UnexpectedEof ''missing shadowsocks UDP IPv6 address'')
          else obind (slice payload 1 17) (\<lambda>ip. obind (copy_from_slice 0 16 ip (replicate 16 0)) (\<lambda>octets.
            obind (read_u16 payload 17) (\<lambda>port.
            Ok (endpoint_new (show_ipv6 (from_be_bytes octets)) port, 19))))
        else Err (IoError InvalidData (''unsupported shadowsocks UDP address type: '' @ show_radix 10 (unat atyp))))"

section \<open>Reading what was sent\<close>

lemma read_exact_prefix:
  "dx_incoming s = x @ rest \<Longrightarrow> length x = n \<Longrightarrow> read_exact n s = (Ok x, s\<lparr>dx_incoming := rest\<rparr>)"
  by (auto simp: read_exact_def)

lemma read_byte_Cons: "dx_incoming s = b # rest \<Longrightarrow> read_byte s = (Ok b, s\<lparr>dx_incoming := rest\<rparr>)"
  using read_exact_prefix [of s "[b]" rest 1] by (simp add: read_byte_def sbind_def lift_def index_def)

lemma read_be_u16_prefix:
  "dx_incoming s = be_bytes 2 w @ rest \<Longrightarrow> read_be_u16 s = (Ok w, s\<lparr>dx_incoming := rest\<rparr>)"
  using read_exact_prefix [of s "be_bytes 2 w" rest 2] by (simp add: read_be_u16_def sbind_def lift_def)

lemma incoming_update [simp]: "s\<lparr>dx_incoming := a, dx_incoming := b\<rparr> = s\<lparr>dx_incoming := b\<rparr>"
  by simp

lemma read_trojan_target_prefix:
  assumes enc: "encode_trojan_target [] target = Ok enc" and utf8: "utf8_str (ep_host target)"
    and incoming: "dx_incoming s = enc @ rest"
  shows "read_trojan_packet_target s
    = (Ok (endpoint_new (canonical_host target) (ep_port target)), s\<lparr>dx_incoming := rest\<rparr>)"
  using enc [unfolded encode_trojan_target_def]
proof (cases rule: encode_atyp_target_cases)
  case (v4 ip)
  with incoming show ?thesis
    by (simp add: read_trojan_packet_target_def sbind_def ret_def read_byte_Cons canonical_host_def
        read_exact_prefix [where x = "be_bytes 4 ip"] read_be_u16_prefix [where w = "ep_port target"])
next
  case (v6 ip)
  with incoming show ?thesis
    by (simp add: read_trojan_packet_target_def sbind_def ret_def read_byte_Cons canonical_host_def
        read_exact_prefix [where x = "be_bytes 16 ip"] read_be_u16_prefix [where w = "ep_port target"])
next
  case domain
  with incoming utf8_str_target_host [OF utf8] show ?thesis
    by (simp add: read_trojan_packet_target_def sbind_def ret_def lift_def read_byte_Cons canonical_host_def
        unat_length_u8 read_exact_prefix [where x = "bytes_of_str (target_host target)"]
        read_be_u16_prefix [where w = "ep_port target"])
qed

text \<open>
  C21. Reading an encoded Trojan datagram from a stream gives its target in canonical form and its payload,
  and leaves the rest of the stream unread.
\<close>

theorem trojan_udp_roundtrip:
  assumes packet: "encode_trojan_udp_packet target payload = Ok packet" and utf8: "utf8_str (ep_host target)"
    and incoming: "dx_incoming s = packet @ rest"
  shows "read_trojan_udp_packet s
    = (Ok (endpoint_new (canonical_host target) (ep_port target), payload), s\<lparr>dx_incoming := rest\<rparr>)"
proof -
  obtain enc where enc: "encode_trojan_target [] target = Ok enc" and len: "length payload \<le> 65535"
      and eq: "packet = enc @ be_bytes 2 (of_nat (length payload) :: u16) @ crlf @ payload"
    using packet by (auto simp: encode_trojan_udp_packet_def outcome_simps split: if_splits)
  have size: "unat (of_nat (length payload) :: u16) = length payload"
    using len by (simp add: unat_of_nat_u16)
  note target = read_trojan_target_prefix [OF enc utf8, of s
      "be_bytes 2 (of_nat (length payload) :: u16) @ crlf @ payload @ rest"]
  show ?thesis
    using target incoming size
    by (simp add: eq read_trojan_udp_packet_def read_trojan_crlf_def sbind_def ret_def
        read_be_u16_prefix [where w = "of_nat (length payload)"]
        read_exact_prefix [where x = crlf] read_exact_prefix [where x = payload] crlf_def)
qed

theorem trojan_udp_roundtrip_witness:
  "\<exists>packet. encode_trojan_udp_packet sample_endpoint [1, 2, 3] = Ok packet
    \<and> fst (read_trojan_udp_packet \<lparr>dx_incoming = packet @ [9], dx_end = IoError UnexpectedEof [],
        dx_outgoing = [], dx_write_error = None\<rparr>)
      = Ok (endpoint_new ''server.example'' 853, [1, 2, 3])"
proof -
  obtain packet where packet: "encode_trojan_udp_packet sample_endpoint [1, 2, 3] = Ok packet"
    by (simp add: encode_trojan_udp_packet_def encode_trojan_target_def encode_atyp_target_def Let_def
        sample_target_host sample_not_ip)
  show ?thesis
    using trojan_udp_roundtrip [OF packet sample_utf8, of _ "[9]"] packet
    by (simp add: canonical_host_def sample_target_host sample_not_ip) (simp add: sample_endpoint_def endpoint_new_def)
qed

lemma read_u16_append: "length pre = i \<Longrightarrow> read_u16 (pre @ be_bytes 2 w @ rest) i = Ok w"
  by (auto simp: read_u16_def index_def nth_append be_bytes_u16 from_be_bytes_fields)

lemma slice_append: "length pre = i \<Longrightarrow> j = i + length x \<Longrightarrow> slice (pre @ x @ rest) i j = Ok x"
  by (auto simp: slice_def)

text \<open>
  The address in front of a Shadowsocks datagram is the one the request encoder writes: decoding it
  gives the target in canonical form and the number of bytes to skip before the payload.
\<close>

theorem shadowsocks_address_roundtrip:
  assumes enc: "encode_shadowsocks_tcp_request_header target = Ok enc" and utf8: "utf8_str (ep_host target)"
  shows "decode_shadowsocks_udp_address (enc @ payload)
    = Ok (endpoint_new (canonical_host target) (ep_port target), length enc)"
  using enc [unfolded encode_shadowsocks_tcp_request_header_def encode_shadowsocks_target_def]
proof (cases rule: encode_atyp_target_cases)
  case (v4 ip)
  then show ?thesis
    by (simp add: decode_shadowsocks_udp_address_def canonical_host_def read_u32_def read_u16_def index_def
        be_bytes_u32 be_bytes_u16 from_be_bytes_fields)
next
  case (v6 ip)
  then have bs: "enc @ payload = ([0x04] @ be_bytes 16 ip) @ be_bytes 2 (ep_port target) @ payload" by simp
  have "slice (enc @ payload) 1 17 = (Ok (be_bytes 16 ip) :: (io_error, bytes) outcome)"
    unfolding bs using slice_append [of "[0x04]" 1 17 "be_bytes 16 ip"] by simp
  moreover have "read_u16 (enc @ payload) 17 = (Ok (ep_port target) :: (io_error, u16) outcome)"
    unfolding bs by (rule read_u16_append) simp
  ultimately show ?thesis
    using v6 by (simp add: decode_shadowsocks_udp_address_def canonical_host_def copy_from_slice_def)
next
  case domain
  let ?h = "bytes_of_str (target_host target)" and ?n = "length (target_host target)"
  have bs: "enc @ payload = [0x03, of_nat ?n] @ ?h @ be_bytes 2 (ep_port target) @ payload"
    using domain by simp
  have "slice (enc @ payload) 2 (2 + ?n) = (Ok ?h :: (io_error, bytes) outcome)"
    unfolding bs by (rule slice_append) simp_all
  moreover have "read_u16 (enc @ payload) (2 + ?n) = (Ok (ep_port target) :: (io_error, u16) outcome)"
    unfolding bs using read_u16_append [of "[0x03, of_nat ?n] @ ?h" "2 + ?n"] by simp
  ultimately show ?thesis
    using domain utf8_str_target_host [OF utf8]
    by (simp add: decode_shadowsocks_udp_address_def canonical_host_def unat_length_u8)
qed

theorem shadowsocks_address_roundtrip_witness:
  "\<exists>enc. encode_shadowsocks_tcp_request_header sample_endpoint = Ok enc
    \<and> decode_shadowsocks_udp_address (enc @ [1, 2, 3]) = Ok (endpoint_new ''server.example'' 853, length enc)"
proof -
  obtain enc where enc: "encode_shadowsocks_tcp_request_header sample_endpoint = Ok enc"
    by (simp add: encode_shadowsocks_tcp_request_header_def encode_shadowsocks_target_def encode_atyp_target_def
        Let_def sample_target_host sample_not_ip)
  show ?thesis
    using shadowsocks_address_roundtrip [OF enc sample_utf8] enc
    by (simp add: canonical_host_def sample_target_host sample_not_ip) (simp add: sample_endpoint_def endpoint_new_def)
qed

section \<open>Readers never panic\<close>

definition panic_free :: "('s, 'e, 'a) op \<Rightarrow> bool" where
  "panic_free m \<longleftrightarrow> (\<forall>s. fst (m s) \<noteq> Panic)"

lemma panic_free_sbind: "panic_free m \<Longrightarrow> (\<And>x. panic_free (f x)) \<Longrightarrow> panic_free (sbind m f)"
  by (simp add: panic_free_def sbind_def split: prod.split outcome.split) (metis fst_conv)

lemma panic_free_ret: "panic_free (ret x)" "r \<noteq> Panic \<Longrightarrow> panic_free (lift r)"
  by (simp_all add: panic_free_def ret_def lift_def)

lemma panic_free_if: "panic_free m \<Longrightarrow> panic_free m' \<Longrightarrow> panic_free (if b then m else m')"
  by simp

lemma panic_free_read: "panic_free (read_exact n)" "panic_free (write_all bs)" "panic_free read_byte"
    "panic_free read_be_u16"
  by (auto simp: panic_free_def read_exact_def write_all_def read_byte_def read_be_u16_def sbind_def lift_def
      index_def read_u16_def split: option.split)

lemmas panic_free_rules = panic_free_sbind panic_free_ret panic_free_if panic_free_read

lemma parse_uuid_bytes_total: "parse_uuid_bytes u \<noteq> Panic"
proof (cases "looks_like_uuid u")
  case True
  then obtain bs where "parse_uuid_bytes u = Ok bs" by (rule parse_uuid_bytes_ok)
  then show ?thesis by simp
qed (simp add: parse_uuid_bytes_def)

lemma encode_target_total: "encode_atyp_target a d x output target \<noteq> Panic" "encode_vless_target output target \<noteq> Panic"
    "encode_vless_addon output flow \<noteq> Panic"
  by (auto simp: encode_atyp_target_def encode_vless_target_def encode_vless_addon_def Let_def split: option.split)

lemma encode_headers_total: "encode_vless_udp_request_header u target \<noteq> Panic"
    "encode_trojan_udp_request_header h w target \<noteq> Panic" "encode_trojan_udp_packet target payload \<noteq> Panic"
  by (simp_all add: encode_vless_udp_request_header_def encode_trojan_udp_request_header_def
      encode_trojan_udp_packet_def encode_trojan_target_def outcome_simps parse_uuid_bytes_total encode_target_total)

lemma panic_free_vless_header: "panic_free read_vless_response_header_from_stream"
proof -
  have "fst (read_vless_response_header_from_stream s) \<noteq> Panic" for s
  proof (cases "2 \<le> length (dx_incoming s)")
    case True
    then obtain a b rest where "dx_incoming s = [a, b] @ rest"
      by (metis append_Cons append_Nil le_Suc_ex length_Suc_conv numeral_2_eq_2 add_Suc add_0)
    then show ?thesis
      by (simp add: read_vless_response_header_from_stream_def sbind_def lift_def ret_def index_def
          read_exact_prefix [where x = "[a, b]"] read_exact_def)
  next
    case False
    then show ?thesis by (simp add: read_vless_response_header_from_stream_def sbind_def read_exact_def)
  qed
  then show ?thesis by (simp add: panic_free_def)
qed

text \<open>
  Sending a datagram over a Trojan or a VLESS stream, and taking the source address off a Shadowsocks
  datagram, end with a value or an error for every peer: whatever bytes it sends, wherever the stream
  ends, and whether or not it can be written to.
\<close>

theorem datagram_exchanges_total:
  "fst (send_trojan_udp_over_stream sha224 password target payload s) \<noteq> Panic
   \<and> fst (send_vless_udp_over_stream uuid flow target payload s) \<noteq> Panic
   \<and> decode_shadowsocks_udp_address datagram \<noteq> Panic"
proof (intro conjI)
  have "panic_free (send_trojan_udp_over_stream sha224 password target payload)"
    unfolding send_trojan_udp_over_stream_def read_trojan_udp_packet_def read_trojan_packet_target_def
      read_trojan_crlf_def Let_def
    by (intro panic_free_rules) (simp_all add: encode_headers_total)
  then show "fst (send_trojan_udp_over_stream sha224 password target payload s) \<noteq> Panic"
    by (simp add: panic_free_def)
  have "panic_free (send_vless_udp_over_stream uuid flow target payload)"
    unfolding send_vless_udp_over_stream_def write_vless_udp_payload_def read_vless_udp_payload_def Let_def
    by (intro panic_free_rules panic_free_vless_header) (simp_all add: encode_headers_total)
  then show "fst (send_vless_udp_over_stream uuid flow target payload s) \<noteq> Panic"
    by (simp add: panic_free_def)
  show "decode_shadowsocks_udp_address datagram \<noteq> Panic"
    by (auto simp: decode_shadowsocks_udp_address_def outcome_simps Let_def slice_def copy_from_slice_def
        split: list.split)
qed

end
