(* ===== verification/Keli_Socks5.thy ===== *)
theory Keli_Socks5
  imports Keli_Stream
begin

text \<open>
  SOCKS5 on both sides: the inbound's parsers and replies (\<open>socks5.rs\<close>) and the client the program is
  towards a SOCKS5 server (\<open>direct.rs\<close>), with the fact that each side understands the other.
\<close>

section \<open>Messages\<close>

datatype socks5_command = CommandConnect | CommandBind | CommandUdpAssociate

datatype socks5_address = Socks5Ipv4 u32 | Socks5Domain string | Socks5Ipv6 u128

record socks5_request =
  sr_command :: socks5_command
  sr_address :: socks5_address
  sr_port :: u16

record socks5_udp_datagram =
  sd_address :: socks5_address
  sd_port :: u16
  sd_payload :: bytes

datatype socks5_reply_code =
    Succeeded | GeneralFailure | ConnectionNotAllowed | NetworkUnreachable | HostUnreachable
  | ReplyConnectionRefused | TtlExpired | CommandNotSupported | AddressTypeNotSupported

fun reply_code_as_byte :: "socks5_reply_code \<Rightarrow> u8" where
  "reply_code_as_byte Succeeded = 0x00"
| "reply_code_as_byte GeneralFailure = 0x01"
| "reply_code_as_byte ConnectionNotAllowed = 0x02"
| "reply_code_as_byte NetworkUnreachable = 0x03"
| "reply_code_as_byte HostUnreachable = 0x04"
| "reply_code_as_byte ReplyConnectionRefused = 0x05"
| "reply_code_as_byte TtlExpired = 0x06"
| "reply_code_as_byte CommandNotSupported = 0x07"
| "reply_code_as_byte AddressTypeNotSupported = 0x08"

datatype socks5_error =
    Socks5Io io_error
  | Socks5UnsupportedVersion u8
  | Socks5UnsupportedCommand u8
  | Socks5UnsupportedAddressType u8
  | Socks5EmptyMethodList
  | Socks5EmptyDomain
  | Socks5InvalidDomain
  | Socks5FragmentedUdpDatagram
  | Socks5DomainTooLong
  | Socks5TruncatedUdpDatagram

section \<open>The inbound\<close>

abbreviation socks5_read :: "nat \<Rightarrow> (duplex, socks5_error, bytes) op" where
  "socks5_read n \<equiv> with_err Socks5Io (read_exact n)"

definition socks5_read_u8 :: "(duplex, socks5_error, u8) op" where
  "socks5_read_u8 = sbind (socks5_read 1) (\<lambda>bs. lift (index bs 0))"

definition socks5_read_u16 :: "(duplex, socks5_error, u16) op" where
  "socks5_read_u16 = sbind (socks5_read 2) (\<lambda>bs. lift (read_u16 bs 0))"

definition parse_socks5_handshake :: "(duplex, socks5_error, bytes) op" where
  "parse_socks5_handshake =
     sbind socks5_read_u8 (\<lambda>version.
     if version \<noteq> 0x05 then lift (Err (Socks5UnsupportedVersion version))
     else sbind socks5_read_u8 (\<lambda>method_count.
     if method_count = 0 then lift (Err Socks5EmptyMethodList)
     else socks5_read (unat method_count)))"

definition parse_socks5_address :: "(duplex, socks5_error, socks5_address) op" where
  "parse_socks5_address = sbind socks5_read_u8 (\<lambda>atyp.
     if atyp = 0x01 then sbind (socks5_read 4) (\<lambda>bs. ret (Socks5Ipv4 (from_be_bytes bs)))
     else if atyp = 0x03 then
       sbind socks5_read_u8 (\<lambda>len.
       if len = 0 then lift (Err Socks5EmptyDomain)
       else sbind (socks5_read (unat len)) (\<lambda>bs.
       sbind (lift (ok_or (from_utf8 bs) Socks5InvalidDomain)) (\<lambda>domain. ret (Socks5Domain domain))))
     else if atyp = 0x04 then sbind (socks5_read 16) (\<lambda>bs. ret (Socks5Ipv6 (from_be_bytes bs)))
     else lift (Err (Socks5UnsupportedAddressType atyp)))"

definition parse_socks5_request :: "(duplex, socks5_error, socks5_request) op" where
  "parse_socks5_request =
     sbind socks5_read_u8 (\<lambda>version.
     if version \<noteq> 0x05 then lift (Err (Socks5UnsupportedVersion version))
     else sbind socks5_read_u8 (\<lambda>command.
     sbind (if command = 0x01 then ret CommandConnect
            else if command = 0x02 then ret CommandBind
            else if command = 0x03 then ret CommandUdpAssociate
            else lift (Err (Socks5UnsupportedCommand command))) (\<lambda>command.
     sbind socks5_read_u8 (\<lambda>reserved.
     if reserved \<noteq> 0x00 then lift (Err (Socks5Io (IoError InvalidData ''SOCKS5 reserved byte must be zero'')))
     else sbind parse_socks5_address (\<lambda>address.
     sbind socks5_read_u16 (\<lambda>port.
     ret \<lparr>sr_command = command, sr_address = address, sr_port = port\<rparr>))))))"

definition socks5_no_auth_response :: bytes where
  "socks5_no_auth_response = [0x05, 0x00]"

definition socks5_reply :: "socks5_reply_code \<Rightarrow> bytes" where
  "socks5_reply code = [0x05, reply_code_as_byte code, 0x00, 0x01, 0x00, 0x00, 0x00, 0x00, 0x00, 0x00]"

text \<open>\<open>OutboundTarget::from_socks5_request\<close>.\<close>

definition from_socks5_request :: "socks5_request \<Rightarrow> outbound_target" where
  "from_socks5_request request = outbound_target_new (case sr_address request of
      Socks5Ipv4 ip \<Rightarrow> show_ipv4 ip
    | Socks5Domain domain \<Rightarrow> domain
    | Socks5Ipv6 ip \<Rightarrow> show_ipv6 ip) (sr_port request)"

section \<open>Datagrams\<close>

definition read_slice :: "bytes \<Rightarrow> usize \<Rightarrow> usize \<Rightarrow> (socks5_error, bytes \<times> usize) outcome" where
  "read_slice input offset len =
     (if offset + len > length input then Err Socks5TruncatedUdpDatagram
      else obind (slice input offset (offset + len)) (\<lambda>bs. Ok (bs, offset + len)))"

definition parse_socks5_udp_datagram :: "bytes \<Rightarrow> (socks5_error, socks5_udp_datagram) outcome" where
  "parse_socks5_udp_datagram input =
     (if length input < 4 then Err Socks5TruncatedUdpDatagram
      else if input ! 0 \<noteq> 0x00 \<or> input ! 1 \<noteq> 0x00
        then Err (Socks5Io (IoError InvalidData ''SOCKS5 UDP reserved bytes must be zero''))
      else if input ! 2 \<noteq> 0x00 then Err Socks5FragmentedUdpDatagram
      else obind
        (if input ! 3 = 0x01 then
           obind (read_slice input 4 4) (\<lambda>(bs, offset). obind (read_u32 bs 0) (\<lambda>ip. Ok (Socks5Ipv4 ip, offset)))
         else if input ! 3 = 0x03 then
           obind (read_slice input 4 1) (\<lambda>(bs, offset).
           obind (case bs of b # _ \<Rightarrow> Ok b | [] \<Rightarrow> Err Socks5TruncatedUdpDatagram) (\<lambda>len.
           if len = 0 then Err Socks5EmptyDomain
           else obind (read_slice input offset (unat len)) (\<lambda>(bs, offset).
           obind (ok_or (from_utf8 bs) Socks5InvalidDomain) (\<lambda>domain. Ok (Socks5Domain domain, offset)))))
         else if input ! 3 = 0x04 then
           obind (read_slice input 4 16) (\<lambda>(bs, offset).
           obind (copy_from_slice 0 16 bs (replicate 16 0)) (\<lambda>octets.
           Ok (Socks5Ipv6 (from_be_bytes octets), offset)))
         else Err (Socks5UnsupportedAddressType (input ! 3)))
        (\<lambda>(address, offset).
         obind (read_slice input offset 2) (\<lambda>(port_bytes, offset).
         obind (read_u16 port_bytes 0) (\<lambda>port.
         obind (slice_from input offset) (\<lambda>payload.
         Ok \<lparr>sd_address = address, sd_port = port, sd_payload = payload\<rparr>)))))"

definition encode_socks5_udp_datagram :: "socks5_address \<Rightarrow> u16 \<Rightarrow> bytes \<Rightarrow> (socks5_error, bytes) outcome" where
  "encode_socks5_udp_datagram address port payload =
     obind (case address of
         Socks5Ipv4 ip \<Rightarrow> Ok ([0x00, 0x00, 0x00, 0x01] @ be_bytes 4 ip)
       | Socks5Domain domain \<Rightarrow>
           if trim domain = [] then Err Socks5EmptyDomain
           else if length (trim domain) > 255 then Err Socks5DomainTooLong
           else Ok ([0x00, 0x00, 0x00, 0x03, of_nat (length (trim domain))] @ bytes_of_str (trim domain))
       | Socks5Ipv6 ip \<Rightarrow> Ok ([0x00, 0x00, 0x00, 0x04] @ be_bytes 16 ip))
     (\<lambda>output. Ok (output @ u16_to_be_bytes port @ payload))"

section \<open>The client\<close>

definition split_proxy_credential :: "string \<Rightarrow> (string \<times> string) option" where
  "split_proxy_credential credential =
     (let credential = trim credential in
      if credential = [] then None
      else Some (case split_once CHR '':'' credential of Some (u, w) \<Rightarrow> (u, w) | None \<Rightarrow> (credential, [])))"

definition send_socks5_password_auth :: "string \<Rightarrow> string \<Rightarrow> (duplex, io_error, unit) op" where
  "send_socks5_password_auth username password =
     (if length username > 255 \<or> length password > 255
      then io_fail InvalidInput ''SOCKS5 username/password is too long''
      else sbind (write_all ([0x01, of_nat (length username)] @ bytes_of_str username
             @ [of_nat (length password)] @ bytes_of_str password)) (\<lambda>_.
        sbind (read_exact 2) (\<lambda>response.
        if response = [0x01, 0x00] then ret ()
        else io_fail PermissionDenied ''SOCKS5 username/password authentication failed'')))"

definition socks5_negotiate_proxy :: "string \<Rightarrow> (duplex, io_error, unit) op" where
  "socks5_negotiate_proxy credential =
     (let credential = split_proxy_credential credential in
      sbind (write_all (if credential \<noteq> None then [0x05, 0x02, 0x00, 0x02] else [0x05, 0x01, 0x00])) (\<lambda>_.
      sbind (read_exact 2) (\<lambda>response.
      sbind (lift (index response 0)) (\<lambda>version.
      sbind (lift (index response 1)) (\<lambda>selected.
      if version \<noteq> 0x05 then io_fail InvalidData ''SOCKS5 outbound proxy returned invalid version''
      else if selected = 0x00 then ret ()
      else if selected = 0x02 then (case credential of
          None \<Rightarrow> io_fail PermissionDenied ''SOCKS5 outbound proxy requested credentials''
        | Some (username, password) \<Rightarrow> send_socks5_password_auth username password)
      else if selected = 0xFF
        then io_fail PermissionDenied ''SOCKS5 outbound proxy rejected all auth methods''
      else io_fail Unsupported (''SOCKS5 outbound proxy selected unsupported auth method ''
             @ show_radix 10 (unat selected)))))))"

definition append_socks5_target :: "bytes \<Rightarrow> outbound_target \<Rightarrow> (io_error, bytes) outcome" where
  "append_socks5_target request target =
     (let host = trim_brackets (trim (ot_host target)) in
      obind (case parse_ipv4 host of
          Some ip \<Rightarrow> Ok (request @ [0x01] @ be_bytes 4 ip)
        | None \<Rightarrow> (case parse_ipv6 host of
            Some ip \<Rightarrow> Ok (request @ [0x04] @ be_bytes 16 ip)
          | None \<Rightarrow>
              if ot_host target = [] \<or> length (ot_host target) > 255
              then Err (IoError InvalidInput ''SOCKS5 target domain length is invalid'')
              else Ok (request @ [0x03, of_nat (length (ot_host target))] @ bytes_of_str (ot_host target))))
      (\<lambda>request. Ok (request @ u16_to_be_bytes (ot_port target))))"

definition read_socks5_reply_endpoint :: "string \<Rightarrow> (duplex, io_error, endpoint) op" where
  "read_socks5_reply_endpoint operation =
     sbind (read_exact 4) (\<lambda>response.
     sbind (lift (index response 0)) (\<lambda>version.
     sbind (lift (index response 1)) (\<lambda>status.
     sbind (lift (index response 3)) (\<lambda>atyp.
     if version \<noteq> 0x05 then io_fail InvalidData
       (''SOCKS5 outbound proxy returned invalid '' @ operation @ '' response version'')
     else if status \<noteq> 0x00 then io_fail ConnectionRefused
       (''SOCKS5 outbound '' @ operation @ '' failed with status '' @ show_radix 10 (unat status))
     else
       sbind
         (if atyp = 0x01 then sbind (read_exact 4) (\<lambda>ip. ret (show_ipv4 (from_be_bytes ip)))
          else if atyp = 0x03 then
            sbind read_byte (\<lambda>len.
            sbind (read_exact (unat len)) (\<lambda>host.
            lift (ok_or (from_utf8 host)
              (IoError InvalidData ''SOCKS5 outbound proxy returned invalid bound domain''))))
          else if atyp = 0x04 then sbind (read_exact 16) (\<lambda>ip. ret (show_ipv6 (from_be_bytes ip)))
          else io_fail InvalidData (''SOCKS5 outbound proxy returned unsupported bound address type ''
                 @ show_radix 10 (unat atyp)))
       (\<lambda>host. sbind read_be_u16 (\<lambda>port. ret (endpoint_new host port)))))))"

definition socks5_connect_proxy :: "outbound_target \<Rightarrow> string \<Rightarrow> (duplex, io_error, unit) op" where
  "socks5_connect_proxy target credential =
     sbind (socks5_negotiate_proxy credential) (\<lambda>_.
     sbind (lift (append_socks5_target [0x05, 0x01, 0x00] target)) (\<lambda>request.
     sbind (write_all request) (\<lambda>_.
     sbind (read_socks5_reply_endpoint ''connect'') (\<lambda>_. ret ()))))"

definition socks5_udp_associate_proxy :: "string \<Rightarrow> (duplex, io_error, endpoint) op" where
  "socks5_udp_associate_proxy credential =
     sbind (socks5_negotiate_proxy credential) (\<lambda>_.
     sbind (write_all [0x05, 0x03, 0x00, 0x01, 0, 0, 0, 0, 0, 0]) (\<lambda>_.
     read_socks5_reply_endpoint ''UDP ASSOCIATE''))"

definition socks5_address_from_target :: "outbound_target \<Rightarrow> (io_error, socks5_address) outcome" where
  "socks5_address_from_target target =
     (let host = trim_brackets (trim (ot_host target)) in
      case parse_ipv4 host of
        Some ip \<Rightarrow> Ok (Socks5Ipv4 ip)
      | None \<Rightarrow> (case parse_ipv6 host of
          Some ip \<Rightarrow> Ok (Socks5Ipv6 ip)
        | None \<Rightarrow>
            if ot_host target \<noteq> [] \<and> length (ot_host target) \<le> 255 then Ok (Socks5Domain (ot_host target))
            else Err (IoError InvalidInput ''SOCKS5 UDP target domain length is invalid'')))"

section \<open>Each side understands the other\<close>

lemma socks5_read_prefix:
  "dx_incoming s = x @ rest \<Longrightarrow> length x = n \<Longrightarrow> socks5_read n s = (Ok x, s\<lparr>dx_incoming := rest\<rparr>)"
  by (simp add: with_err_def read_exact_prefix)

lemma socks5_read_u8_Cons: "dx_incoming s = b # rest \<Longrightarrow> socks5_read_u8 s = (Ok b, s\<lparr>dx_incoming := rest\<rparr>)"
  using socks5_read_prefix [of s "[b]" rest 1] by (simp add: socks5_read_u8_def sbind_def lift_def index_def)

lemma socks5_read_u16_prefix:
  "dx_incoming s = be_bytes 2 w @ rest \<Longrightarrow> socks5_read_u16 s = (Ok w, s\<lparr>dx_incoming := rest\<rparr>)"
  using socks5_read_prefix [of s "be_bytes 2 w" rest 2] by (simp add: socks5_read_u16_def sbind_def lift_def)

lemma of_nat_u8_neq_0: "0 < n \<Longrightarrow> n \<le> 255 \<Longrightarrow> (of_nat n :: u8) \<noteq> 0"
proof
  assume n: "0 < n" "n \<le> 255" and "(of_nat n :: u8) = 0"
  then have "unat (of_nat n :: u8) = 0" by simp
  with n show False by (simp add: unat_length_u8)
qed

lemma append_socks5_target_cases:
  assumes "append_socks5_target request target = Ok message"
  obtains (v4) ip where "socks5_address_from_target target = Ok (Socks5Ipv4 ip)"
      "message = request @ 0x01 # be_bytes 4 ip @ be_bytes 2 (ot_port target)"
  | (v6) ip where "socks5_address_from_target target = Ok (Socks5Ipv6 ip)"
      "message = request @ 0x04 # be_bytes 16 ip @ be_bytes 2 (ot_port target)"
  | (domain) "socks5_address_from_target target = Ok (Socks5Domain (ot_host target))"
      "0 < length (ot_host target)" "length (ot_host target) \<le> 255"
      "message = request @ 0x03 # of_nat (length (ot_host target)) # bytes_of_str (ot_host target)
        @ be_bytes 2 (ot_port target)"
proof -
  let ?h = "trim_brackets (trim (ot_host target))"
  show thesis
    using assms that
    by (cases "parse_ipv4 ?h"; cases "parse_ipv6 ?h")
      (auto simp: append_socks5_target_def socks5_address_from_target_def Let_def outcome_simps split: if_splits)
qed

lemma parse_socks5_address_prefix:
  assumes "append_socks5_target [] target = Ok message" and utf8: "utf8_str (ot_host target)"
    and incoming: "dx_incoming s = message @ rest"
  obtains address where "socks5_address_from_target target = Ok address"
    "parse_socks5_address s = (Ok address, s\<lparr>dx_incoming := be_bytes 2 (ot_port target) @ rest\<rparr>)"
  using assms(1)
proof (cases rule: append_socks5_target_cases)
  case (v4 ip)
  with incoming that show ?thesis
    by (simp add: parse_socks5_address_def sbind_def ret_def socks5_read_u8_Cons
        socks5_read_prefix [where x = "be_bytes 4 ip"])
next
  case (v6 ip)
  with incoming that show ?thesis
    by (simp add: parse_socks5_address_def sbind_def ret_def socks5_read_u8_Cons
        socks5_read_prefix [where x = "be_bytes 16 ip"])
next
  case domain
  with incoming that utf8 show ?thesis
    by (simp add: parse_socks5_address_def sbind_def ret_def lift_def socks5_read_u8_Cons of_nat_u8_neq_0
        unat_length_u8 socks5_read_prefix [where x = "bytes_of_str (ot_host target)"])
qed

lemma append_socks5_target_prefix:
  "append_socks5_target request target = Ok message \<Longrightarrow>
    \<exists>enc. append_socks5_target [] target = Ok enc \<and> message = request @ enc"
  by (auto simp: append_socks5_target_def Let_def outcome_simps split: option.splits if_splits)

lemma parse_socks5_request_prefix:
  assumes request: "append_socks5_target [0x05, 0x01, 0x00] target = Ok message"
    and utf8: "utf8_str (ot_host target)" and incoming: "dx_incoming s = message @ rest"
  obtains address where "socks5_address_from_target target = Ok address"
    "parse_socks5_request s
      = (Ok \<lparr>sr_command = CommandConnect, sr_address = address, sr_port = ot_port target\<rparr>, s\<lparr>dx_incoming := rest\<rparr>)"
proof -
  obtain enc where enc: "append_socks5_target [] target = Ok enc" and message: "message = 0x05 # 0x01 # 0x00 # enc"
    using append_socks5_target_prefix [OF request] by auto
  obtain address where address: "socks5_address_from_target target = Ok address"
      "parse_socks5_address (s\<lparr>dx_incoming := enc @ rest\<rparr>)
        = (Ok address, s\<lparr>dx_incoming := be_bytes 2 (ot_port target) @ rest\<rparr>)"
    using parse_socks5_address_prefix [OF enc utf8, of "s\<lparr>dx_incoming := enc @ rest\<rparr>" rest] by auto
  then show thesis
    using incoming that message
    by (simp add: parse_socks5_request_def sbind_def ret_def lift_def socks5_read_u8_Cons
        socks5_read_u16_prefix [where w = "ot_port target"])
qed

lemma read_reply:
  assumes "dx_incoming s = socks5_reply code @ rest"
  shows "\<exists>s'. read_socks5_reply_endpoint operation s =
    (if code = Succeeded then Ok (endpoint_new (show_ipv4 0) 0)
     else Err (IoError ConnectionRefused (''SOCKS5 outbound '' @ operation @ '' failed with status ''
       @ show_radix 10 (unat (reply_code_as_byte code)))), s') \<and> dx_outgoing s' = dx_outgoing s"
proof -
  have head: "dx_incoming s = [0x05, reply_code_as_byte code, 0x00, 0x01] @ [0, 0, 0, 0] @ be_bytes 2 (0 :: u16) @ rest"
    using assms by (simp add: socks5_reply_def be_bytes_u16)
  have status: "reply_code_as_byte code = 0 \<longleftrightarrow> code = Succeeded" by (cases code) simp_all
  have first: "read_exact 4 s = (Ok [0x05, reply_code_as_byte code, 0x00, 0x01],
      s\<lparr>dx_incoming := [0, 0, 0, 0] @ be_bytes 2 (0 :: u16) @ rest\<rparr>)"
    by (rule read_exact_prefix [OF head]) simp
  show ?thesis
    unfolding read_socks5_reply_endpoint_def sbind_apply(1) [where m = "read_exact 4" and s = s, OF first]
    by (simp add: status sbind_def lift_def ret_def index_def
        read_exact_prefix [where x = "[0, 0, 0, 0]"] read_be_u16_prefix [where w = 0] from_be_bytes_def be_step_def)
qed

lemma negotiate_no_auth:
  assumes "dx_incoming s = socks5_no_auth_response @ rest" and "dx_write_error s = None"
  shows "socks5_negotiate_proxy credential s = (Ok (), s\<lparr>dx_incoming := rest, dx_outgoing := dx_outgoing s
    @ (if split_proxy_credential credential \<noteq> None then [0x05, 0x02, 0x00, 0x02] else [0x05, 0x01, 0x00])\<rparr>)"
proof -
  have "read_exact 2 (s\<lparr>dx_outgoing := out\<rparr>) = (Ok socks5_no_auth_response, s\<lparr>dx_incoming := rest, dx_outgoing := out\<rparr>)" for out
    using read_exact_prefix [of "s\<lparr>dx_outgoing := out\<rparr>" socks5_no_auth_response rest 2] assms(1)
    by (simp add: socks5_no_auth_response_def)
  with assms(2) show ?thesis
    by (simp add: socks5_negotiate_proxy_def Let_def sbind_def lift_def ret_def write_all_def index_def
        socks5_no_auth_response_def)
qed

lemma parse_greeting:
  assumes "greeting = (if offers_password then [0x05, 0x02, 0x00, 0x02] else [0x05, 0x01, 0x00])"
  shows "\<exists>offered. parse_socks5_handshake (i\<lparr>dx_incoming := greeting @ rest\<rparr>) = (Ok offered, i\<lparr>dx_incoming := rest\<rparr>)
    \<and> 0x00 \<in> set offered"
  using assms
  by (auto simp: parse_socks5_handshake_def sbind_def lift_def socks5_read_u8_Cons
      socks5_read_prefix [where x = "[0x00, 0x02]"] socks5_read_prefix [where x = "[0x00]"])

text \<open>
  C22. The SOCKS5 client and the SOCKS5 inbound of the program understand each other. Facing a server that
  asks for no authentication and answers with a reply of the inbound, the client succeeds exactly on
  \<open>Succeeded\<close> and reports every other reply as a refused connection with its status; and what it has
  written is a greeting that offers the selected method followed by a request which the inbound parses
  to the address and port of the target.
\<close>

theorem socks5_client_meets_inbound:
  assumes request: "append_socks5_target [0x05, 0x01, 0x00] target = Ok request"
    and utf8: "utf8_str (ot_host target)"
    and incoming: "dx_incoming c = socks5_no_auth_response @ socks5_reply code @ rest"
    and writable: "dx_write_error c = None"
  shows "\<exists>c' greeting offered address.
    socks5_connect_proxy target credential c =
      (if code = Succeeded then Ok ()
       else Err (IoError ConnectionRefused (''SOCKS5 outbound connect failed with status ''
         @ show_radix 10 (unat (reply_code_as_byte code)))), c')
    \<and> dx_outgoing c' = dx_outgoing c @ greeting @ request
    \<and> parse_socks5_handshake (i\<lparr>dx_incoming := greeting @ request\<rparr>) = (Ok offered, i\<lparr>dx_incoming := request\<rparr>)
    \<and> 0x00 \<in> set offered
    \<and> socks5_address_from_target target = Ok address
    \<and> parse_socks5_request (i\<lparr>dx_incoming := request\<rparr>)
      = (Ok \<lparr>sr_command = CommandConnect, sr_address = address, sr_port = ot_port target\<rparr>, i\<lparr>dx_incoming := []\<rparr>)"
proof -
  let ?greeting = "if split_proxy_credential credential \<noteq> None then [0x05, 0x02, 0x00, 0x02] else [0x05, 0x01, 0x00 :: u8]"
  let ?c1 = "c\<lparr>dx_incoming := socks5_reply code @ rest, dx_outgoing := (dx_outgoing c @ ?greeting) @ request\<rparr>"
  obtain c' where reply: "read_socks5_reply_endpoint ''connect'' ?c1 =
      (if code = Succeeded then Ok (endpoint_new (show_ipv4 0) 0)
       else Err (IoError ConnectionRefused (''SOCKS5 outbound '' @ ''connect'' @ '' failed with status ''
         @ show_radix 10 (unat (reply_code_as_byte code)))), c')" and out: "dx_outgoing c' = dx_outgoing ?c1"
    using read_reply [of ?c1 code rest "''connect''"] by auto
  have "socks5_connect_proxy target credential c =
      (if code = Succeeded then Ok ()
       else Err (IoError ConnectionRefused (''SOCKS5 outbound connect failed with status ''
         @ show_radix 10 (unat (reply_code_as_byte code)))), c')"
    using negotiate_no_auth [OF incoming writable, of credential] request reply writable
    by (simp add: socks5_connect_proxy_def sbind_def lift_def ret_def write_all_def)
  moreover have "dx_outgoing c' = dx_outgoing c @ ?greeting @ request" using out by simp
  moreover obtain offered where
      "parse_socks5_handshake (i\<lparr>dx_incoming := ?greeting @ request\<rparr>) = (Ok offered, i\<lparr>dx_incoming := request\<rparr>)"
      "0x00 \<in> set offered"
    using parse_greeting [OF refl, where offers_password = "split_proxy_credential credential \<noteq> None" and i = i and rest = request] by blast
  moreover obtain address where "socks5_address_from_target target = Ok address"
      "parse_socks5_request (i\<lparr>dx_incoming := request\<rparr>)
        = (Ok \<lparr>sr_command = CommandConnect, sr_address = address, sr_port = ot_port target\<rparr>, i\<lparr>dx_incoming := []\<rparr>)"
    using parse_socks5_request_prefix [OF request utf8, of "i\<lparr>dx_incoming := request\<rparr>" "[]"] by auto
  ultimately show ?thesis by blast
qed

definition sample_target :: outbound_target where
  "sample_target = outbound_target_new ''server.example'' 853"

lemma sample_socks5_request:
  "append_socks5_target [0x05, 0x01, 0x00] sample_target
    = Ok ([0x05, 0x01, 0x00, 0x03, 14] @ bytes_of_str ''server.example'' @ be_bytes 2 (853 :: u16))"
  using sample_target_host
  by (simp add: sample_target_def outbound_target_new_def append_socks5_target_def Let_def sample_not_ip
      target_host_def sample_endpoint_def endpoint_new_def)

theorem socks5_client_meets_inbound_witness:
  "fst (socks5_connect_proxy sample_target []
      \<lparr>dx_incoming = socks5_no_auth_response @ socks5_reply Succeeded, dx_end = IoError UnexpectedEof [],
       dx_outgoing = [], dx_write_error = None\<rparr>) = Ok ()"
proof -
  let ?c = "\<lparr>dx_incoming = socks5_no_auth_response @ socks5_reply Succeeded, dx_end = IoError UnexpectedEof [],
       dx_outgoing = [], dx_write_error = None\<rparr>"
  have "utf8_str (ot_host sample_target)"
    using sample_utf8 by (simp add: sample_target_def outbound_target_new_def sample_endpoint_def endpoint_new_def)
  from socks5_client_meets_inbound [OF sample_socks5_request this, of ?c Succeeded "[]" "[]" ?c]
  show ?thesis by auto
qed

fun trimmed_address :: "socks5_address \<Rightarrow> socks5_address" where
  "trimmed_address (Socks5Domain domain) = Socks5Domain (trim domain)"
| "trimmed_address address = address"

fun utf8_address :: "socks5_address \<Rightarrow> bool" where
  "utf8_address (Socks5Domain domain) \<longleftrightarrow> utf8_str domain"
| "utf8_address address \<longleftrightarrow> True"

lemma read_slice_append:
  "length pre = i \<Longrightarrow> length x = n \<Longrightarrow> read_slice (pre @ x @ rest) i n = Ok (x, i + n)"
  by (simp add: read_slice_def slice_append)

text \<open>
  Parsing an encoded SOCKS5 datagram gives the address (a domain trimmed), the port and the payload.
\<close>

theorem socks5_udp_roundtrip:
  assumes "encode_socks5_udp_datagram address port payload = Ok datagram" and "utf8_address address"
  shows "parse_socks5_udp_datagram datagram
    = Ok \<lparr>sd_address = trimmed_address address, sd_port = port, sd_payload = payload\<rparr>"
proof (cases address)
  case (Socks5Ipv4 ip)
  let ?d = "[0, 0, 0, 0x01] @ be_bytes 4 ip @ be_bytes 2 port @ payload"
  have "read_slice ?d 4 4 = Ok (be_bytes 4 ip, 8)" using read_slice_append [of "[0, 0, 0, 0x01]" 4 "be_bytes 4 ip" 4] by simp
  moreover have "read_slice ?d 8 2 = Ok (be_bytes 2 port, 10)"
    using read_slice_append [of "[0, 0, 0, 0x01] @ be_bytes 4 ip" 8 "be_bytes 2 port" 2] by simp
  moreover have "datagram = ?d" using assms(1) Socks5Ipv4 by (simp add: encode_socks5_udp_datagram_def)
  ultimately show ?thesis using Socks5Ipv4 by (simp add: parse_socks5_udp_datagram_def slice_from_def)
next
  case (Socks5Ipv6 ip)
  let ?d = "[0, 0, 0, 0x04] @ be_bytes 16 ip @ be_bytes 2 port @ payload"
  have "read_slice ?d 4 16 = Ok (be_bytes 16 ip, 20)" using read_slice_append [of "[0, 0, 0, 0x04]" 4 "be_bytes 16 ip" 16] by simp
  moreover have "read_slice ?d 20 2 = Ok (be_bytes 2 port, 22)"
    using read_slice_append [of "[0, 0, 0, 0x04] @ be_bytes 16 ip" 20 "be_bytes 2 port" 2] by simp
  moreover have "datagram = ?d" using assms(1) Socks5Ipv6 by (simp add: encode_socks5_udp_datagram_def)
  ultimately show ?thesis
    using Socks5Ipv6 by (simp add: parse_socks5_udp_datagram_def slice_from_def copy_from_slice_def)
next
  case (Socks5Domain domain)
  let ?h = "bytes_of_str (trim domain)" and ?n = "length (trim domain)"
  let ?d = "[0, 0, 0, 0x03, of_nat ?n] @ ?h @ be_bytes 2 port @ payload"
  have n: "0 < ?n" "?n \<le> 255" and d: "datagram = ?d"
    using assms(1) Socks5Domain by (auto simp: encode_socks5_udp_datagram_def split: if_splits)
  have "read_slice ?d 4 1 = Ok ([of_nat ?n], 5)"
    using read_slice_append [of "[0, 0, 0, 0x03]" 4 "[of_nat ?n]" 1 "?h @ be_bytes 2 port @ payload"] by simp
  moreover have "read_slice ?d 5 ?n = Ok (?h, 5 + ?n)"
    by (rule read_slice_append) simp_all
  moreover have "read_slice ?d (5 + ?n) 2 = Ok (be_bytes 2 port, 7 + ?n)"
    using read_slice_append [of "[0, 0, 0, 0x03, of_nat ?n] @ ?h" "5 + ?n" "be_bytes 2 port" 2] by simp
  moreover have "slice_from ?d (7 + ?n) = (Ok payload :: (socks5_error, bytes) outcome)"
    using slice_from_append [of "[0, 0, 0, 0x03, of_nat ?n] @ ?h @ be_bytes 2 port" "7 + ?n" payload] by simp
  ultimately show ?thesis
    using d n Socks5Domain assms(2)
    by (simp add: parse_socks5_udp_datagram_def of_nat_u8_neq_0 unat_length_u8)
qed

theorem socks5_udp_roundtrip_witness:
  "\<exists>datagram. encode_socks5_udp_datagram (Socks5Ipv4 0x01020304) 53 [7, 8] = Ok datagram
    \<and> parse_socks5_udp_datagram datagram = Ok \<lparr>sd_address = Socks5Ipv4 0x01020304, sd_port = 53, sd_payload = [7, 8]\<rparr>"
  using socks5_udp_roundtrip [of "Socks5Ipv4 0x01020304" 53 "[7, 8]"] by (simp add: encode_socks5_udp_datagram_def)

section \<open>Parsers never panic\<close>

lemma panic_free_with_err: "panic_free m \<Longrightarrow> panic_free (with_err g m)"
  by (simp add: panic_free_def with_err_def split: prod.split) (metis fst_conv map_err_Panic_iff)

lemma panic_free_socks5_read: "panic_free (socks5_read n)" "panic_free socks5_read_u8" "panic_free socks5_read_u16"
proof -
  show "panic_free (socks5_read n)" for n by (intro panic_free_with_err panic_free_rules)
  show "panic_free socks5_read_u8" "panic_free socks5_read_u16"
    by (auto simp: panic_free_def socks5_read_u8_def socks5_read_u16_def with_err_def read_exact_def sbind_def
        lift_def index_def read_u16_def)
qed

lemma read_slice_Ok: "read_slice input i n = Ok (bs, j) \<Longrightarrow> length bs = n \<and> j \<le> length input"
  by (auto simp: read_slice_def slice_def split: if_splits)

lemma read_slice_total: "read_slice input i n \<noteq> Panic"
  by (simp add: read_slice_def slice_def)

text \<open>
  The SOCKS5 inbound answers every client: its handshake, request and datagram parsers return a value
  or an error whatever the client sends and wherever its stream ends.
\<close>

theorem socks5_parsers_total:
  "fst (parse_socks5_handshake s) \<noteq> Panic \<and> fst (parse_socks5_request s) \<noteq> Panic
   \<and> parse_socks5_udp_datagram datagram \<noteq> Panic"
proof (intro conjI)
  have "panic_free parse_socks5_handshake"
    unfolding parse_socks5_handshake_def by (intro panic_free_rules panic_free_socks5_read) simp_all
  then show "fst (parse_socks5_handshake s) \<noteq> Panic" by (simp add: panic_free_def)
  have "panic_free parse_socks5_request"
    unfolding parse_socks5_request_def parse_socks5_address_def
    by (intro panic_free_rules panic_free_socks5_read) simp_all
  then show "fst (parse_socks5_request s) \<noteq> Panic" by (simp add: panic_free_def)
  show "parse_socks5_udp_datagram datagram \<noteq> Panic"
    by (auto simp: parse_socks5_udp_datagram_def outcome_simps read_slice_total copy_from_slice_def slice_from_def
        split: list.splits if_splits dest!: read_slice_Ok)
qed

end
