(* ===== verification/Keli_Http_Proxy.thy ===== *)
theory Keli_Http_Proxy
  imports Keli_Socks5
begin

text \<open>
  HTTP on the proxy connections: the inbound's \<open>CONNECT\<close> parser (\<open>http_connect.rs\<close>), its parser of plain
  proxy requests with the rewriting of the header (\<open>http_proxy.rs\<close>), and the client towards an HTTP proxy
  and an HTTPUpgrade server (\<open>direct.rs\<close>).
\<close>

section \<open>Splitting text\<close>

text \<open>\<open>split_whitespace\<close>: the maximal runs without white space.\<close>

fun take_token :: "string \<Rightarrow> string \<times> string" where
  "take_token [] = ([], [])"
| "take_token (c # s) =
     (if whitespace_len whitespace_strs (c # s) \<noteq> 0 then ([], c # s)
      else case take_token s of (token, rest) \<Rightarrow> (c # token, rest))"

lemma take_token_append: "take_token s = (token, rest) \<Longrightarrow> s = token @ rest"
  by (induction s arbitrary: token) (auto split: if_splits prod.splits)

lemma trim_start_no_space: "no_space_prefix whitespace_strs (trim_start s)"
  by (simp add: trim_start_def no_space_prefix_trim_leading whitespace_strs_nonempty)

lemma take_token_progress:
  assumes "trim_start s \<noteq> []" "take_token (trim_start s) = (token, rest)"
  shows "length rest < length s"
proof -
  have "whitespace_len whitespace_strs (trim_start s) = 0"
    using trim_start_no_space whitespace_len_zero [OF whitespace_strs_nonempty(1)] by blast
  with assms have "token \<noteq> []" by (cases "trim_start s") (auto split: prod.splits)
  with take_token_append [OF assms(2)] have "length rest < length (trim_start s)" by simp
  also have "\<dots> \<le> length s"
    using trim_leading_suffix [of whitespace_strs s] by (simp add: trim_start_def suffix_length_le)
  finally show ?thesis .
qed

function split_whitespace :: "string \<Rightarrow> string list" where
  "split_whitespace s =
     (let t = trim_start s in
      if t = [] then [] else fst (take_token t) # split_whitespace (snd (take_token t)))"
  by pat_completeness auto
termination
  by (relation "measure length") (auto intro: take_token_progress simp: prod_eq_iff)

declare split_whitespace.simps [simp del]

text \<open>Splitting at a string: \<open>split_once("..")\<close> and \<open>split("..")\<close>.\<close>

fun split_once_str :: "string \<Rightarrow> string \<Rightarrow> (string \<times> string) option" where
  "split_once_str p [] = (if p = [] then Some ([], []) else None)"
| "split_once_str p (c # s) =
     (if prefix p (c # s) then Some ([], drop (length p) (c # s))
      else map_option (\<lambda>(a, b). (c # a, b)) (split_once_str p s))"

lemma split_once_str_append: "split_once_str p s = Some (a, b) \<Longrightarrow> s = a @ p @ b"
  by (induction s arbitrary: a) (auto split: if_splits simp: prefix_def)

abbreviation crlf_text :: string where
  "crlf_text \<equiv> [CHR 0x0D, CHR 0x0A]"

function split_crlf :: "string \<Rightarrow> string list" where
  "split_crlf s = (case split_once_str crlf_text s of
      None \<Rightarrow> [s]
    | Some (line, rest) \<Rightarrow> line # split_crlf rest)"
  by pat_completeness auto
termination
  by (relation "measure length") (auto dest!: split_once_str_append)

declare split_crlf.simps [simp del]

section \<open>Reading a header\<close>

definition header_end :: bytes where
  "header_end = [0x0D, 0x0A, 0x0D, 0x0A]"

definition ends_header :: "bytes \<Rightarrow> bool" where
  "ends_header header \<longleftrightarrow> suffix header_end header"

text \<open>
  The loop that reads a header byte by byte; the first argument is what the header may still grow by.
  \<open>None\<close> means that the loop ran to its bound.
\<close>

fun header_loop :: "nat \<Rightarrow> bytes \<Rightarrow> (duplex, io_error, bytes option) op" where
  "header_loop 0 header = ret None"
| "header_loop (Suc room) header = sbind read_byte (\<lambda>b.
     if ends_header (header @ [b]) then ret (Some (header @ [b])) else header_loop room (header @ [b]))"

section \<open>The \<open>CONNECT\<close> inbound\<close>

record http_connect_request =
  hc_host :: string
  hc_port :: u16
  hc_http_version :: string

datatype http_connect_error =
    ConnectIo string
  | ConnectHeaderTooLarge
  | ConnectInvalidUtf8
  | ConnectMissingRequestLine
  | ConnectInvalidRequestLine
  | ConnectUnsupportedMethod string
  | ConnectMissingTargetPort
  | ConnectInvalidPort string
  | ConnectEmptyHost

definition max_connect_header_bytes :: nat where
  "max_connect_header_bytes = 16 * 1024"

definition connect_read_header :: "(duplex, http_connect_error, bytes) op" where
  "connect_read_header =
     sbind (with_err (\<lambda>e. ConnectIo (error_message e)) (header_loop max_connect_header_bytes []))
       (\<lambda>header. lift (ok_or header ConnectHeaderTooLarge))"

definition parse_target :: "string \<Rightarrow> (http_connect_error, string \<times> u16) outcome" where
  "parse_target target =
     obind
       (case strip_prefix ''['' target of
          Some rest \<Rightarrow>
            obind (ok_or (split_once CHR '']'' rest) ConnectMissingTargetPort) (\<lambda>(host, rest).
            obind (ok_or (strip_prefix '':'' rest) ConnectMissingTargetPort) (\<lambda>port. Ok (host, port)))
        | None \<Rightarrow> ok_or (rsplit_once CHR '':'' target) ConnectMissingTargetPort)
       (\<lambda>(host, port).
          if trim host = [] then Err ConnectEmptyHost
          else obind (ok_or (parse_u16 port) (ConnectInvalidPort port)) (\<lambda>port. Ok (host, port)))"

text \<open>The request line as three words.\<close>

definition three_words :: "'e \<Rightarrow> string \<Rightarrow> ('e, string \<times> string \<times> string) outcome" where
  "three_words invalid request_line = (case split_whitespace request_line of
      [a, b, c] \<Rightarrow> Ok (a, b, c)
    | _ \<Rightarrow> Err invalid)"

definition connect_of_header :: "bytes \<Rightarrow> (http_connect_error, http_connect_request) outcome" where
  "connect_of_header header =
     obind (ok_or (from_utf8 header) ConnectInvalidUtf8) (\<lambda>header.
     case lines header of
       [] \<Rightarrow> Err ConnectMissingRequestLine
     | request_line # _ \<Rightarrow>
         obind (three_words ConnectInvalidRequestLine request_line) (\<lambda>(method, target, http_version).
         if \<not> eq_ignore_ascii_case method ''CONNECT'' then Err (ConnectUnsupportedMethod method)
         else obind (parse_target target) (\<lambda>(host, port).
           Ok \<lparr>hc_host = host, hc_port = port, hc_http_version = http_version\<rparr>)))"

definition parse_http_connect_request :: "(duplex, http_connect_error, http_connect_request) op" where
  "parse_http_connect_request = sbind connect_read_header (\<lambda>header. lift (connect_of_header header))"

definition http_connect_success_response :: bytes where
  "http_connect_success_response =
     bytes_of_str (''HTTP/1.1 200 Connection Established'' @ crlf_text @ crlf_text)"

definition http_connect_bad_request_response :: bytes where
  "http_connect_bad_request_response = bytes_of_str (''HTTP/1.1 400 Bad Request'' @ crlf_text @ crlf_text)"

section \<open>The plain proxy inbound\<close>

record http_proxy_request =
  hp_method :: string
  hp_host :: string
  hp_port :: u16
  hp_path_and_query :: string
  hp_http_version :: string
  hp_rewritten_header :: bytes

datatype http_proxy_error =
    ProxyIo string
  | ProxyHeaderTooLarge
  | ProxyInvalidUtf8
  | ProxyMissingRequestLine
  | ProxyInvalidRequestLine
  | ProxyUnsupportedScheme string
  | ProxyMissingHost
  | ProxyEmptyHost
  | ProxyInvalidPort string

definition max_http_proxy_header_bytes :: nat where
  "max_http_proxy_header_bytes = 16 * 1024"

definition proxy_read_header :: "(duplex, http_proxy_error, bytes) op" where
  "proxy_read_header =
     sbind (with_err (\<lambda>e. ProxyIo (error_message e)) (header_loop max_http_proxy_header_bytes []))
       (\<lambda>header. lift (ok_or header ProxyHeaderTooLarge))"

definition parse_port :: "string \<Rightarrow> u16 \<Rightarrow> (http_proxy_error, u16) outcome" where
  "parse_port value default_port =
     (if value = [] then Ok default_port else ok_or (parse_u16 value) (ProxyInvalidPort value))"

definition parse_host_port :: "string \<Rightarrow> u16 \<Rightarrow> (http_proxy_error, string \<times> u16) outcome" where
  "parse_host_port value default_port =
     (let value = trim value in
      if value = [] then Err ProxyEmptyHost
      else obind
        (case strip_prefix ''['' value of
           Some rest \<Rightarrow>
             obind (ok_or (split_once CHR '']'' rest) ProxyMissingHost) (\<lambda>(host, rest).
             obind (parse_port (case strip_prefix '':'' rest of Some port \<Rightarrow> port | None \<Rightarrow> []) default_port)
               (\<lambda>port. Ok (host, port)))
         | None \<Rightarrow> (case rsplit_once CHR '':'' value of
             Some (host, port) \<Rightarrow>
               if CHR '':'' \<in> set host then Ok (value, default_port)
               else obind (parse_port port default_port) (\<lambda>port. Ok (host, port))
           | None \<Rightarrow> Ok (value, default_port)))
        (\<lambda>(host, port). if trim host = [] then Err ProxyEmptyHost else Ok (host, port)))"

definition normalize_origin_path :: "string \<Rightarrow> string" where
  "normalize_origin_path path =
     (if path = [] then ''/'' else if starts_with path ''/'' then path else CHR ''/'' # path)"

definition parse_absolute_http_target :: "string \<Rightarrow> (http_proxy_error, string \<times> u16 \<times> string) outcome" where
  "parse_absolute_http_target rest =
     (let (authority, path) = (case split_once CHR ''/'' rest of
            Some (authority, path) \<Rightarrow> (authority, CHR ''/'' # path)
          | None \<Rightarrow> (rest, ''/'')) in
      obind (parse_host_port authority 80) (\<lambda>(host, port). Ok (host, port, normalize_origin_path path)))"

definition host_header_value :: "string \<Rightarrow> string option" where
  "host_header_value line = (case split_once CHR '':'' line of
      Some (name, value) \<Rightarrow> if eq_ignore_ascii_case name ''host'' then Some (trim value) else None
    | None \<Rightarrow> None)"

definition find_host_header :: "string \<Rightarrow> string option" where
  "find_host_header header_text =
     (case List.map_filter host_header_value (drop 1 (lines header_text)) of [] \<Rightarrow> None | v # _ \<Rightarrow> Some v)"

fun copy_lines :: "string list \<Rightarrow> string" where
  "copy_lines [] = []"
| "copy_lines (line # rest) = (if line = [] then crlf_text else line @ crlf_text @ copy_lines rest)"

definition rewrite_header :: "string \<Rightarrow> string \<Rightarrow> string \<Rightarrow> string \<Rightarrow> bytes" where
  "rewrite_header header_text method path_and_query http_version =
     bytes_of_str ((method @ '' '' @ path_and_query @ '' '' @ http_version @ crlf_text)
       @ copy_lines (drop 1 (split_crlf header_text)))"

definition proxy_request_target :: "string \<Rightarrow> string \<Rightarrow> (http_proxy_error, string \<times> u16 \<times> string) outcome" where
  "proxy_request_target header_text target = (case strip_prefix ''http://'' target of
      Some rest \<Rightarrow> parse_absolute_http_target rest
    | None \<Rightarrow> (case split_once_str ''://'' target of
        Some (scheme, _) \<Rightarrow> Err (ProxyUnsupportedScheme scheme)
      | None \<Rightarrow>
          obind (ok_or (find_host_header header_text) ProxyMissingHost) (\<lambda>host.
          obind (parse_host_port host 80) (\<lambda>(host, port).
          Ok (host, port, normalize_origin_path target)))))"

definition proxy_of_header :: "bytes \<Rightarrow> (http_proxy_error, http_proxy_request) outcome" where
  "proxy_of_header header =
     obind (ok_or (from_utf8 header) ProxyInvalidUtf8) (\<lambda>header_text.
     case lines header_text of
       [] \<Rightarrow> Err ProxyMissingRequestLine
     | request_line # _ \<Rightarrow>
         obind (three_words ProxyInvalidRequestLine request_line) (\<lambda>(method, target, http_version).
         obind (proxy_request_target header_text target) (\<lambda>(host, port, path_and_query).
           Ok \<lparr>hp_method = method, hp_host = host, hp_port = port, hp_path_and_query = path_and_query,
             hp_http_version = http_version,
             hp_rewritten_header = rewrite_header header_text method path_and_query http_version\<rparr>)))"

definition parse_http_proxy_request :: "(duplex, http_proxy_error, http_proxy_request) op" where
  "parse_http_proxy_request = sbind proxy_read_header (\<lambda>header. lift (proxy_of_header header))"

section \<open>The client of an HTTP proxy\<close>

definition proxy_target_authority :: "outbound_target \<Rightarrow> string" where
  "proxy_target_authority target =
     (let host = trim_brackets (trim (ot_host target)) in
      if parse_ipv6 host \<noteq> None then ''['' @ host @ '']:'' @ show_u16 (ot_port target)
      else host @ '':'' @ show_u16 (ot_port target))"

text \<open>The request text; \<open>base64\<close> stands for the encoder of the \<open>base64\<close> crate.\<close>

definition http_connect_request_text :: "(bytes \<Rightarrow> string) \<Rightarrow> outbound_target \<Rightarrow> string \<Rightarrow> string" where
  "http_connect_request_text base64 target credential =
     (let authority = proxy_target_authority target; credential = trim credential in
      ''CONNECT '' @ authority @ '' HTTP/1.1'' @ crlf_text @ ''Host: '' @ authority @ crlf_text
      @ (if credential \<noteq> [] then ''Proxy-Authorization: Basic '' @ base64 (bytes_of_str credential) @ crlf_text else [])
      @ crlf_text)"

definition read_http_connect_response :: "(duplex, io_error, string) op" where
  "read_http_connect_response = sbind (header_loop 8192 []) (\<lambda>buffer. case buffer of
      Some bs \<Rightarrow> lift (ok_or (from_utf8 bs) (IoError InvalidData ''HTTP outbound response is not UTF-8''))
    | None \<Rightarrow> io_fail InvalidData ''HTTP outbound response headers are too large'')"

definition response_status :: "string \<Rightarrow> u16 option" where
  "response_status response = (case lines response of
      [] \<Rightarrow> None
    | line # _ \<Rightarrow> (case split_whitespace line of _ # status # _ \<Rightarrow> parse_u16 status | _ \<Rightarrow> None))"

definition http_connect_proxy :: "(bytes \<Rightarrow> string) \<Rightarrow> outbound_target \<Rightarrow> string \<Rightarrow> (duplex, io_error, unit) op" where
  "http_connect_proxy base64 target credential =
     sbind (write_all (bytes_of_str (http_connect_request_text base64 target credential))) (\<lambda>_.
     sbind read_http_connect_response (\<lambda>response.
     case response_status response of
       None \<Rightarrow> io_fail InvalidData ''HTTP outbound proxy returned invalid response''
     | Some status \<Rightarrow>
         if 200 \<le> status \<and> status < 300 then ret ()
         else io_fail ConnectionRefused (''HTTP outbound CONNECT failed with status '' @ show_u16 status)))"

section \<open>HTTPUpgrade\<close>

definition httpupgrade_header_limit :: nat where
  "httpupgrade_header_limit = 16 * 1024"

text \<open>The message of a response that is not UTF-8 is the standard library's and abbreviated here.\<close>

definition read_httpupgrade_response :: "(duplex, io_error, string) op" where
  "read_httpupgrade_response = sbind (header_loop httpupgrade_header_limit []) (\<lambda>bytes. case bytes of
      Some bs \<Rightarrow> lift (ok_or (from_utf8 bs) (IoError InvalidData ''invalid utf-8 sequence''))
    | None \<Rightarrow> io_fail InvalidData ''HTTPUpgrade response header is too large'')"

fun httpupgrade_headers :: "string list \<Rightarrow> bool \<Rightarrow> bool \<Rightarrow> bool \<times> bool" where
  "httpupgrade_headers [] saw_upgrade saw_connection = (saw_upgrade, saw_connection)"
| "httpupgrade_headers (line # rest) saw_upgrade saw_connection = (case split_once CHR '':'' line of
      None \<Rightarrow> httpupgrade_headers rest saw_upgrade saw_connection
    | Some (name, value) \<Rightarrow>
        let value = trim value in
        if eq_ignore_ascii_case name ''Upgrade'' \<and> eq_ignore_ascii_case value ''websocket''
        then httpupgrade_headers rest True saw_connection
        else if eq_ignore_ascii_case name ''Connection''
          \<and> list_ex (\<lambda>part. eq_ignore_ascii_case (trim part) ''upgrade'') (split_on CHR '','' value)
        then httpupgrade_headers rest saw_upgrade True
        else httpupgrade_headers rest saw_upgrade saw_connection)"

definition validate_httpupgrade_response :: "string \<Rightarrow> (io_error, unit) outcome" where
  "validate_httpupgrade_response response =
     (let parts = split_crlf response; status = hd parts in
      if \<not> str_contains status '' 101 '' then Err (IoError InvalidData ''HTTPUpgrade server did not switch protocols'')
      else if httpupgrade_headers (tl parts) False False = (True, True) then Ok ()
      else Err (IoError InvalidData ''HTTPUpgrade response is invalid''))"

definition connect_httpupgrade_client :: "string \<Rightarrow> string \<Rightarrow> (duplex, io_error, unit) op" where
  "connect_httpupgrade_client host path =
     (let path = trim path; path = (if path = [] then ''/'' else path); host = trim host in
      if host = [] then io_fail InvalidInput ''HTTPUpgrade host is required''
      else
        sbind (write_all (bytes_of_str (''GET '' @ path @ '' HTTP/1.1'' @ crlf_text @ ''Host: '' @ host @ crlf_text
          @ ''Connection: Upgrade'' @ crlf_text @ ''Upgrade: websocket'' @ crlf_text @ crlf_text))) (\<lambda>_.
        sbind read_httpupgrade_response (\<lambda>response. lift (validate_httpupgrade_response response))))"

end
