(* ===== verification/Keli_Http_Facts.thy ===== *)
theory Keli_Http_Facts
  imports Keli_Http_Proxy
begin

text \<open>
  The HTTP client and the HTTP inbound understand each other, headers are read to their end and never past
  it, and the rewritten header forwards every line after the request line.
\<close>

section \<open>Reading a header\<close>

lemma header_end_snoc: "ends_header (header @ [b]) \<longleftrightarrow> b = 0x0A \<and> suffix [0x0D, 0x0A, 0x0D] header"
  by (auto simp: ends_header_def header_end_def suffix_def append_eq_append_conv2 Cons_eq_append_conv append_eq_Cons_conv)

lemma header_end_snoc2: "ends_header (header @ [0x0D, 0x0A]) \<longleftrightarrow> suffix crlf header"
  using header_end_snoc [of "header @ [0x0D]" "0x0A"]
  by (auto simp: crlf_def suffix_def append_eq_append_conv2 Cons_eq_append_conv append_eq_Cons_conv)

lemma sublist_snoc_iff: "sublist x (s @ [b]) \<longleftrightarrow> suffix x (s @ [b]) \<or> sublist x s"
  using sublist_Cons_right [of "rev x" b "rev s"] sublist_rev [of x "s @ [b]"] by (simp add: suffix_to_prefix)

text \<open>
  What the loop reads: no panic, at most its bound, and a header is everything read, ending at the first
  empty line.
\<close>

lemma header_loop_reads:
  assumes "header_loop room header s = (r, s')" "\<not> sublist header_end header"
  shows "r \<noteq> Panic \<and> dx_outgoing s' = dx_outgoing s
    \<and> (\<exists>consumed. dx_incoming s = consumed @ dx_incoming s' \<and> length consumed \<le> room
      \<and> (\<forall>h. r = Ok (Some h) \<longrightarrow> h = header @ consumed \<and> ends_header h \<and> \<not> sublist header_end (butlast h)))"
  using assms
proof (induction room arbitrary: header s)
  case 0
  then show ?case by (auto simp: ret_def)
next
  case (Suc room)
  show ?case
  proof (cases "dx_incoming s")
    case Nil
    then have "read_byte s = (Err (dx_end s), s\<lparr>dx_incoming := []\<rparr>)"
      by (simp add: read_byte_def read_exact_def sbind_def)
    with Suc.prems Nil show ?thesis by (auto simp: sbind_def)
  next
    case (Cons b rest)
    note byte = read_byte_Cons [OF Cons]
    show ?thesis
    proof (cases "ends_header (header @ [b])")
      case True
      with Suc.prems byte Cons show ?thesis by (auto simp: sbind_def ret_def intro: exI [of _ "[b]"])
    next
      case False
      with Suc.prems byte have run: "header_loop room (header @ [b]) (s\<lparr>dx_incoming := rest\<rparr>) = (r, s')"
        by (simp add: sbind_def)
      have "\<not> sublist header_end (header @ [b])"
        using False Suc.prems(2) unfolding ends_header_def sublist_snoc_iff by blast
      from Suc.IH [OF run this] obtain consumed where
        "r \<noteq> Panic" "dx_outgoing s' = dx_outgoing s" "rest = consumed @ dx_incoming s'" "length consumed \<le> room"
        "\<forall>h. r = Ok (Some h) \<longrightarrow> h = (header @ [b]) @ consumed \<and> ends_header h \<and> \<not> sublist header_end (butlast h)"
        by auto
      with Cons show ?thesis by (auto intro!: exI [of _ "b # consumed"])
    qed
  qed
qed

lemma header_end_not_empty: "\<not> sublist header_end []"
  by (simp add: header_end_def)

text \<open>A header made of lines is read up to its empty line and not further.\<close>

definition line_bytes :: "bytes \<Rightarrow> bool" where
  "line_bytes l \<longleftrightarrow> l \<noteq> [] \<and> 0x0A \<notin> set l"

lemma header_loop_chars:
  "0x0A \<notin> set l \<Longrightarrow> length l \<le> room \<Longrightarrow> dx_incoming s = l @ rest
   \<Longrightarrow> header_loop room header s = header_loop (room - length l) (header @ l) (s\<lparr>dx_incoming := rest\<rparr>)"
proof (induction l arbitrary: room header s)
  case (Cons b l)
  then obtain room' where room: "room = Suc room'" by (cases room) auto
  have "read_byte s = (Ok b, s\<lparr>dx_incoming := l @ rest\<rparr>)" using Cons.prems by (intro read_byte_Cons) simp
  moreover have "\<not> ends_header (header @ [b])" using Cons.prems(1) by (auto simp: header_end_snoc)
  ultimately show ?case
    using Cons.IH [of room' "s\<lparr>dx_incoming := l @ rest\<rparr>" "header @ [b]"] Cons.prems room
    by (simp add: sbind_def)
next
  case Nil
  then show ?case by (cases s) auto
qed

lemma header_loop_line:
  assumes l: "line_bytes l" and room: "length l + 2 \<le> room" and s: "dx_incoming s = l @ crlf @ rest"
  shows "header_loop room header s = header_loop (room - (length l + 2)) (header @ l @ crlf) (s\<lparr>dx_incoming := rest\<rparr>)"
proof -
  let ?s = "s\<lparr>dx_incoming := 0x0A # rest\<rparr>"
  obtain m where m: "room - (length l + 1) = Suc m" "m = room - (length l + 2)" using room by (cases "room - (length l + 1)") auto
  have "header_loop room header s = header_loop (Suc m) (header @ l @ [0x0D]) ?s"
    using header_loop_chars [of "l @ [0x0D]" room s "0x0A # rest" header] l room s m(1)
    by (simp add: line_bytes_def crlf_def)
  moreover have "\<not> ends_header (header @ l @ [0x0D, 0x0A])"
  proof -
    obtain k b where "l = k @ [b]" "b \<noteq> 0x0A" using l by (cases l rule: rev_cases) (auto simp: line_bytes_def)
    then show ?thesis using header_end_snoc2 [of "header @ l"] by (auto simp: crlf_def suffix_def)
  qed
  ultimately show ?thesis
    using read_byte_Cons [of ?s "0x0A" rest] by (simp add: sbind_def m(2) crlf_def)
qed

lemma header_loop_lines:
  "list_all line_bytes ls \<Longrightarrow> length (concat (map (\<lambda>l. l @ crlf) ls)) \<le> room
   \<Longrightarrow> dx_incoming s = concat (map (\<lambda>l. l @ crlf) ls) @ rest
   \<Longrightarrow> header_loop room header s
      = header_loop (room - length (concat (map (\<lambda>l. l @ crlf) ls))) (header @ concat (map (\<lambda>l. l @ crlf) ls))
          (s\<lparr>dx_incoming := rest\<rparr>)"
proof (induction ls arbitrary: room header s)
  case (Cons l ls)
  let ?rest = "concat (map (\<lambda>l. l @ crlf) ls) @ rest"
  have two: "length crlf = 2" by (simp add: crlf_def)
  have "header_loop room header s = header_loop (room - (length l + 2)) (header @ l @ crlf) (s\<lparr>dx_incoming := ?rest\<rparr>)"
    using Cons.prems two by (intro header_loop_line) simp_all
  also have "\<dots> = header_loop (room - (length l + 2) - length (concat (map (\<lambda>l. l @ crlf) ls)))
      ((header @ l @ crlf) @ concat (map (\<lambda>l. l @ crlf) ls)) (s\<lparr>dx_incoming := ?rest, dx_incoming := rest\<rparr>)"
    using Cons.prems two by (intro Cons.IH) simp_all
  finally show ?case using two by simp
next
  case Nil
  then show ?case by (cases s) auto
qed

lemma header_loop_text:
  assumes ls: "ls \<noteq> []" "list_all line_bytes ls" and whole: "whole = concat (map (\<lambda>l. l @ crlf) ls) @ crlf"
    and room: "length whole \<le> room" and s: "dx_incoming s = whole @ rest"
  shows "header_loop room [] s = (Ok (Some whole), s\<lparr>dx_incoming := rest\<rparr>)"
proof -
  let ?t = "concat (map (\<lambda>l. l @ crlf) ls)"
  have two: "length crlf = 2" by (simp add: crlf_def)
  obtain m where m: "room - length ?t = Suc (Suc m)"
    using room two whole by (auto simp: Suc_le_eq intro: that [of "room - length ?t - 2"])
  obtain x where x: "?t = x @ crlf" using ls(1) by (cases ls rule: rev_cases) auto
  have "header_loop room [] s = header_loop (Suc (Suc m)) ?t (s\<lparr>dx_incoming := crlf @ rest\<rparr>)"
    using header_loop_lines [OF ls(2), of room s "crlf @ rest" "[]"] room s whole m by simp
  moreover have "\<not> ends_header (?t @ [0x0D])" "ends_header (?t @ [0x0D, 0x0A])"
    using header_end_snoc2 [of ?t] header_end_snoc [of ?t "0x0D"] by (auto simp: x suffix_def)
  ultimately show ?thesis
    using read_byte_Cons [of "s\<lparr>dx_incoming := crlf @ rest\<rparr>" "0x0D" "0x0A # rest"]
      read_byte_Cons [of "s\<lparr>dx_incoming := 0x0A # rest\<rparr>" "0x0A" rest]
    by (simp add: sbind_def ret_def whole crlf_def)
qed


section \<open>Text made of lines\<close>

text \<open>Printable ASCII, space included.\<close>

definition printable :: "string \<Rightarrow> bool" where
  "printable s \<longleftrightarrow> list_all (\<lambda>c. 32 \<le> char_code c \<and> char_code c < 127) s"

lemma printable_simps [simp]:
  "printable []" "printable (c # s) \<longleftrightarrow> 32 \<le> char_code c \<and> char_code c < 127 \<and> printable s"
  "printable (a @ b) \<longleftrightarrow> printable a \<and> printable b"
  by (auto simp: printable_def)

lemma visible_printable: "list_all visible s \<Longrightarrow> printable s"
  by (auto simp: printable_def visible_def list_all_iff)

lemma printable_byte:
  assumes "32 \<le> char_code c" "char_code c < 127"
  shows "(of_nat (of_char c) :: u8) < 0x80" "(of_nat (of_char c) :: u8) \<noteq> 0x0A"
  using assms by (auto simp: char_code_def word_less_nat_alt word_unat_eq_iff unat_of_nat)

lemma printable_bytes:
  "printable s \<Longrightarrow> 0x0A \<notin> set (bytes_of_str s)" "printable s \<Longrightarrow> utf8 (bytes_of_str s)"
proof -
  assume s: "printable s"
  then show "0x0A \<notin> set (bytes_of_str s)"
    using printable_byte(2) by (fastforce simp: bytes_of_str_def printable_def list_all_iff)
  show "utf8 (bytes_of_str s)"
    using s printable_byte(1) by (intro utf8_ascii_only) (auto simp: bytes_of_str_def printable_def list_all_iff)
qed

lemma printable_line_bytes: "printable s \<Longrightarrow> s \<noteq> [] \<Longrightarrow> line_bytes (bytes_of_str s)"
  using printable_bytes(1) by (auto simp: line_bytes_def bytes_of_str_def)

lemma bytes_of_crlf [simp]: "bytes_of_str crlf_text = crlf"
  by (simp add: bytes_of_str_def crlf_def)

definition text_of_lines :: "string list \<Rightarrow> string" where
  "text_of_lines ls = concat (map (\<lambda>l. l @ crlf_text) ls) @ crlf_text"

lemma bytes_of_concat: "bytes_of_str (concat xs) = concat (map bytes_of_str xs)"
  by (induction xs) simp_all

lemma text_of_lines_bytes: "bytes_of_str (text_of_lines ls) = concat (map (\<lambda>l. l @ crlf) (map bytes_of_str ls)) @ crlf"
proof -
  have "bytes_of_str (l @ crlf_text) = bytes_of_str l @ crlf" for l
    by (simp only: bytes_of_str_append bytes_of_crlf)
  then show ?thesis by (simp only: text_of_lines_def bytes_of_str_append bytes_of_concat map_map comp_def bytes_of_crlf)
qed

lemma text_of_lines_utf8: "list_all printable ls \<Longrightarrow> utf8_str (text_of_lines ls)"
proof -
  assume ls: "list_all printable ls"
  have crlf: "utf8 crlf" by (simp add: utf8_ascii_only crlf_def)
  have "utf8 (bytes_of_str (concat (map (\<lambda>l. l @ crlf_text) ls)))"
    using ls
  proof (induction ls)
    case (Cons l ls)
    then show ?case
      by (simp only: list.map concat.simps append_assoc bytes_of_str_append bytes_of_crlf list.pred_inject(2)
          utf8_append printable_bytes(2) crlf)
  qed (simp add: utf8_nil)
  then show ?thesis by (simp only: text_of_lines_def utf8_iff bytes_of_str_append utf8_append bytes_of_crlf crlf)
qed

lemma header_loop_text_of_lines:
  assumes "ls \<noteq> []" "list_all (\<lambda>l. printable l \<and> l \<noteq> []) ls" "length (text_of_lines ls) \<le> room"
    "dx_incoming s = bytes_of_str (text_of_lines ls) @ rest"
  shows "header_loop room [] s = (Ok (Some (bytes_of_str (text_of_lines ls))), s\<lparr>dx_incoming := rest\<rparr>)"
proof (rule header_loop_text [OF _ _ text_of_lines_bytes])
  show "list_all line_bytes (map bytes_of_str ls)"
    using assms(2) printable_line_bytes by (auto simp: list_all_iff)
qed (use assms in \<open>simp_all add: bytes_of_str_def\<close>)

lemma lines_first: "CHR 0x0A \<notin> set l \<Longrightarrow> lines (l @ crlf_text @ rest) = l # lines rest"
proof -
  assume "CHR 0x0A \<notin> set l"
  then have "split_once CHR 0x0A ((l @ [CHR 0x0D]) @ CHR 0x0A # rest) = Some (l @ [CHR 0x0D], rest)"
    by (intro split_once_append) simp
  then show ?thesis by (subst lines.simps) (simp add: strip_cr_def)
qed

lemma printable_no_lf: "printable l \<Longrightarrow> CHR 0x0A \<notin> set l"
  by (auto simp: printable_def list_all_iff char_code_def)

lemma lines_text_of_lines: "printable l \<Longrightarrow> lines (text_of_lines (l # ls)) = l # lines (text_of_lines ls)"
  using lines_first [OF printable_no_lf, of l "text_of_lines ls"] by (simp add: text_of_lines_def)

section \<open>Words of a line\<close>

lemma first_whitespace:
  "take 6 whitespace_strs = [[CHR 0x09], [CHR 0x0A], [CHR 0x0B], [CHR 0x0C], [CHR 0x0D], '' '']"
  by (simp add: whitespace_strs_def whitespace_encodings_def str_of_bytes_def char_of_def bit_0)

lemma space_len: "whitespace_len whitespace_strs (CHR '' '' # s) = 1"
proof -
  have "whitespace_strs = [[CHR 0x09], [CHR 0x0A], [CHR 0x0B], [CHR 0x0C], [CHR 0x0D], '' ''] @ drop 6 whitespace_strs"
    by (metis append_take_drop_id first_whitespace)
  then have "find (\<lambda>w. prefix w (CHR '' '' # s)) whitespace_strs
      = find (\<lambda>w. prefix w (CHR '' '' # s))
          ([[CHR 0x09], [CHR 0x0A], [CHR 0x0B], [CHR 0x0C], [CHR 0x0D], '' ''] @ drop 6 whitespace_strs)"
    by (rule arg_cong)
  then show ?thesis by (simp add: whitespace_len_def)
qed

lemma trim_start_space: "trim_start (CHR '' '' # s) = trim_start s"
  by (simp add: trim_start_def trim_leading.simps [of _ "CHR '' '' # s"] space_len)

lemma take_token_visible: "list_all visible w \<Longrightarrow> take_token (w @ CHR '' '' # s) = (w, CHR '' '' # s)"
  by (induction w) (simp_all add: space_len visible_no_space)

lemma take_token_last: "list_all visible w \<Longrightarrow> take_token w = (w, [])"
  by (induction w) (simp_all add: visible_no_space)

lemma split_whitespace_space: "split_whitespace (CHR '' '' # s) = split_whitespace s"
  by (simp add: split_whitespace.simps trim_start_space)

lemma split_whitespace_word:
  assumes "list_all visible w" "w \<noteq> []"
  shows "split_whitespace (w @ CHR '' '' # s) = w # split_whitespace s" "split_whitespace w = [w]"
proof -
  obtain c v where w: "w = c # v" "visible c" using assms by (cases w) auto
  have "split_whitespace [] = []" by (simp add: split_whitespace.simps trim_start_def trim_leading.simps)
  then show "split_whitespace (w @ CHR '' '' # s) = w # split_whitespace s" "split_whitespace w = [w]"
    using take_token_visible [OF assms(1), of s] take_token_last [OF assms(1)] trim_start_visible [OF w(2)]
      split_whitespace_space [of s]
    unfolding w(1) by (subst split_whitespace.simps, simp del: take_token.simps)+
qed


section \<open>The client meets the inbound\<close>

lemma show_u16_visible: "list_all visible (show_u16 n)"
proof -
  have "visible c" if "to_digit 10 c \<noteq> None" for c
    using that by (auto simp: to_digit_def Let_def visible_def split: if_splits)
  then show ?thesis
    using show_radix_digits [of 10 _ "unat n"] by (fastforce simp: list_all_iff show_u16_def)
qed

lemma trim_brackets_hd: "trim_brackets s \<noteq> [] \<Longrightarrow> \<not> bracket (hd (trim_brackets s))"
proof -
  let ?d = "dropWhile bracket s"
  assume nonempty: "trim_brackets s \<noteq> []"
  have "rev ?d = takeWhile bracket (rev ?d) @ rev (trim_brackets s)"
    by (simp add: trim_brackets_def)
  then have "?d = trim_brackets s @ rev (takeWhile bracket (rev ?d))"
    by (metis rev_append rev_rev_ident)
  then have "?d \<noteq> []" "hd ?d = hd (trim_brackets s)"
    using nonempty by (metis append_is_Nil_conv, metis hd_append2)
  then show ?thesis using hd_dropWhile [of bracket s] by simp
qed

lemma parse_target_authority:
  assumes "target_name = trim_brackets (trim (ot_host target))" "target_name \<noteq> []" "list_all visible target_name"
    "CHR '']'' \<notin> set target_name"
  shows "parse_target (proxy_target_authority target) = Ok (target_name, ot_port target)"
proof -
  have trim: "trim target_name = target_name" using visible_trim assms(3) .
  have "hd target_name \<noteq> CHR ''[''" using trim_brackets_hd [of "trim (ot_host target)"] assms(1,2) by (simp add: bracket_def)
  then have plain: "strip_prefix ''['' (target_name @ rest) = None" for rest
    using assms(2) by (cases target_name) (auto simp: strip_prefix_def)
  show ?thesis
  proof (cases "parse_ipv6 target_name = None")
    case True
    then show ?thesis
      using plain rsplit_once_append [OF show_u16_no_colon, of target_name "ot_port target"] trim assms(1,2)
      by (simp add: parse_target_def proxy_target_authority_def)
  next
    case False
    then have "proxy_target_authority target = ''['' @ target_name @ '']:'' @ show_u16 (ot_port target)"
      using assms(1) by (simp add: proxy_target_authority_def)
    then show ?thesis
      using split_once_append [OF assms(4), of "'':'' @ show_u16 (ot_port target)"] trim assms(2)
      by (simp add: parse_target_def strip_prefix_def)
  qed
qed

lemma authority_visible:
  "list_all visible (trim_brackets (trim (ot_host target))) \<Longrightarrow> list_all visible (proxy_target_authority target)"
  "proxy_target_authority target \<noteq> []"
  using show_u16_visible [of "ot_port target"]
  by (simp_all add: proxy_target_authority_def Let_def visible_def char_code_def)

definition request_lines :: "(bytes \<Rightarrow> string) \<Rightarrow> outbound_target \<Rightarrow> string \<Rightarrow> string list" where
  "request_lines base64 target credential =
     [''CONNECT '' @ proxy_target_authority target @ '' HTTP/1.1'', ''Host: '' @ proxy_target_authority target]
     @ (if trim credential \<noteq> [] then [''Proxy-Authorization: Basic '' @ base64 (bytes_of_str (trim credential))] else [])"

lemma request_text_lines:
  "http_connect_request_text base64 target credential = text_of_lines (request_lines base64 target credential)"
  by (simp add: http_connect_request_text_def request_lines_def text_of_lines_def Let_def)

lemma request_lines_printable:
  assumes "list_all visible (trim_brackets (trim (ot_host target)))" "\<And>bs. list_all visible (base64 bs)"
  shows "list_all (\<lambda>l. printable l \<and> l \<noteq> []) (request_lines base64 target credential)"
  using authority_visible(1) [OF assms(1)] assms(2)
  by (simp add: request_lines_def visible_printable char_code_def)

lemma connect_words:
  assumes "list_all visible authority" "authority \<noteq> []"
  shows "split_whitespace (''CONNECT '' @ authority @ '' HTTP/1.1'') = [''CONNECT'', authority, ''HTTP/1.1'']"
proof -
  have "list_all visible ''CONNECT''" "list_all visible ''HTTP/1.1''" by (simp_all add: visible_def char_code_def)
  then show ?thesis
    using split_whitespace_word(1) [of "''CONNECT''" "authority @ '' HTTP/1.1''"]
      split_whitespace_word(1) [OF assms, of "''HTTP/1.1''"] split_whitespace_word(2) [of "''HTTP/1.1''"]
    by simp
qed

lemma status_line:
  assumes "printable line" "line \<noteq> []" "length line + 4 \<le> 8192" "dx_incoming s = bytes_of_str (text_of_lines [line]) @ rest"
  shows "read_http_connect_response s = (Ok (text_of_lines [line]), s\<lparr>dx_incoming := rest\<rparr>)"
proof -
  have "header_loop 8192 [] s = (Ok (Some (bytes_of_str (text_of_lines [line]))), s\<lparr>dx_incoming := rest\<rparr>)"
    using assms by (intro header_loop_text_of_lines) (simp_all add: text_of_lines_def)
  moreover have "utf8_str (text_of_lines [line])" using assms(1) by (intro text_of_lines_utf8) simp
  ultimately show ?thesis by (simp add: read_http_connect_response_def sbind_def lift_def)
qed


lemma status_of_line:
  assumes "list_all visible version" "version \<noteq> []" "list_all visible status" "status \<noteq> []" "printable phrase"
  shows "response_status (text_of_lines [version @ '' '' @ status @ '' '' @ phrase]) = parse_u16 status"
proof -
  have "lines (text_of_lines [version @ '' '' @ status @ '' '' @ phrase])
      = (version @ '' '' @ status @ '' '' @ phrase) # lines (text_of_lines [])"
    using assms by (intro lines_text_of_lines) (simp add: visible_printable char_code_def)
  then show ?thesis
    using split_whitespace_word(1) [OF assms(1,2), of "status @ '' '' @ phrase"]
      split_whitespace_word(1) [OF assms(3,4), of phrase]
    by (simp add: response_status_def)
qed

lemma success_understood:
  assumes "dx_incoming s = http_connect_success_response @ rest"
  shows "read_http_connect_response s = (Ok (text_of_lines [''HTTP/1.1 200 Connection Established'']), s\<lparr>dx_incoming := rest\<rparr>)"
    "response_status (text_of_lines [''HTTP/1.1 200 Connection Established'']) = Some 200"
proof -
  show "read_http_connect_response s = (Ok (text_of_lines [''HTTP/1.1 200 Connection Established'']), s\<lparr>dx_incoming := rest\<rparr>)"
    using assms by (intro status_line) (simp_all add: char_code_def http_connect_success_response_def text_of_lines_def)
  show "response_status (text_of_lines [''HTTP/1.1 200 Connection Established'']) = Some 200"
    using status_of_line [of "''HTTP/1.1''" "''200''" "''Connection Established''"]
    by (simp add: visible_def char_code_def parse_u16_def parse_unsigned_def to_digit_def digits_value_def)
qed

lemma refusal_understood:
  assumes "dx_incoming s = http_connect_bad_request_response @ rest"
  shows "read_http_connect_response s = (Ok (text_of_lines [''HTTP/1.1 400 Bad Request'']), s\<lparr>dx_incoming := rest\<rparr>)"
    "response_status (text_of_lines [''HTTP/1.1 400 Bad Request'']) = Some 400"
proof -
  show "read_http_connect_response s = (Ok (text_of_lines [''HTTP/1.1 400 Bad Request'']), s\<lparr>dx_incoming := rest\<rparr>)"
    using assms by (intro status_line) (simp_all add: char_code_def http_connect_bad_request_response_def text_of_lines_def)
  show "response_status (text_of_lines [''HTTP/1.1 400 Bad Request'']) = Some 400"
    using status_of_line [of "''HTTP/1.1''" "''400''" "''Bad Request''"]
    by (simp add: visible_def char_code_def parse_u16_def parse_unsigned_def to_digit_def digits_value_def)
qed

text \<open>
  C26. The HTTP client and the \<open>CONNECT\<close> inbound understand each other. For a target whose host is visible
  ASCII, and a base64 encoder that produces visible ASCII, the request the client writes is parsed by the
  inbound as a \<open>CONNECT\<close> to that host and port, with what follows the request left unread; the inbound's
  success response lets the client go on with what follows it, and its bad-request response is refused as
  status 400.
\<close>

theorem http_client_meets_inbound:
  assumes "target_name = trim_brackets (trim (ot_host target))" "target_name \<noteq> []" "list_all visible target_name"
      "CHR '']'' \<notin> set target_name"
    and base64: "\<And>bs. list_all visible (base64 bs)"
    and request: "request = bytes_of_str (http_connect_request_text base64 target credential)" "length request \<le> 16384"
    and inbound: "dx_incoming inbound = request @ further"
    and writable: "dx_write_error accepted = None" "dx_write_error refused = None"
    and responses: "dx_incoming accepted = http_connect_success_response @ rest"
      "dx_incoming refused = http_connect_bad_request_response @ rest"
  shows "parse_http_connect_request inbound
      = (Ok \<lparr>hc_host = target_name, hc_port = ot_port target, hc_http_version = ''HTTP/1.1''\<rparr>,
         inbound\<lparr>dx_incoming := further\<rparr>)
    \<and> http_connect_proxy base64 target credential accepted
      = (Ok (), accepted\<lparr>dx_incoming := rest, dx_outgoing := dx_outgoing accepted @ request\<rparr>)
    \<and> fst (http_connect_proxy base64 target credential refused)
      = Err (IoError ConnectionRefused (''HTTP outbound CONNECT failed with status '' @ show_u16 400))"
proof (intro conjI)
  let ?ls = "request_lines base64 target credential" and ?auth = "proxy_target_authority target"
  note host = assms(1-4)
  have auth: "list_all visible ?auth" "?auth \<noteq> []" using authority_visible host(1,3) by auto
  have printable: "list_all (\<lambda>l. printable l \<and> l \<noteq> []) ?ls" using request_lines_printable host(1,3) base64 by simp
  then have utf8: "utf8_str (text_of_lines ?ls)" by (intro text_of_lines_utf8) (auto simp: list_all_iff)
  have "header_loop 16384 [] inbound = (Ok (Some request), inbound\<lparr>dx_incoming := further\<rparr>)"
    using header_loop_text_of_lines [OF _ printable, of 16384 inbound further] request inbound
    by (simp add: request_text_lines bytes_of_str_def) (simp add: request_lines_def)
  moreover have "lines (text_of_lines ?ls) = hd ?ls # lines (text_of_lines (tl ?ls))"
    using lines_text_of_lines [of "hd ?ls" "tl ?ls"] printable by (simp add: request_lines_def)
  then have "connect_of_header request
      = Ok \<lparr>hc_host = target_name, hc_port = ot_port target, hc_http_version = ''HTTP/1.1''\<rparr>"
    using connect_words [OF auth] parse_target_authority [OF host] utf8 request(1)
    by (simp add: connect_of_header_def three_words_def request_text_lines request_lines_def eq_ignore_ascii_case_def)
  ultimately show "parse_http_connect_request inbound
      = (Ok \<lparr>hc_host = target_name, hc_port = ot_port target, hc_http_version = ''HTTP/1.1''\<rparr>,
         inbound\<lparr>dx_incoming := further\<rparr>)"
    by (simp add: parse_http_connect_request_def connect_read_header_def max_connect_header_bytes_def
        sbind_def with_err_def lift_def)
  show "http_connect_proxy base64 target credential accepted
      = (Ok (), accepted\<lparr>dx_incoming := rest, dx_outgoing := dx_outgoing accepted @ request\<rparr>)"
    using success_understood writable(1) responses(1) request(1)
    by (simp add: http_connect_proxy_def write_all_def sbind_def ret_def)
  show "fst (http_connect_proxy base64 target credential refused)
      = Err (IoError ConnectionRefused (''HTTP outbound CONNECT failed with status '' @ show_u16 400))"
    using refusal_understood writable(2) responses(2)
    by (simp add: http_connect_proxy_def write_all_def sbind_def lift_def)
qed



lemma sample_host: "trim_brackets (trim (ot_host sample_target)) = ''server.example''"
  using sample_target_host
  by (simp add: sample_target_def outbound_target_new_def sample_endpoint_def endpoint_new_def target_host_def)

lemma sample_port: "ot_port sample_target = 853"
  by (simp add: sample_target_def outbound_target_new_def)

lemma sample_request_short:
  "length (bytes_of_str (http_connect_request_text (\<lambda>_. ''dXNlcg=='') sample_target ''user'')) \<le> 16384"
proof -
  have "length (show_u16 853) \<le> 5"
    using length_show_radix [of 10 853 4] by (simp add: show_u16_def)
  then show ?thesis
    by (simp add: http_connect_request_text_def proxy_target_authority_def sample_host sample_port sample_not_ip Let_def)
qed

theorem http_client_meets_inbound_witness:
  "fst (parse_http_connect_request
      \<lparr>dx_incoming = bytes_of_str (http_connect_request_text (\<lambda>_. ''dXNlcg=='') sample_target ''user'') @ [22, 3, 1],
       dx_end = IoError UnexpectedEof [], dx_outgoing = [], dx_write_error = None\<rparr>)
   = Ok \<lparr>hc_host = ''server.example'', hc_port = 853, hc_http_version = ''HTTP/1.1''\<rparr>"
proof -
  let ?s = "\<lambda>bs. \<lparr>dx_incoming = bs @ [22, 3, 1], dx_end = IoError UnexpectedEof [], dx_outgoing = [], dx_write_error = None\<rparr>"
  let ?request = "bytes_of_str (http_connect_request_text (\<lambda>_. ''dXNlcg=='') sample_target ''user'')"
  show ?thesis
    using http_client_meets_inbound [of "''server.example''" sample_target "\<lambda>_. ''dXNlcg==''" ?request "''user''"
        "?s ?request" "[22, 3, 1]" "?s http_connect_success_response" "?s http_connect_bad_request_response" "[22, 3, 1]"]
      sample_request_short
    by (simp add: sample_host sample_port visible_def char_code_def)
qed

end
