(* ===== verification/Keli_Http_Rewrite.thy ===== *)
theory Keli_Http_Rewrite
  imports Keli_Http_Facts
begin

text \<open>
  HTTP headers are read within bounds, and the rewritten header of a plain proxy request forwards every
  line after the request line.
\<close>

section \<open>Bounds and totality\<close>

text \<open>
  What an operation that starts by reading a header does to the stream: no panic, and it takes at most the
  given number of bytes off its front.
\<close>

definition reads_at_most :: "nat \<Rightarrow> (duplex, 'e, 'a) op \<Rightarrow> bool" where
  "reads_at_most n m \<longleftrightarrow> (\<forall>s r s'. m s = (r, s') \<longrightarrow> r \<noteq> Panic
     \<and> (\<exists>consumed. dx_incoming s = consumed @ dx_incoming s' \<and> length consumed \<le> n))"

lemma reads_header: "reads_at_most n (header_loop n [])"
  using header_loop_reads [of n "[]"] header_end_not_empty unfolding reads_at_most_def by blast

lemma reads_with_err: "reads_at_most n m \<Longrightarrow> reads_at_most n (with_err g m)"
  by (fastforce simp: reads_at_most_def with_err_def split: prod.splits outcome.splits)

lemma reads_then_pure:
  assumes "reads_at_most n m" "\<And>x s. \<exists>r. r \<noteq> Panic \<and> k x s = (r, s)"
  shows "reads_at_most n (sbind m k)"
  unfolding reads_at_most_def
proof (intro allI impI)
  fix s r s' assume run: "sbind m k s = (r, s')"
  obtain q t where m: "m s = (q, t)" by fastforce
  then have q: "q \<noteq> Panic" "\<exists>consumed. dx_incoming s = consumed @ dx_incoming t \<and> length consumed \<le> n"
    using assms(1) by (auto simp: reads_at_most_def)
  have "r \<noteq> Panic \<and> s' = t"
  proof (cases q)
    case (Ok x)
    then show ?thesis using assms(2) [of x t] run m by (auto simp: sbind_def)
  qed (use run m q in \<open>auto simp: sbind_def\<close>)
  with q show "r \<noteq> Panic \<and> (\<exists>consumed. dx_incoming s = consumed @ dx_incoming s' \<and> length consumed \<le> n)" by simp
qed

lemma reads_after_write: "reads_at_most n m \<Longrightarrow> reads_at_most n (sbind (write_all bs) (\<lambda>_. m))"
proof (unfold reads_at_most_def, intro allI impI)
  fix s r s' assume m: "\<forall>s r s'. m s = (r, s') \<longrightarrow> r \<noteq> Panic
      \<and> (\<exists>consumed. dx_incoming s = consumed @ dx_incoming s' \<and> length consumed \<le> n)"
    and run: "sbind (write_all bs) (\<lambda>_. m) s = (r, s')"
  show "r \<noteq> Panic \<and> (\<exists>consumed. dx_incoming s = consumed @ dx_incoming s' \<and> length consumed \<le> n)"
  proof (cases "dx_write_error s")
    case None
    with run have "m (s\<lparr>dx_outgoing := dx_outgoing s @ bs\<rparr>) = (r, s')" by (simp add: sbind_def write_all_def)
    with m show ?thesis by fastforce
  qed (use run in \<open>auto simp: sbind_def write_all_def\<close>)
qed

lemma parse_target_total: "parse_target target \<noteq> Panic"
  by (auto simp: parse_target_def outcome_simps split: option.splits outcome.splits prod.splits)

lemma parse_host_port_total: "parse_host_port authority port \<noteq> Panic"
  by (auto simp: parse_host_port_def parse_port_def outcome_simps Let_def
      split: option.splits outcome.splits prod.splits if_splits)

lemma three_words_total: "three_words invalid line \<noteq> Panic"
  by (simp add: three_words_def split: list.split)

lemma connect_of_header_total: "connect_of_header header \<noteq> Panic"
  using parse_target_total by (auto simp: connect_of_header_def outcome_simps three_words_total split: list.splits)

lemma proxy_of_header_total: "proxy_of_header header \<noteq> Panic"
proof -
  have "parse_absolute_http_target rest \<noteq> Panic" for rest
    using parse_host_port_total
    by (auto simp: parse_absolute_http_target_def outcome_simps Let_def split: outcome.splits prod.splits)
  then have "proxy_request_target header_text target \<noteq> Panic" for header_text target
    using parse_host_port_total by (auto simp: proxy_request_target_def outcome_simps split: option.splits)
  then show ?thesis
    by (auto simp: proxy_of_header_def outcome_simps three_words_total split: list.splits)
qed

text \<open>
  C28. The HTTP readers never panic and never read without end: whatever the peer sends, and wherever the
  stream ends, the \<open>CONNECT\<close> inbound, the plain proxy inbound and the HTTPUpgrade client take at most
  16384 bytes off the stream, the \<open>CONNECT\<close> client at most 8192, and each ends with a value or an error.
\<close>

theorem http_headers_bounded:
  "reads_at_most 16384 parse_http_connect_request
   \<and> reads_at_most 16384 parse_http_proxy_request
   \<and> reads_at_most 16384 (connect_httpupgrade_client host path)
   \<and> reads_at_most 8192 (http_connect_proxy base64 target credential)"
proof (intro conjI)
  have connect: "reads_at_most 16384 connect_read_header" and proxy: "reads_at_most 16384 proxy_read_header"
    unfolding connect_read_header_def proxy_read_header_def max_connect_header_bytes_def max_http_proxy_header_bytes_def
    by (intro reads_then_pure reads_with_err; simp add: reads_header lift_def split: option.split)+
  show "reads_at_most 16384 parse_http_connect_request"
    unfolding parse_http_connect_request_def
    by (intro reads_then_pure connect) (simp add: lift_def connect_of_header_total)
  show "reads_at_most 16384 parse_http_proxy_request"
    unfolding parse_http_proxy_request_def
    by (intro reads_then_pure proxy) (simp add: lift_def proxy_of_header_total)
  show "reads_at_most 8192 (http_connect_proxy base64 target credential)"
    unfolding http_connect_proxy_def read_http_connect_response_def
    by (intro reads_after_write reads_then_pure reads_header)
      (auto simp: lift_def ret_def split: option.split)
  have "reads_at_most 16384 (lift (Err e :: (io_error, unit) outcome))" for e
    by (auto simp: reads_at_most_def lift_def)
  moreover have "reads_at_most 16384 (sbind (write_all request) (\<lambda>_. sbind read_httpupgrade_response
      (\<lambda>response. lift (validate_httpupgrade_response response))))" for request
    unfolding read_httpupgrade_response_def httpupgrade_header_limit_def
    by (intro reads_after_write reads_then_pure)
      (auto simp: reads_header lift_def validate_httpupgrade_response_def Let_def split: option.split)
  ultimately show "reads_at_most 16384 (connect_httpupgrade_client host path)"
    by (simp add: connect_httpupgrade_client_def Let_def)
qed


section \<open>The rewritten header\<close>

definition first_end :: "string \<Rightarrow> bool" where
  "first_end w \<longleftrightarrow> suffix (crlf_text @ crlf_text) w \<and> \<not> sublist (crlf_text @ crlf_text) (butlast w)"

lemma first_end_suffix:
  assumes "first_end (a @ b)" "4 \<le> length b"
  shows "first_end b"
proof -
  have "suffix (crlf_text @ crlf_text) (a @ b)" using assms(1) unfolding first_end_def by (rule conjunct1)
  then have "suffix (crlf_text @ crlf_text) b"
    by (rule suffix_length_suffix) (use assms(2) in \<open>simp_all add: suffix_def\<close>)
  moreover have "butlast (a @ b) = a @ butlast b" using assms(2) by (cases b rule: rev_cases) (auto simp: butlast_append)
  then have "sublist (butlast b) (butlast (a @ b))" by simp
  ultimately show ?thesis using assms(1) sublist_order.order_trans unfolding first_end_def by blast
qed

lemma split_once_str_earliest:
  "p \<noteq> [] \<Longrightarrow> \<exists>a b. split_once_str p (x @ p @ y) = Some (a, b) \<and> length a \<le> length x"
proof (induction x)
  case Nil
  then show ?case by (cases p) auto
qed auto

lemma first_end_after_line:
  assumes "first_end (line @ crlf_text @ rest)" "split_once_str crlf_text (line @ crlf_text @ rest) = Some (line, rest)"
  shows "first_end (crlf_text @ rest)"
proof (cases "2 \<le> length rest")
  case True
  then show ?thesis using first_end_suffix [OF assms(1)] by simp
next
  case False
  obtain x where x: "line @ crlf_text @ rest = x @ crlf_text @ crlf_text"
    using assms(1) unfolding first_end_def suffix_def by blast
  from False consider "rest = []" | y where "rest = [y]" by (cases rest) (auto simp: Suc_le_eq)
  then show ?thesis
  proof cases
    case 1
    with x have line: "line = x @ crlf_text" by simp
    obtain a b where "split_once_str crlf_text (x @ crlf_text @ crlf_text) = Some (a, b)" "length a \<le> length x"
      using split_once_str_earliest [of crlf_text x crlf_text] by blast
    then have False using assms(2) line unfolding x by simp
    then show ?thesis ..
  next
    case 2
    then have "rev (line @ crlf_text @ [y]) = rev (x @ crlf_text @ crlf_text)" using x by (intro arg_cong [of _ _ rev]) simp
    then show ?thesis by simp
  qed
qed

lemma copy_lines_split: "first_end (crlf_text @ t) \<Longrightarrow> copy_lines (split_crlf t) = t"
proof (induction t rule: split_crlf.induct)
  case (1 t)
  obtain x where x: "crlf_text @ t = x @ crlf_text @ crlf_text" using 1(2) by (auto simp: first_end_def suffix_def)
  have "\<exists>z. t = z @ crlf_text"
  proof (cases x)
    case Nil
    with x show ?thesis by auto
  next
    case (Cons c x')
    with x show ?thesis by (cases x') auto
  qed
  then obtain z where "t = z @ crlf_text @ []" by auto
  then obtain line rest where split: "split_once_str crlf_text t = Some (line, rest)"
    using split_once_str_earliest [of crlf_text z "[]"] by auto
  have t: "t = line @ crlf_text @ rest" using split_once_str_append [OF split] .
  show ?case
  proof (cases "line = []")
    case True
    have "rest = []"
    proof (rule ccontr)
      assume "rest \<noteq> []"
      then have "butlast (crlf_text @ t) = (crlf_text @ crlf_text) @ butlast rest" using t True by simp
      then show False using 1(2) unfolding first_end_def by (metis sublist_appendI append_Nil)
    qed
    then show ?thesis using t split True by (subst split_crlf.simps, simp)
  next
    case False
    have "4 \<le> length t"
    proof (rule ccontr)
      assume "\<not> 4 \<le> length t"
      then have "length line + length rest < 2" using t by simp
      then obtain c where "line = [c]" "rest = []" using False by (cases line) auto
      then have "rev (crlf_text @ [c] @ crlf_text) = rev (x @ crlf_text @ crlf_text)"
        using x t by (intro arg_cong [of _ _ rev]) simp
      then show False by simp
    qed
    then have "first_end (line @ crlf_text @ rest)" using first_end_suffix [OF 1(2)] t by simp
    then have "first_end (crlf_text @ rest)" using split t by (intro first_end_after_line) simp_all
    then have "copy_lines (split_crlf rest) = rest" using 1(1) split by simp
    then show ?thesis using t split False by (subst split_crlf.simps, simp)
  qed
qed

lemma first_end_text:
  assumes "ends_header h" "\<not> sublist header_end (butlast h)"
  shows "first_end (str_of_bytes h)"
proof -
  have ends: "str_of_bytes header_end = crlf_text @ crlf_text" "bytes_of_str (crlf_text @ crlf_text) = header_end"
    by (simp_all add: str_of_bytes_def bytes_of_str_def header_end_def char_of_def bit_0)
  have "suffix (crlf_text @ crlf_text) (str_of_bytes h)"
  proof -
    obtain x where "h = x @ header_end" using assms(1) by (auto simp: ends_header_def suffix_def)
    then have "str_of_bytes h = str_of_bytes x @ crlf_text @ crlf_text"
      using ends(1) by (simp add: str_of_bytes_def)
    then show ?thesis unfolding suffix_def by blast
  qed
  moreover have "\<not> sublist (crlf_text @ crlf_text) (butlast (str_of_bytes h))"
  proof
    assume "sublist (crlf_text @ crlf_text) (butlast (str_of_bytes h))"
    then obtain a b where "butlast (str_of_bytes h) = a @ (crlf_text @ crlf_text) @ b" by (auto simp: sublist_def)
    then have "bytes_of_str (butlast (str_of_bytes h)) = bytes_of_str a @ header_end @ bytes_of_str b"
      by (simp only: bytes_of_str_append ends(2) [unfolded bytes_of_str_append])
    moreover have "bytes_of_str (butlast (str_of_bytes h)) = butlast h"
      by (metis bytes_of_str_def map_butlast bytes_of_str_of_bytes)
    ultimately show False using assms(2) by (auto simp: sublist_def)
  qed
  ultimately show ?thesis by (simp add: first_end_def)
qed


lemma normalize_origin_path_slash: "starts_with (normalize_origin_path path) ''/''"
  by (auto simp: normalize_origin_path_def starts_with_def)

lemma proxy_request_target_slash:
  "proxy_request_target header_text target = Ok (host, port, path) \<Longrightarrow> starts_with path ''/''"
  using normalize_origin_path_slash
  by (auto simp: proxy_request_target_def parse_absolute_http_target_def outcome_simps Let_def
      split: option.splits prod.splits)

lemma proxy_of_header_rewrites:
  assumes "proxy_of_header h = Ok req"
  shows "hp_rewritten_header req
      = rewrite_header (str_of_bytes h) (hp_method req) (hp_path_and_query req) (hp_http_version req)"
    "starts_with (hp_path_and_query req) ''/''"
  using assms proxy_request_target_slash
  by (cases "utf8_valid h"; cases "lines (str_of_bytes h)";
      auto simp: proxy_of_header_def outcome_simps from_utf8_def)+

text \<open>
  C27. The header of a plain proxy request is forwarded whole: an accepted request takes exactly one header off
  the stream, and the rewritten header is the new request line, with a path that starts with a slash,
  followed byte for byte by everything that came after the first line break of that header.
\<close>

theorem rewritten_header_forwards:
  assumes "parse_http_proxy_request s = (Ok req, s')"
  shows "\<exists>line tail. dx_incoming s = bytes_of_str (line @ crlf_text @ tail) @ dx_incoming s'
    \<and> split_once_str crlf_text (line @ crlf_text @ tail) = Some (line, tail)
    \<and> hp_rewritten_header req = bytes_of_str (hp_method req @ '' '' @ hp_path_and_query req @ '' ''
        @ hp_http_version req @ crlf_text @ tail)
    \<and> starts_with (hp_path_and_query req) ''/''"
proof -
  obtain h where loop: "header_loop max_http_proxy_header_bytes [] s = (Ok (Some h), s')" and req: "proxy_of_header h = Ok req"
    using assms
    by (auto simp: parse_http_proxy_request_def proxy_read_header_def sbind_def with_err_def lift_def
        split: prod.splits outcome.splits)
  obtain consumed where "dx_incoming s = h @ dx_incoming s'" "ends_header h" "\<not> sublist header_end (butlast h)"
    using header_loop_reads [OF loop header_end_not_empty] by auto
  note header = this
  have first: "first_end (str_of_bytes h)" using first_end_text header(2,3) .
  then obtain x where "str_of_bytes h = x @ crlf_text @ crlf_text" unfolding first_end_def suffix_def by blast
  then obtain line tail where split: "split_once_str crlf_text (str_of_bytes h) = Some (line, tail)"
    using split_once_str_earliest [of crlf_text x crlf_text] by auto
  have whole: "str_of_bytes h = line @ crlf_text @ tail" using split_once_str_append [OF split] .
  have "copy_lines (drop 1 (split_crlf (str_of_bytes h))) = tail"
    using copy_lines_split [OF first_end_after_line] first split whole
    by (subst split_crlf.simps) simp
  then have "hp_rewritten_header req = bytes_of_str (hp_method req @ '' '' @ hp_path_and_query req @ '' ''
      @ hp_http_version req @ crlf_text @ tail)"
    using proxy_of_header_rewrites [OF req] by (simp add: rewrite_header_def)
  moreover have "dx_incoming s = bytes_of_str (line @ crlf_text @ tail) @ dx_incoming s'"
    using header(1) by (simp only: whole [symmetric] bytes_of_str_of_bytes)
  ultimately show ?thesis using split proxy_of_header_rewrites [OF req] unfolding whole by blast
qed


text \<open>A request with a host header and a body after its header.\<close>

definition sample_proxy_stream :: duplex where
  "sample_proxy_stream = \<lparr>dx_incoming = bytes_of_str (text_of_lines [''GET http://server.example/a HTTP/1.1'', ''A: b'']) @ [1, 2],
     dx_end = IoError UnexpectedEof [], dx_outgoing = [], dx_write_error = None\<rparr>"

lemma sample_proxy_request:
  obtains req where "parse_http_proxy_request sample_proxy_stream = (Ok req, sample_proxy_stream\<lparr>dx_incoming := [1, 2]\<rparr>)"
    "hp_path_and_query req = ''/a''"
proof -
  let ?line = "''GET http://server.example/a HTTP/1.1''" and ?ls = "[''GET http://server.example/a HTTP/1.1'', ''A: b'']"
  have loop: "header_loop 16384 [] sample_proxy_stream
      = (Ok (Some (bytes_of_str (text_of_lines ?ls))), sample_proxy_stream\<lparr>dx_incoming := [1, 2]\<rparr>)"
    by (rule header_loop_text_of_lines) (simp_all add: sample_proxy_stream_def char_code_def, simp add: text_of_lines_def)
  have printable: "printable ?line" "list_all printable ?ls" by (simp_all add: char_code_def)
  have "split_whitespace ?line = [''GET'', ''http://server.example/a'', ''HTTP/1.1'']"
    using split_whitespace_word(1) [of "''GET''" "''http://server.example/a HTTP/1.1''"]
      split_whitespace_word(1) [of "''http://server.example/a''" "''HTTP/1.1''"]
      split_whitespace_word(2) [of "''HTTP/1.1''"]
    by (simp add: visible_def char_code_def)
  moreover have "proxy_request_target (text_of_lines ?ls) ''http://server.example/a'' = Ok (''server.example'', 80, ''/a'')"
    by (simp add: proxy_request_target_def strip_prefix_def parse_absolute_http_target_def split_once_def
        parse_host_port_def visible_trim visible_def char_code_def rsplit_once_def normalize_origin_path_def
        starts_with_def)
  ultimately show thesis
    using that loop text_of_lines_utf8 [OF printable(2)] lines_text_of_lines [OF printable(1), of "[''A: b'']"]
    by (simp add: parse_http_proxy_request_def proxy_read_header_def max_http_proxy_header_bytes_def sbind_def
        with_err_def lift_def proxy_of_header_def three_words_def)
qed

theorem rewritten_header_forwards_witness:
  "\<exists>req s' tail. parse_http_proxy_request sample_proxy_stream = (Ok req, s') \<and> dx_incoming s' = [1, 2]
    \<and> hp_rewritten_header req = bytes_of_str (hp_method req @ '' /a '' @ hp_http_version req @ crlf_text @ tail)"
proof -
  obtain req where req: "parse_http_proxy_request sample_proxy_stream = (Ok req, sample_proxy_stream\<lparr>dx_incoming := [1, 2]\<rparr>)"
      "hp_path_and_query req = ''/a''" by (rule sample_proxy_request)
  obtain tail where "hp_rewritten_header req = bytes_of_str (hp_method req @ '' '' @ hp_path_and_query req @ '' ''
        @ hp_http_version req @ crlf_text @ tail)"
    using rewritten_header_forwards [OF req(1)] by blast
  then show ?thesis using req by (intro exI [of _ req] exI [of _ "sample_proxy_stream\<lparr>dx_incoming := [1, 2]\<rparr>"] exI [of _ tail]) simp
qed

end
