(* ===== verification/Keli_Registry.thy ===== *)
theory Keli_Registry
  imports Keli_Stream
begin

text \<open>
  The outbound registry of \<open>keli-net-core\<close> (\<open>direct.rs\<close>): how a validated profile becomes an outbound, under
  which tag and in which table it is kept, and which table answers when a flow asks for a tag. What an
  outbound does with a connection is network I/O and a parameter of the dispatch.
\<close>

section \<open>Outbounds\<close>

datatype vmess_body_security = VmessNone | VmessAes128Gcm | VmessChacha20Poly1305

record legacy_quic_transport_config =
  lq_security :: "string option"
  lq_key :: "string option"
  lq_header_type :: "string option"

text \<open>
  The outbound structs of Trojan, VLESS and VMess, one per transport and security in the source, as one
  record: a field that a struct does not have is \<open>None\<close>.
\<close>

record stream_outbound =
  so_server :: endpoint
  so_host :: "string option"
  so_path :: "string option"
  so_service_name :: "string option"
  so_credential :: string
  so_flow :: "string option"
  so_tls :: "(string \<times> bool) option"
  so_quic :: "legacy_quic_transport_config option"
  so_vmess_security :: "vmess_body_security option"

datatype outbound =
    StreamOutbound stream_outbound
  | ProxyOutbound endpoint string
  | ShadowsocksTcpOutbound endpoint string string
  | TlsOutbound endpoint string string bool
  | MieruTcpOutbound endpoint string string
  | TuicOutbound endpoint string string string bool

text \<open>One table per kind of outbound: \<open>trojan_tls_ws_tags\<close> is \<open>TrojanTags TlsWsTags\<close>.\<close>

datatype stream_tags =
    TcpTags | TlsTcpTags | WsTags | TlsWsTags | HttpupgradeTags | TlsHttpupgradeTags
  | GrpcTags | TlsGrpcTags | H2Tags | TlsH2Tags | QuicTags

datatype registry_tags =
    Socks5TcpTags
  | HttpConnectTags
  | TrojanTags stream_tags
  | VlessTags stream_tags
  | VmessTags stream_tags
  | ShadowsocksTcpTags
  | AnytlsTlsTcpTags
  | NaiveH2TcpTags
  | NaiveH3QuicTags
  | MieruTcpTags
  | Hy2Tags
  | TuicTags

record outbound_registry =
  or_direct_tags :: "string set"
  or_tags :: "registry_tags \<Rightarrow> string \<rightharpoonup> outbound"

datatype outbound_profile_error =
    ProfileValidation string protocol_validation_error
  | UnsupportedSecurity string security_kind
  | ProfileMissingShadowsocksCipher string
  | UnsupportedVmessCipher string string
  | UnsupportedTransport string proxy_protocol transport_kind security_kind

definition outbound_registry_new :: outbound_registry where
  "outbound_registry_new = \<lparr>or_direct_tags = {}, or_tags = (\<lambda>_. Map.empty)\<rparr>"

definition add_direct :: "string \<Rightarrow> outbound_registry \<Rightarrow> outbound_registry" where
  "add_direct tag r = r\<lparr>or_direct_tags := insert tag (or_direct_tags r)\<rparr>"

text \<open>\<open>add_socks5_tcp\<close> to \<open>add_tuic\<close>: an insertion into the table of the kind.\<close>

definition add_outbound :: "registry_tags \<Rightarrow> string \<Rightarrow> outbound \<Rightarrow> outbound_registry \<Rightarrow> outbound_registry" where
  "add_outbound table tag outbound r =
     r\<lparr>or_tags := (or_tags r)(table := (or_tags r table)(tag \<mapsto> outbound))\<rparr>"

section \<open>From a profile to an outbound\<close>

definition legacy_quic_internal_server_name :: string where
  "legacy_quic_internal_server_name = ''quic.internal.v2fly.org''"

fun unwrap_or :: "'a option \<Rightarrow> 'a \<Rightarrow> 'a" where
  "unwrap_or (Some x) y = x"
| "unwrap_or None y = y"

definition plain_stream :: "endpoint \<Rightarrow> string \<Rightarrow> stream_outbound" where
  "plain_stream endpoint credential =
     \<lparr>so_server = endpoint, so_host = None, so_path = None, so_service_name = None,
      so_credential = credential, so_flow = None, so_tls = None, so_quic = None, so_vmess_security = None\<rparr>"

text \<open>
  The arms of the match in \<open>add_profile\<close> for Trojan, VMess and VLESS repeat the same derivation of the
  table, host, path, server name and QUIC settings from transport and security; they differ in the
  fields for the cipher and the flow, which the callers add.
\<close>

fun stream_parts :: "endpoint \<Rightarrow> string \<Rightarrow> transport_kind \<Rightarrow> security_kind \<Rightarrow> stream_tags \<times> stream_outbound" where
  "stream_parts endpoint credential TransportTcp SecurityNone = (TcpTags, plain_stream endpoint credential)"
| "stream_parts endpoint credential TransportTcp (SecurityTls sni skip_verify) =
     (TlsTcpTags, (plain_stream endpoint credential)
        \<lparr>so_tls := Some (unwrap_or sni (ep_host endpoint), skip_verify)\<rparr>)"
| "stream_parts endpoint credential (WebSocket path host) SecurityNone =
     (WsTags, (plain_stream endpoint credential)
        \<lparr>so_host := Some (unwrap_or host (ep_host endpoint)), so_path := Some path\<rparr>)"
| "stream_parts endpoint credential (WebSocket path host) (SecurityTls sni skip_verify) =
     (let host = unwrap_or host (ep_host endpoint) in
      (TlsWsTags, (plain_stream endpoint credential)
        \<lparr>so_host := Some host, so_path := Some path, so_tls := Some (unwrap_or sni host, skip_verify)\<rparr>))"
| "stream_parts endpoint credential (HttpUpgrade path host) SecurityNone =
     (HttpupgradeTags, (plain_stream endpoint credential)
        \<lparr>so_host := Some (unwrap_or host (ep_host endpoint)), so_path := Some path\<rparr>)"
| "stream_parts endpoint credential (HttpUpgrade path host) (SecurityTls sni skip_verify) =
     (let host = unwrap_or host (ep_host endpoint) in
      (TlsHttpupgradeTags, (plain_stream endpoint credential)
        \<lparr>so_host := Some host, so_path := Some path, so_tls := Some (unwrap_or sni host, skip_verify)\<rparr>))"
| "stream_parts endpoint credential (Grpc service_name) SecurityNone =
     (GrpcTags, (plain_stream endpoint credential)
        \<lparr>so_host := Some (ep_host endpoint), so_service_name := service_name\<rparr>)"
| "stream_parts endpoint credential (Grpc service_name) (SecurityTls sni skip_verify) =
     (let sni = unwrap_or sni (ep_host endpoint) in
      (TlsGrpcTags, (plain_stream endpoint credential)
        \<lparr>so_host := Some sni, so_service_name := service_name, so_tls := Some (sni, skip_verify)\<rparr>))"
| "stream_parts endpoint credential (Http2 path host) SecurityNone =
     (H2Tags, (plain_stream endpoint credential)
        \<lparr>so_host := Some (unwrap_or host (ep_host endpoint)), so_path := Some path\<rparr>)"
| "stream_parts endpoint credential (Http2 path host) (SecurityTls sni skip_verify) =
     (let sni = unwrap_or sni (ep_host endpoint) in
      (TlsH2Tags, (plain_stream endpoint credential)
        \<lparr>so_host := Some (unwrap_or host sni), so_path := Some path, so_tls := Some (sni, skip_verify)\<rparr>))"
| "stream_parts endpoint credential (Quic quic_security key header_type) security =
     (QuicTags, (plain_stream endpoint credential)
        \<lparr>so_tls := Some (case security of
             SecurityNone \<Rightarrow> (legacy_quic_internal_server_name, True)
           | SecurityTls sni skip_verify \<Rightarrow> (unwrap_or sni (ep_host endpoint), skip_verify)),
         so_quic := Some \<lparr>lq_security = quic_security, lq_key = key, lq_header_type = header_type\<rparr>\<rparr>)"

definition vmess_security_from_profile_cipher :: "string \<Rightarrow> string option
    \<Rightarrow> (outbound_profile_error, vmess_body_security) outcome" where
  "vmess_security_from_profile_cipher tag cipher =
     (let cipher = to_ascii_lowercase (trim (unwrap_or cipher ''auto'')) in
      if cipher \<in> {[], ''auto'', ''aes-128-gcm''} then Ok VmessAes128Gcm
      else if cipher = ''chacha20-poly1305'' then Ok VmessChacha20Poly1305
      else if cipher \<in> {''none'', ''zero''} then Ok VmessNone
      else Err (UnsupportedVmessCipher tag cipher))"

definition split_tuic_credential :: "string \<Rightarrow> (string \<times> string) option" where
  "split_tuic_credential credential = (case split_once CHR '':'' credential of
      None \<Rightarrow> None
    | Some (uuid, password) \<Rightarrow>
        if trim uuid = [] \<or> trim password = [] then None else Some (trim uuid, trim password))"

definition trojan_outbound :: "outbound_profile
    \<Rightarrow> (outbound_profile_error, registry_tags \<times> outbound) outcome" where
  "trojan_outbound p =
     (case stream_parts (pf_endpoint p) (pf_credential p) (pf_transport p) (pf_security p) of
        (tags, outbound) \<Rightarrow> Ok (TrojanTags tags, StreamOutbound outbound))"

definition vmess_outbound :: "outbound_profile
    \<Rightarrow> (outbound_profile_error, registry_tags \<times> outbound) outcome" where
  "vmess_outbound p =
     obind (vmess_security_from_profile_cipher (pf_tag p) (pf_cipher p)) (\<lambda>security.
     case stream_parts (pf_endpoint p) (pf_credential p) (pf_transport p) (pf_security p) of
        (tags, outbound) \<Rightarrow>
          Ok (VmessTags tags, StreamOutbound (outbound\<lparr>so_vmess_security := Some security\<rparr>)))"

definition vless_outbound :: "outbound_profile
    \<Rightarrow> (outbound_profile_error, registry_tags \<times> outbound) outcome" where
  "vless_outbound p =
     (case stream_parts (pf_endpoint p) (pf_credential p) (pf_transport p) (pf_security p) of
        (tags, outbound) \<Rightarrow> Ok (VlessTags tags, StreamOutbound (outbound\<lparr>so_flow := pf_flow p\<rparr>)))"

text \<open>The table and the outbound that \<open>add_profile\<close> adds for a profile.\<close>

definition profile_outbound :: "outbound_profile
    \<Rightarrow> (outbound_profile_error, registry_tags \<times> outbound) outcome" where
  "profile_outbound p =
     (let tag = pf_tag p; endpoint = pf_endpoint p; credential = pf_credential p;
          unsupported = Err (UnsupportedTransport tag (pf_protocol p) (pf_transport p) (pf_security p)) in
      case pf_protocol p of
        Trojan \<Rightarrow> trojan_outbound p
      | Vmess \<Rightarrow> vmess_outbound p
      | Vless \<Rightarrow> vless_outbound p
      | Socks \<Rightarrow> (case (pf_transport p, pf_security p) of
            (TransportTcp, SecurityNone) \<Rightarrow> Ok (Socks5TcpTags, ProxyOutbound endpoint credential)
          | _ \<Rightarrow> unsupported)
      | Http \<Rightarrow> (case (pf_transport p, pf_security p) of
            (TransportTcp, SecurityNone) \<Rightarrow> Ok (HttpConnectTags, ProxyOutbound endpoint credential)
          | _ \<Rightarrow> unsupported)
      | Shadowsocks \<Rightarrow> (case (pf_transport p, pf_security p) of
            (TransportTcp, SecurityNone) \<Rightarrow>
              obind (ok_or (pf_cipher p) (ProfileMissingShadowsocksCipher tag)) (\<lambda>cipher.
                Ok (ShadowsocksTcpTags, ShadowsocksTcpOutbound endpoint cipher credential))
          | _ \<Rightarrow> unsupported)
      | AnyTls \<Rightarrow> (case (pf_transport p, pf_security p) of
            (TransportTcp, SecurityTls sni skip_verify) \<Rightarrow>
              Ok (AnytlsTlsTcpTags, TlsOutbound endpoint credential (unwrap_or sni (ep_host endpoint)) skip_verify)
          | _ \<Rightarrow> unsupported)
      | Naive \<Rightarrow> (case (pf_transport p, pf_security p) of
            (TransportTcp, SecurityTls sni skip_verify) \<Rightarrow>
              Ok (NaiveH2TcpTags, TlsOutbound endpoint credential (unwrap_or sni (ep_host endpoint)) skip_verify)
          | (Quic s k h, SecurityTls sni skip_verify) \<Rightarrow>
              Ok (NaiveH3QuicTags, TlsOutbound endpoint credential (unwrap_or sni (ep_host endpoint)) skip_verify)
          | _ \<Rightarrow> unsupported)
      | Mieru \<Rightarrow> (case (pf_transport p, pf_security p) of
            (TransportTcp, SecurityNone) \<Rightarrow>
              obind (ok_or (split_once CHR '':'' credential) (ProfileValidation tag InvalidMieruCredential))
                (\<lambda>(username, password). Ok (MieruTcpTags, MieruTcpOutbound endpoint username password))
          | _ \<Rightarrow> unsupported)
      | Hy2 \<Rightarrow> (case (pf_transport p, pf_security p) of
            (Quic s k h, SecurityTls sni skip_verify) \<Rightarrow>
              Ok (Hy2Tags, TlsOutbound endpoint credential (unwrap_or sni (ep_host endpoint)) skip_verify)
          | _ \<Rightarrow> unsupported)
      | Tuic \<Rightarrow> (case (pf_transport p, pf_security p) of
            (Quic s k h, SecurityTls sni skip_verify) \<Rightarrow>
              obind (ok_or (split_tuic_credential credential) (ProfileValidation tag InvalidTuicCredential))
                (\<lambda>(uuid, password). Ok (TuicTags,
                  TuicOutbound endpoint uuid password (unwrap_or sni (ep_host endpoint)) skip_verify))
          | _ \<Rightarrow> unsupported))"

lemmas profile_outbound_defs = profile_outbound_def trojan_outbound_def vmess_outbound_def vless_outbound_def

definition add_profile :: "outbound_profile \<Rightarrow> (outbound_registry, outbound_profile_error, unit) op" where
  "add_profile p =
     sbind (lift (map_err (ProfileValidation (pf_tag p)) (validate p))) (\<lambda>_.
     sbind (lift (profile_outbound p)) (\<lambda>(table, outbound).
     (\<lambda>r. (Ok (), add_outbound table (pf_tag p) outbound r))))"

fun add_profiles :: "outbound_profile list \<Rightarrow> (outbound_registry, outbound_profile_error, unit) op" where
  "add_profiles [] = ret ()"
| "add_profiles (p # ps) = sbind (add_profile p) (\<lambda>_. add_profiles ps)"

definition from_profiles :: "outbound_profile list \<Rightarrow> (outbound_profile_error, outbound_registry) outcome" where
  "from_profiles profiles = (case add_profiles profiles outbound_registry_new of
      (Ok _, registry) \<Rightarrow> Ok registry
    | (Err e, _) \<Rightarrow> Err e
    | (Panic, _) \<Rightarrow> Panic)"

section \<open>Dispatch by tag\<close>

definition stream_tables :: "stream_tags list" where
  "stream_tables = [TcpTags, TlsTcpTags, WsTags, TlsWsTags, HttpupgradeTags, TlsHttpupgradeTags,
     GrpcTags, TlsGrpcTags, H2Tags, TlsH2Tags, QuicTags]"

text \<open>The order in which \<open>connect_with_dns\<close> and \<open>relay_udp_datagram_with_dns\<close> look a tag up.\<close>

definition tcp_tables :: "registry_tags list" where
  "tcp_tables = [Socks5TcpTags, HttpConnectTags] @ map TrojanTags stream_tables @ map VlessTags stream_tables
     @ map VmessTags stream_tables
     @ [ShadowsocksTcpTags, AnytlsTlsTcpTags, NaiveH2TcpTags, NaiveH3QuicTags, MieruTcpTags, Hy2Tags, TuicTags]"

definition udp_tables :: "registry_tags list" where
  "udp_tables = [Socks5TcpTags] @ map VmessTags stream_tables @ map VlessTags stream_tables
     @ map TrojanTags stream_tables @ [ShadowsocksTcpTags, AnytlsTlsTcpTags, MieruTcpTags, Hy2Tags, TuicTags]"

datatype dispatch = ToDirect | ToOutbound registry_tags outbound

fun first_entry :: "registry_tags list \<Rightarrow> outbound_registry \<Rightarrow> string \<Rightarrow> dispatch option" where
  "first_entry [] r tag = None"
| "first_entry (table # tables) r tag = (case or_tags r table tag of
      Some outbound \<Rightarrow> Some (ToOutbound table outbound)
    | None \<Rightarrow> first_entry tables r tag)"

definition tcp_dispatch :: "outbound_registry \<Rightarrow> string \<Rightarrow> dispatch option" where
  "tcp_dispatch r tag = (if tag \<in> or_direct_tags r then Some ToDirect else first_entry tcp_tables r tag)"

definition udp_dispatch :: "outbound_registry \<Rightarrow> string \<Rightarrow> dispatch option" where
  "udp_dispatch r tag = (if tag \<in> or_direct_tags r then Some ToDirect else first_entry udp_tables r tag)"

text \<open>
  \<open>connect_with_dns\<close> and \<open>relay_udp_datagram_with_dns\<close>; the connector that does the network I/O for a
  direct flow or for an outbound is a parameter.
\<close>

definition registry_connect :: "(dispatch \<Rightarrow> outbound_target \<Rightarrow> ('w, io_error, 'c) op) \<Rightarrow> outbound_registry
    \<Rightarrow> string \<Rightarrow> outbound_target \<Rightarrow> ('w, io_error, 'c) op" where
  "registry_connect connector r tag target = (case tcp_dispatch r tag of
      Some d \<Rightarrow> connector d target
    | None \<Rightarrow> lift (Err (IoError Unsupported (''outbound tag is not registered: '' @ tag))))"

definition registry_relay_udp :: "(dispatch \<Rightarrow> outbound_target \<Rightarrow> bytes \<Rightarrow> ('w, io_error, 'c) op)
    \<Rightarrow> outbound_registry \<Rightarrow> string \<Rightarrow> outbound_target \<Rightarrow> bytes \<Rightarrow> ('w, io_error, 'c) op" where
  "registry_relay_udp connector r tag target payload = (case udp_dispatch r tag of
      Some d \<Rightarrow> connector d target payload
    | None \<Rightarrow> lift (Err (IoError Unsupported (''outbound tag does not support UDP relay yet: '' @ tag))))"

section \<open>Which profiles a registry takes\<close>

definition vmess_cipher_supported :: "string option \<Rightarrow> bool" where
  "vmess_cipher_supported cipher \<longleftrightarrow> to_ascii_lowercase (trim (unwrap_or cipher ''auto''))
     \<in> {[], ''auto'', ''aes-128-gcm'', ''chacha20-poly1305'', ''none'', ''zero''}"

definition registrable :: "outbound_profile \<Rightarrow> bool" where
  "registrable p \<longleftrightarrow> validate p = Ok () \<and> (pf_protocol p = Vmess \<longrightarrow> vmess_cipher_supported (pf_cipher p))"

lemma vmess_security_Ok: "(\<exists>s. vmess_security_from_profile_cipher tag cipher = Ok s) \<longleftrightarrow> vmess_cipher_supported cipher"
  by (simp add: vmess_security_from_profile_cipher_def vmess_cipher_supported_def Let_def)

lemma split_tuic_credential_ok:
  assumes "is_tuic_credential credential"
  obtains uuid password where "split_tuic_credential credential = Some (uuid, password)" "looks_like_uuid uuid"
proof -
  obtain u w where uw: "split_once CHR '':'' credential = Some (u, w)" "looks_like_uuid (trim u)" "trim w \<noteq> []"
    using assms by (auto simp: is_tuic_credential_def split: option.splits)
  moreover from uw(2) have "trim u \<noteq> []" by (auto simp: looks_like_uuid_def)
  ultimately show thesis using that [of "trim u" "trim w"] by (simp add: split_tuic_credential_def)
qed

lemma stream_profile_outbound:
  "pf_protocol p = Trojan \<Longrightarrow> \<exists>x. profile_outbound p = Ok x"
  "pf_protocol p = Vless \<Longrightarrow> \<exists>x. profile_outbound p = Ok x"
  "pf_protocol p = Vmess \<Longrightarrow> (\<exists>x. profile_outbound p = Ok x) \<longleftrightarrow> vmess_cipher_supported (pf_cipher p)"
proof -
  obtain tags outbound where
    "stream_parts (pf_endpoint p) (pf_credential p) (pf_transport p) (pf_security p) = (tags, outbound)"
    by fastforce
  then show "pf_protocol p = Trojan \<Longrightarrow> \<exists>x. profile_outbound p = Ok x"
    "pf_protocol p = Vless \<Longrightarrow> \<exists>x. profile_outbound p = Ok x"
    "pf_protocol p = Vmess \<Longrightarrow> (\<exists>x. profile_outbound p = Ok x) \<longleftrightarrow> vmess_cipher_supported (pf_cipher p)"
    using vmess_security_Ok [of "pf_tag p" "pf_cipher p"]
    by (auto simp: profile_outbound_defs outcome_simps Let_def)
qed

lemma profile_outbound_Ok:
  assumes "validate p = Ok ()"
  shows "(\<exists>x. profile_outbound p = Ok x) \<longleftrightarrow> registrable p"
proof -
  note valid = assms [unfolded validate_accepts]
  show ?thesis
  proof (cases "pf_protocol p")
    case Tuic
    with valid obtain uuid password where "split_tuic_credential (pf_credential p) = Some (uuid, password)"
      by (auto intro: split_tuic_credential_ok)
    with Tuic valid assms show ?thesis
      by (cases "pf_transport p"; cases "pf_security p") (simp_all add: profile_outbound_defs registrable_def Let_def)
  next
    case Mieru
    with valid obtain username password where "split_once CHR '':'' (pf_credential p) = Some (username, password)"
      by (auto simp: is_user_password_credential_def split: option.splits)
    with Mieru valid assms show ?thesis
      by (cases "pf_transport p"; cases "pf_security p") (simp_all add: profile_outbound_defs registrable_def Let_def)
  next
    case Shadowsocks
    with valid assms show ?thesis
      by (cases "pf_transport p"; cases "pf_security p") (auto simp: profile_outbound_defs registrable_def Let_def)
  next
    case Trojan
    with assms stream_profile_outbound(1) show ?thesis by (simp add: registrable_def)
  next
    case Vless
    with assms stream_profile_outbound(2) show ?thesis by (simp add: registrable_def)
  next
    case Vmess
    with assms stream_profile_outbound(3) show ?thesis by (simp add: registrable_def)
  qed (use valid assms in \<open>cases "pf_transport p"; cases "pf_security p";
    simp add: profile_outbound_defs registrable_def Let_def\<close>)+
qed

lemma validate_total: "validate p \<noteq> Panic"
proof -
  have "validate_trojan t s \<noteq> Panic" for t s
    by (cases "(t, s)" rule: validate_trojan.cases) simp_all
  moreover have "validate_vmess c t \<noteq> Panic" "validate_vless c t \<noteq> Panic" for c t
    by (cases t; simp add: validate_vmess.simps validate_vless.simps)+
  moreover have "validate_naive c t s \<noteq> Panic" for c t s
    by (cases t; cases s; simp add: validate_naive.simps)
  moreover have "validate_shadowsocks c t s \<noteq> Panic" for c t s
    by (cases t; cases s; simp add: validate_shadowsocks.simps split: option.split)
  ultimately have "validate_match q t s c d \<noteq> Panic" for q t s c d
    by (cases q; cases t; cases s; simp add: validate_match_def)
  then show ?thesis by (simp add: validate_def)
qed

lemma profile_outbound_total: "profile_outbound p \<noteq> Panic"
proof -
  have "vmess_security_from_profile_cipher tag c \<noteq> Panic" for tag c
    by (simp add: vmess_security_from_profile_cipher_def Let_def)
  moreover obtain tags outbound where
    "stream_parts (pf_endpoint p) (pf_credential p) (pf_transport p) (pf_security p) = (tags, outbound)"
    by fastforce
  ultimately show ?thesis
    by (cases "pf_protocol p"; cases "pf_transport p"; cases "pf_security p")
      (auto simp: profile_outbound_defs Let_def outcome_simps)
qed

lemma add_profile_registrable:
  assumes "registrable p"
  obtains table outbound where "profile_outbound p = Ok (table, outbound)"
    "\<And>r. add_profile p r = (Ok (), add_outbound table (pf_tag p) outbound r)"
proof -
  have "validate p = Ok ()" using assms by (simp add: registrable_def)
  moreover from this assms profile_outbound_Ok obtain table outbound where
    "profile_outbound p = Ok (table, outbound)" by fastforce
  ultimately show thesis
    using that by (simp add: add_profile_def sbind_def lift_def)
qed

lemma add_profile_rejected:
  assumes "\<not> registrable p"
  obtains e where "\<And>r. add_profile p r = (Err e, r)"
proof (cases "validate p")
  case (Ok u)
  with assms profile_outbound_Ok [of p] profile_outbound_total [of p] obtain e where "profile_outbound p = Err e"
    by (cases "profile_outbound p") auto
  with Ok that show ?thesis by (simp add: add_profile_def sbind_def lift_def)
next
  case (Err e)
  with that show ?thesis by (simp add: add_profile_def sbind_def lift_def)
qed (simp add: validate_total)

lemma add_profiles_registrable:
  "list_all registrable ps \<Longrightarrow> \<exists>r'. add_profiles ps r = (Ok (), r')"
proof (induction ps arbitrary: r)
  case (Cons p ps)
  then obtain table outbound where "\<And>r. add_profile p r = (Ok (), add_outbound table (pf_tag p) outbound r)"
    by (auto elim: add_profile_registrable)
  with Cons show ?case by (simp add: sbind_def)
qed (simp add: ret_def)

lemma add_profiles_rejected: "\<not> list_all registrable ps \<Longrightarrow> \<exists>e r'. add_profiles ps r = (Err e, r')"
proof (induction ps arbitrary: r)
  case (Cons p ps)
  show ?case
  proof (cases "registrable p")
    case True
    then obtain table outbound where "\<And>r. add_profile p r = (Ok (), add_outbound table (pf_tag p) outbound r)"
      by (auto elim: add_profile_registrable)
    with Cons True show ?thesis by (simp add: sbind_def)
  next
    case False
    then obtain e where "\<And>r. add_profile p r = (Err e, r)" by (auto elim: add_profile_rejected)
    then show ?thesis by (simp add: sbind_def)
  qed
qed simp

text \<open>
  C19. A registry is built exactly when every profile validates and every VMess profile names a cipher the
  outbounds know; one profile that fails costs all the others their registration.
\<close>

theorem registry_builds_iff:
  "(\<exists>r. from_profiles ps = Ok r) \<longleftrightarrow> list_all registrable ps"
proof (cases "list_all registrable ps")
  case True
  then show ?thesis
    using add_profiles_registrable [OF True, of outbound_registry_new]
    by (auto simp: from_profiles_def)
next
  case False
  then show ?thesis
    using add_profiles_rejected [OF False, of outbound_registry_new]
    by (auto simp: from_profiles_def)
qed

section \<open>Where a tag leads\<close>

text \<open>The tables after a run: every profile is in its table, unless a later one replaced it there.\<close>

lemma add_outbound_lookup:
  "or_tags (add_outbound table tag outbound r) table' tag'
    = (if table' = table \<and> tag' = tag then Some outbound else or_tags r table' tag')"
  "or_direct_tags (add_outbound table tag outbound r) = or_direct_tags r"
  by (simp_all add: add_outbound_def)

lemma add_profiles_lookup:
  assumes "add_profiles ps r = (Ok (), r')" and "distinct (map pf_tag ps)"
  shows "or_direct_tags r' = or_direct_tags r
    \<and> (\<forall>tag. tag \<notin> pf_tag ` set ps \<longrightarrow> (\<forall>table. or_tags r' table tag = or_tags r table tag))
    \<and> (\<forall>p \<in> set ps. \<exists>table outbound. profile_outbound p = Ok (table, outbound)
        \<and> (\<forall>table'. or_tags r' table' (pf_tag p)
            = (if table' = table then Some outbound else or_tags r table' (pf_tag p))))"
  using assms
proof (induction ps arbitrary: r)
  case (Cons p ps)
  have "registrable p"
  proof (rule ccontr)
    assume "\<not> registrable p"
    with add_profiles_rejected [of "p # ps" r] Cons.prems show False by auto
  qed
  then obtain table outbound where outbound: "profile_outbound p = Ok (table, outbound)"
      "\<And>r. add_profile p r = (Ok (), add_outbound table (pf_tag p) outbound r)"
    by (auto elim: add_profile_registrable)
  then have run: "add_profiles ps (add_outbound table (pf_tag p) outbound r) = (Ok (), r')"
    using Cons.prems by (simp add: sbind_def)
  have fresh: "pf_tag p \<notin> pf_tag ` set ps" using Cons.prems by simp
  note ih = Cons.IH [OF run, unfolded add_outbound_lookup]
  have "\<exists>table outbound. profile_outbound q = Ok (table, outbound)
      \<and> (\<forall>table'. or_tags r' table' (pf_tag q)
          = (if table' = table then Some outbound else or_tags r table' (pf_tag q)))" if "q \<in> set (p # ps)" for q
  proof (cases "q = p")
    case True
    with ih fresh outbound(1) Cons.prems show ?thesis by simp
  next
    case False
    with that have q: "q \<in> set ps" by simp
    then have "pf_tag q \<in> pf_tag ` set ps" by simp
    with fresh have "pf_tag q \<noteq> pf_tag p" by metis
    moreover from ih Cons.prems q obtain table2 outbound2 where "profile_outbound q = Ok (table2, outbound2)"
        "\<forall>table'. or_tags r' table' (pf_tag q) = (if table' = table2 then Some outbound2
          else if table' = table \<and> pf_tag q = pf_tag p then Some outbound else or_tags r table' (pf_tag q))"
      by auto
    ultimately show ?thesis by simp
  qed
  with ih Cons.prems show ?case by simp
qed (simp add: ret_def)

lemma first_entry_None: "(\<And>table. or_tags r table tag = None) \<Longrightarrow> first_entry tables r tag = None"
  by (induction tables) simp_all

lemma first_entry_unique:
  assumes "\<And>table'. or_tags r table' tag = (if table' = table then Some outbound else None)"
  shows "first_entry tables r tag = (if table \<in> set tables then Some (ToOutbound table outbound) else None)"
  by (induction tables) (simp_all add: assms)

lemma all_tcp_tables: "table \<in> set tcp_tables"
proof -
  have "s \<in> set stream_tables" for s by (cases s) (simp_all add: stream_tables_def)
  then show ?thesis by (cases table) (simp_all add: tcp_tables_def)
qed

lemma all_udp_tables: "table \<in> set udp_tables \<longleftrightarrow> table \<notin> {HttpConnectTags, NaiveH2TcpTags, NaiveH3QuicTags}"
proof -
  have "s \<in> set stream_tables" for s by (cases s) (simp_all add: stream_tables_def)
  then show ?thesis by (cases table) (auto simp: udp_tables_def)
qed

fun outbound_server :: "outbound \<Rightarrow> endpoint" where
  "outbound_server (StreamOutbound s) = so_server s"
| "outbound_server (ProxyOutbound e c) = e"
| "outbound_server (ShadowsocksTcpOutbound e c w) = e"
| "outbound_server (TlsOutbound e c sni skip_verify) = e"
| "outbound_server (MieruTcpOutbound e u w) = e"
| "outbound_server (TuicOutbound e u w sni skip_verify) = e"

lemma stream_parts_server: "so_server (snd (stream_parts e c t s)) = e"
  by (cases "(e, c, t, s)" rule: stream_parts.cases) (simp_all add: plain_stream_def Let_def)

lemma profile_outbound_shape:
  assumes "profile_outbound p = Ok (table, outbound)"
  shows "outbound_server outbound = pf_endpoint p"
    and "table \<in> {HttpConnectTags, NaiveH2TcpTags, NaiveH3QuicTags} \<longleftrightarrow> pf_protocol p \<in> {Http, Naive}"
proof -
  obtain tags stream where stream:
    "stream_parts (pf_endpoint p) (pf_credential p) (pf_transport p) (pf_security p) = (tags, stream)"
    by fastforce
  then have "so_server stream = pf_endpoint p"
    using stream_parts_server [of "pf_endpoint p" "pf_credential p" "pf_transport p" "pf_security p"] by simp
  with assms stream show "outbound_server outbound = pf_endpoint p"
    "table \<in> {HttpConnectTags, NaiveH2TcpTags, NaiveH3QuicTags} \<longleftrightarrow> pf_protocol p \<in> {Http, Naive}"
    by (cases "pf_protocol p"; cases "pf_transport p"; cases "pf_security p";
        auto simp: profile_outbound_defs Let_def outcome_simps)+
qed

text \<open>
  C18. When the tags of the profiles are distinct, every tag leads to the outbound made from its profile:
  TCP flows always, datagrams unless the protocol is HTTP CONNECT or Naive, which carry none and are
  refused. A tag of no profile is refused for both.
\<close>

theorem tags_lead_to_their_profile:
  assumes built: "from_profiles ps = Ok r" and distinct: "distinct (map pf_tag ps)"
  shows "list_all (\<lambda>p. \<exists>table outbound. profile_outbound p = Ok (table, outbound)
      \<and> outbound_server outbound = pf_endpoint p
      \<and> tcp_dispatch r (pf_tag p) = Some (ToOutbound table outbound)
      \<and> udp_dispatch r (pf_tag p)
        = (if pf_protocol p \<in> {Http, Naive} then None else Some (ToOutbound table outbound))) ps
    \<and> (tag \<in> pf_tag ` set ps \<or> tcp_dispatch r tag = None \<and> udp_dispatch r tag = None)"
proof -
  have run: "add_profiles ps outbound_registry_new = (Ok (), r)"
    using built by (auto simp: from_profiles_def split: prod.splits outcome.splits)
  note tables = add_profiles_lookup [OF run distinct]
  have direct: "or_direct_tags r = {}" using tables by (simp add: outbound_registry_new_def)
  have "tag \<notin> pf_tag ` set ps \<Longrightarrow> tcp_dispatch r tag = None \<and> udp_dispatch r tag = None"
    using tables direct
    by (auto simp: tcp_dispatch_def udp_dispatch_def outbound_registry_new_def intro!: first_entry_None)
  moreover have "\<exists>table outbound. profile_outbound p = Ok (table, outbound)
      \<and> outbound_server outbound = pf_endpoint p
      \<and> tcp_dispatch r (pf_tag p) = Some (ToOutbound table outbound)
      \<and> udp_dispatch r (pf_tag p)
        = (if pf_protocol p \<in> {Http, Naive} then None else Some (ToOutbound table outbound))"
    if p: "p \<in> set ps" for p
  proof -
    obtain table outbound where out: "profile_outbound p = Ok (table, outbound)"
        and entry: "\<And>table'. or_tags r table' (pf_tag p) = (if table' = table then Some outbound else None)"
      using tables p by (fastforce simp: outbound_registry_new_def)
    show ?thesis
      using out profile_outbound_shape [OF out] first_entry_unique [of r "pf_tag p", OF entry] direct
      by (auto simp: tcp_dispatch_def udp_dispatch_def all_tcp_tables all_udp_tables)
  qed
  ultimately show ?thesis by (auto simp: list_all_iff)
qed

theorem tags_lead_to_their_profile_witness:
  "\<exists>r table outbound. from_profiles [sample_profile] = Ok r
    \<and> profile_outbound sample_profile = Ok (table, outbound)
    \<and> tcp_dispatch r ''node'' = Some (ToOutbound table outbound)
    \<and> udp_dispatch r ''node'' = Some (ToOutbound table outbound)
    \<and> tcp_dispatch r ''other'' = None"
proof -
  have "list_all registrable [sample_profile]"
    using sample_valid by (simp add: registrable_def) (simp add: sample_profile_def)
  then obtain r where r: "from_profiles [sample_profile] = Ok r"
    using add_profiles_registrable [of "[sample_profile]" outbound_registry_new] by (auto simp: from_profiles_def)
  show ?thesis
    using tags_lead_to_their_profile [OF r, of "''other''"] r by (auto simp: sample_profile_def)
qed

lemma profile_outbound_table:
  assumes "profile_outbound p = Ok (table, outbound)"
  shows "pf_protocol p = Trojan \<Longrightarrow> \<exists>x. table = TrojanTags x" "pf_protocol p = Vmess \<Longrightarrow> \<exists>x. table = VmessTags x"
proof -
  obtain tags stream where
    "stream_parts (pf_endpoint p) (pf_credential p) (pf_transport p) (pf_security p) = (tags, stream)"
    by fastforce
  with assms show "pf_protocol p = Trojan \<Longrightarrow> \<exists>x. table = TrojanTags x"
      "pf_protocol p = Vmess \<Longrightarrow> \<exists>x. table = VmessTags x"
    by (auto simp: profile_outbound_defs Let_def outcome_simps)
qed

text \<open>
  C20. Two profiles under one tag split its traffic. The registry keeps a table per kind of outbound and
  searches them in different orders for TCP and for datagrams, so that with a Trojan and a VMess profile
  of the same tag, in either order, TCP flows leave through the Trojan server and datagrams through the
  VMess server.
\<close>

theorem same_tag_splits_traffic:
  assumes "registrable t" "pf_protocol t = Trojan" and "registrable v" "pf_protocol v = Vmess"
    and "pf_tag v = pf_tag t"
  shows "\<exists>r trojan_table trojan vmess_table vmess. from_profiles [t, v] = Ok r
    \<and> tcp_dispatch r (pf_tag t) = Some (ToOutbound trojan_table trojan) \<and> outbound_server trojan = pf_endpoint t
    \<and> udp_dispatch r (pf_tag t) = Some (ToOutbound vmess_table vmess) \<and> outbound_server vmess = pf_endpoint v"
proof -
  obtain x trojan where t: "profile_outbound t = Ok (TrojanTags x, trojan)"
      "\<And>r. add_profile t r = (Ok (), add_outbound (TrojanTags x) (pf_tag t) trojan r)"
    using assms(1,2) by (metis add_profile_registrable profile_outbound_table(1))
  obtain y vmess where v: "profile_outbound v = Ok (VmessTags y, vmess)"
      "\<And>r. add_profile v r = (Ok (), add_outbound (VmessTags y) (pf_tag v) vmess r)"
    using assms(3,4) by (metis add_profile_registrable profile_outbound_table(2))
  let ?r = "add_outbound (VmessTags y) (pf_tag t) vmess
    (add_outbound (TrojanTags x) (pf_tag t) trojan outbound_registry_new)"
  have "from_profiles [t, v] = Ok ?r"
    using t(2) v(2) assms(5) by (simp add: from_profiles_def sbind_def ret_def)
  moreover have "tcp_dispatch ?r (pf_tag t) = Some (ToOutbound (TrojanTags x) trojan)"
    by (cases x) (simp_all add: tcp_dispatch_def tcp_tables_def stream_tables_def add_outbound_lookup
        outbound_registry_new_def)
  moreover have "udp_dispatch ?r (pf_tag t) = Some (ToOutbound (VmessTags y) vmess)"
    by (cases y) (simp_all add: udp_dispatch_def udp_tables_def stream_tables_def add_outbound_lookup
        outbound_registry_new_def)
  ultimately show ?thesis
    using profile_outbound_shape(1) [OF t(1)] profile_outbound_shape(1) [OF v(1)] by blast
qed

definition sample_trojan :: outbound_profile where
  "sample_trojan = sample_profile\<lparr>pf_protocol := Trojan, pf_credential := ''password'',
     pf_endpoint := endpoint_new ''trojan.example'' 443\<rparr>"

definition sample_vmess :: outbound_profile where
  "sample_vmess = sample_profile\<lparr>pf_protocol := Vmess, pf_cipher := Some ''auto''\<rparr>"

lemma sample_registrable: "registrable sample_trojan" "registrable sample_vmess"
proof -
  show "registrable sample_trojan"
    by (simp add: registrable_def validate_accepts sample_trojan_def sample_profile_def trim_visible visible_def
        char_code_def endpoint_new_def)
  show "registrable sample_vmess"
    using sample_uuid
    by (simp add: registrable_def validate_accepts sample_vmess_def sample_profile_def trim_visible visible_def
        char_code_def endpoint_new_def vmess_cipher_supported_def to_ascii_lowercase_def ascii_lower_def)
qed

theorem same_tag_splits_traffic_witness:
  "\<exists>r trojan_table trojan vmess_table vmess. from_profiles [sample_trojan, sample_vmess] = Ok r
    \<and> tcp_dispatch r ''node'' = Some (ToOutbound trojan_table trojan)
    \<and> ep_host (outbound_server trojan) = ''trojan.example''
    \<and> udp_dispatch r ''node'' = Some (ToOutbound vmess_table vmess)
    \<and> ep_host (outbound_server vmess) = ''server.example''"
proof -
  have "pf_protocol sample_trojan = Trojan" "pf_protocol sample_vmess = Vmess"
      "pf_tag sample_vmess = pf_tag sample_trojan" "pf_tag sample_trojan = ''node''"
      "ep_host (pf_endpoint sample_trojan) = ''trojan.example''"
      "ep_host (pf_endpoint sample_vmess) = ''server.example''"
    by (simp_all add: sample_trojan_def sample_vmess_def sample_profile_def endpoint_new_def)
  with same_tag_splits_traffic [OF sample_registrable(1) _ sample_registrable(2)] show ?thesis by metis
qed

end
