(* ===== verification/Keli_Connect.thy ===== *)
theory Keli_Connect
  imports Keli_Http_Rewrite Keli_Registry Keli_Dns
begin

text \<open>
  The connectors of \<open>direct.rs\<close>. What the operating system and the transports below a proxy protocol do is
  the record \<open>network\<close>, a parameter; its state of type \<open>'w\<close>, which holds the system resolver and the sockets,
  is the resolver state of a DNS engine, so that an operation that is given a DNS engine acts on
  \<open>'w dns_engine\<close>: it looks names up through the engine's policies and cache and opens sockets on the same
  machine. \<open>DirectTcpConnector\<close> and \<open>DirectUdpConnector\<close> follow, and the outbounds that need no further
  protocol than those of the SOCKS5 and HTTP theories.
\<close>

section \<open>The network\<close>

text \<open>
  \<open>nw_lookup\<close> is \<open>(host, 0).to_socket_addrs()\<close>; TLS, WebSocket, gRPC, HTTP/2 and QUIC turn a stream, or an
  address, into the stream they carry. Setting a timeout or \<open>nodelay\<close> may fail and is an operation of its
  own. \<open>nw_sha224\<close> and \<open>nw_base64\<close> are the digest and the encoding of the sha2 and base64 crates.
\<close>

record 'w network =
  nw_now :: "'w \<Rightarrow> instant"
  nw_lookup :: "string \<Rightarrow> ('w, io_error, ip_addr list) op"
  nw_tcp_connect :: "socket_addr \<Rightarrow> duration \<Rightarrow> ('w, io_error, duplex) op"
  nw_set_nodelay :: "duplex \<Rightarrow> ('w, io_error, unit) op"
  nw_peer_addr :: "duplex \<Rightarrow> ('w, io_error, socket_addr) op"
  nw_udp_bind :: "socket_addr \<Rightarrow> ('w, io_error, nat) op"
  nw_set_timeout :: "nat \<Rightarrow> duration \<Rightarrow> ('w, io_error, unit) op"
  nw_send_to :: "nat \<Rightarrow> bytes \<Rightarrow> socket_addr \<Rightarrow> ('w, io_error, unit) op"
  nw_recv_from :: "nat \<Rightarrow> ('w, io_error, bytes \<times> socket_addr) op"
  nw_tls :: "string \<Rightarrow> bool \<Rightarrow> duplex \<Rightarrow> (io_error, duplex) outcome"
  nw_websocket :: "string \<Rightarrow> string \<Rightarrow> duplex \<Rightarrow> (io_error, duplex) outcome"
  nw_grpc_plain :: "string \<Rightarrow> string option \<Rightarrow> duplex \<Rightarrow> (io_error, duplex) outcome"
  nw_grpc_tls :: "string \<Rightarrow> bool \<Rightarrow> string \<Rightarrow> string option \<Rightarrow> duplex \<Rightarrow> (io_error, duplex) outcome"
  nw_h2_plain :: "string \<Rightarrow> string \<Rightarrow> duplex \<Rightarrow> (io_error, duplex) outcome"
  nw_h2_tls :: "string \<Rightarrow> bool \<Rightarrow> string \<Rightarrow> string \<Rightarrow> duplex \<Rightarrow> (io_error, duplex) outcome"
  nw_legacy_quic :: "socket_addr \<Rightarrow> socket_addr \<Rightarrow> string \<Rightarrow> bool \<Rightarrow> legacy_quic_transport_config \<Rightarrow> duration
    \<Rightarrow> ('w, io_error, duplex) op"
  nw_sha224 :: "bytes \<Rightarrow> bytes"
  nw_base64 :: "bytes \<Rightarrow> string"

text \<open>An operation of the machine below a DNS engine, and an operation on a stream that is handed over.\<close>

definition on_machine :: "('w, 'e, 'a) op \<Rightarrow> ('w dns_engine, 'e, 'a) op" where
  "on_machine m = (\<lambda>e. case m (dns_resolver e) of (r, w) \<Rightarrow> (r, e\<lparr>dns_resolver := w\<rparr>))"

definition on_stream :: "duplex \<Rightarrow> (duplex, 'e, 'a) op \<Rightarrow> ('s, 'e, 'a \<times> duplex) op" where
  "on_stream stream m = lift (case m stream of
      (Ok x, stream') \<Rightarrow> Ok (x, stream') | (Err e, _) \<Rightarrow> Err e | (Panic, _) \<Rightarrow> Panic)"

section \<open>Names\<close>

fun show_dns_policy :: "dns_local_resolution_policy \<Rightarrow> string" where
  "show_dns_policy AllowSystem = ''AllowSystem''"
| "show_dns_policy PreventPublicLeak = ''PreventPublicLeak''"

fun show_family_policy :: "dns_address_family_policy \<Rightarrow> string" where
  "show_family_policy DualStack = ''DualStack''"
| "show_family_policy Ipv4Only = ''Ipv4Only''"
| "show_family_policy Ipv6Only = ''Ipv6Only''"

fun show_dns_error :: "dns_error \<Rightarrow> string" where
  "show_dns_error (ResolveFailed host detail) = ''failed to resolve '' @ host @ '': '' @ detail"
| "show_dns_error (NoRecords host) = ''DNS returned no records for '' @ host"
| "show_dns_error (LocalResolutionBlocked host policy) =
     ''local DNS resolution for '' @ host @ '' blocked by '' @ show_dns_policy policy"
| "show_dns_error (AddressFamilyFiltered host policy) =
     ''DNS records for '' @ host @ '' were filtered by '' @ show_family_policy policy"

text \<open>\<open>io::Error::new(io::ErrorKind::AddrNotAvailable, error)\<close>.\<close>

definition dns_to_io :: "dns_error \<Rightarrow> io_error" where
  "dns_to_io e = IoError AddrNotAvailable (show_dns_error e)"

fun without_duplicates :: "ip_addr list \<Rightarrow> ip_addr list \<Rightarrow> ip_addr list" where
  "without_duplicates ips [] = ips"
| "without_duplicates ips (ip # rest) =
     without_duplicates (if ip \<in> set ips then ips else ips @ [ip]) rest"

definition system_dns_resolver :: "'w network \<Rightarrow> 'w resolver" where
  "system_dns_resolver net host =
     sbind (with_err (\<lambda>e. ResolveFailed host (error_message e)) (nw_lookup net host)) (\<lambda>addresses.
     ret (without_duplicates [] addresses))"

text \<open>\<open>resolve_endpoint_socket_addrs_with_dns\<close>, and the start of the connectors.\<close>

definition resolve_socket_addrs :: "'w network \<Rightarrow> string \<Rightarrow> u16 \<Rightarrow> ('w dns_engine, io_error, socket_addr list) op" where
  "resolve_socket_addrs net host port = (\<lambda>e.
     sbind (with_err dns_to_io (dns_resolve (system_dns_resolver net) host port (nw_now net (dns_resolver e)))) (\<lambda>addresses.
     ret (map (\<lambda>address. \<lparr>sa_ip = ra_ip address, sa_port = ra_port address\<rparr>) addresses)) e)"

text \<open>
  A name that the code resolves with an engine of its own, \<open>DnsEngine::new(SystemDnsResolver, ..)\<close>: the
  policies and the cache of the caller's engine play no part.
\<close>

definition with_fresh_engine :: "duration \<Rightarrow> ('w dns_engine, 'e, 'a) op \<Rightarrow> ('w dns_engine, 'e, 'a) op" where
  "with_fresh_engine ttl m = on_machine (\<lambda>w. case m (dns_engine_new w (dns_cache_new ttl)) of
      (r, e) \<Rightarrow> (r, dns_resolver e))"

definition no_address :: "string \<Rightarrow> string \<Rightarrow> u16 \<Rightarrow> io_error" where
  "no_address what host port = IoError AddrNotAvailable (''no address resolved for '' @ what @ host @ '':'' @ show_u16 port)"

definition first_address :: "'w network \<Rightarrow> string \<Rightarrow> string \<Rightarrow> string \<Rightarrow> u16 \<Rightarrow> ('w dns_engine, io_error, socket_addr) op" where
  "first_address net what name host port = sbind (resolve_socket_addrs net host port) (\<lambda>addresses.
     case addresses of a # _ \<Rightarrow> ret a | [] \<Rightarrow> lift (Err (no_address what name port)))"

definition literal_or_first :: "'w network \<Rightarrow> duration \<Rightarrow> string \<Rightarrow> string \<Rightarrow> u16 \<Rightarrow> ('w dns_engine, io_error, socket_addr) op" where
  "literal_or_first net timeout what name port =
     (let host = trim_brackets (trim name) in
      case parse_ip host of
        Some ip \<Rightarrow> ret \<lparr>sa_ip = ip, sa_port = port\<rparr>
      | None \<Rightarrow> with_fresh_engine timeout (first_address net what name host port))"

definition outbound_target_socket_addr :: "'w network \<Rightarrow> duration \<Rightarrow> outbound_target \<Rightarrow> ('w dns_engine, io_error, socket_addr) op" where
  "outbound_target_socket_addr net timeout target =
     literal_or_first net timeout ''outbound target '' (ot_host target) (ot_port target)"

definition trojan_endpoint_socket_addr :: "'w network \<Rightarrow> duration \<Rightarrow> endpoint \<Rightarrow> ('w dns_engine, io_error, socket_addr) op" where
  "trojan_endpoint_socket_addr net timeout source =
     literal_or_first net timeout ''Trojan UDP source '' (ep_host source) (ep_port source)"

section \<open>Direct connections\<close>

fun try_connect :: "'w network \<Rightarrow> duration \<Rightarrow> io_error \<Rightarrow> socket_addr list \<Rightarrow> ('w, io_error, duplex) op" where
  "try_connect net timeout last_error [] = lift (Err last_error)"
| "try_connect net timeout last_error (address # addresses) = (\<lambda>w.
     case nw_tcp_connect net address timeout w of
       (Ok stream, w) \<Rightarrow> sbind (nw_set_nodelay net stream) (\<lambda>_. ret stream) w
     | (Err e, w) \<Rightarrow> try_connect net timeout e addresses w
     | (Panic, w) \<Rightarrow> (Panic, w))"

definition direct_connect :: "'w network \<Rightarrow> duration \<Rightarrow> outbound_target \<Rightarrow> ('w dns_engine, io_error, duplex) op" where
  "direct_connect net timeout target =
     sbind (resolve_socket_addrs net (ot_host target) (ot_port target)) (\<lambda>addresses.
     on_machine (try_connect net timeout (no_address [] (ot_host target) (ot_port target)) addresses))"

definition hy2_bind_addr_for :: "socket_addr \<Rightarrow> socket_addr" where
  "hy2_bind_addr_for address = \<lparr>sa_ip = (if is_ipv4 (sa_ip address) then V4 0 else V6 0), sa_port = 0\<rparr>"

text \<open>One address of \<open>relay_datagram_with_dns\<close>: \<open>Ok (Inl e)\<close> goes on to the next one.\<close>

definition try_datagram :: "'w network \<Rightarrow> duration \<Rightarrow> bytes \<Rightarrow> socket_addr \<Rightarrow> ('w, io_error, io_error + udp_relay_response) op" where
  "try_datagram net timeout payload address = (\<lambda>w.
     case nw_udp_bind net (hy2_bind_addr_for address) w of
       (Ok socket, w) \<Rightarrow> sbind (nw_set_timeout net socket timeout) (\<lambda>_ w.
         case sbind (nw_send_to net socket payload address) (\<lambda>_. nw_recv_from net socket) w of
           (Ok (response, source), w) \<Rightarrow> (Ok (Inr \<lparr>rs_source = source, rs_payload = response\<rparr>), w)
         | (Err e, w) \<Rightarrow> (Ok (Inl e), w)
         | (Panic, w) \<Rightarrow> (Panic, w)) w
     | (Err e, w) \<Rightarrow> (Ok (Inl e), w)
     | (Panic, w) \<Rightarrow> (Panic, w))"

fun try_datagrams :: "'w network \<Rightarrow> duration \<Rightarrow> bytes \<Rightarrow> io_error \<Rightarrow> socket_addr list \<Rightarrow> ('w, io_error, udp_relay_response) op" where
  "try_datagrams net timeout payload last_error [] = lift (Err last_error)"
| "try_datagrams net timeout payload last_error (address # addresses) =
     sbind (try_datagram net timeout payload address) (\<lambda>r. case r of
       Inr response \<Rightarrow> ret response
     | Inl e \<Rightarrow> try_datagrams net timeout payload e addresses)"

definition direct_relay_datagram :: "'w network \<Rightarrow> duration \<Rightarrow> outbound_target \<Rightarrow> bytes
    \<Rightarrow> ('w dns_engine, io_error, udp_relay_response) op" where
  "direct_relay_datagram net timeout target payload =
     sbind (resolve_socket_addrs net (ot_host target) (ot_port target)) (\<lambda>addresses.
     on_machine (try_datagrams net timeout payload (no_address [] (ot_host target) (ot_port target)) addresses))"

section \<open>Proxies without encryption\<close>

text \<open>The first step of every outbound that dials its server over TCP.\<close>

definition dial_server :: "'w network \<Rightarrow> duration \<Rightarrow> endpoint \<Rightarrow> ('w dns_engine, io_error, duplex) op" where
  "dial_server net timeout server = direct_connect net timeout (outbound_target_new (ep_host server) (ep_port server))"

definition socks5_outbound_connect :: "'w network \<Rightarrow> duration \<Rightarrow> endpoint \<Rightarrow> string \<Rightarrow> outbound_target
    \<Rightarrow> ('w dns_engine, io_error, duplex) op" where
  "socks5_outbound_connect net timeout server credential target =
     sbind (dial_server net timeout server) (\<lambda>stream.
     sbind (on_stream stream (socks5_connect_proxy target credential)) (\<lambda>(_, stream). ret stream))"

definition http_outbound_connect :: "'w network \<Rightarrow> duration \<Rightarrow> endpoint \<Rightarrow> string \<Rightarrow> outbound_target
    \<Rightarrow> ('w dns_engine, io_error, duplex) op" where
  "http_outbound_connect net timeout server credential target =
     sbind (dial_server net timeout server) (\<lambda>stream.
     sbind (on_stream stream (http_connect_proxy (nw_base64 net) target credential)) (\<lambda>(_, stream). ret stream))"

definition is_unspecified :: "ip_addr \<Rightarrow> bool" where
  "is_unspecified ip \<longleftrightarrow> ip = V4 0 \<or> ip = V6 0"

definition socks5_udp_relay_addr :: "'w network \<Rightarrow> duration \<Rightarrow> endpoint \<Rightarrow> socket_addr \<Rightarrow> ('w dns_engine, io_error, socket_addr) op" where
  "socks5_udp_relay_addr net timeout relay control_peer =
     (let host = trim_brackets (trim (ep_host relay)) in
      case parse_ip host of
        Some ip \<Rightarrow> ret \<lparr>sa_ip = (if is_unspecified ip then sa_ip control_peer else ip), sa_port = ep_port relay\<rparr>
      | None \<Rightarrow> with_fresh_engine timeout
          (first_address net ''SOCKS5 UDP relay '' (ep_host relay) host (ep_port relay)))"

definition socks5_udp_source_addr :: "'w network \<Rightarrow> duration \<Rightarrow> socks5_address \<Rightarrow> u16 \<Rightarrow> ('w dns_engine, io_error, socket_addr) op" where
  "socks5_udp_source_addr net timeout address port = (case address of
      Socks5Ipv4 ip \<Rightarrow> ret \<lparr>sa_ip = V4 ip, sa_port = port\<rparr>
    | Socks5Ipv6 ip \<Rightarrow> ret \<lparr>sa_ip = V6 ip, sa_port = port\<rparr>
    | Socks5Domain host \<Rightarrow> with_fresh_engine timeout (first_address net ''SOCKS5 UDP source '' host host port))"

fun show_socks5_error :: "socks5_error \<Rightarrow> string" where
  "show_socks5_error (Socks5Io e) = ''SOCKS5 I/O error: '' @ error_message e"
| "show_socks5_error (Socks5UnsupportedVersion v) = ''unsupported SOCKS version: '' @ show_radix 10 (unat v)"
| "show_socks5_error (Socks5UnsupportedCommand c) = ''unsupported SOCKS5 command: '' @ show_radix 10 (unat c)"
| "show_socks5_error (Socks5UnsupportedAddressType t) = ''unsupported SOCKS5 address type: '' @ show_radix 10 (unat t)"
| "show_socks5_error Socks5EmptyMethodList = ''SOCKS5 handshake has no methods''"
| "show_socks5_error Socks5EmptyDomain = ''SOCKS5 request has an empty domain''"
| "show_socks5_error Socks5InvalidDomain = ''SOCKS5 request domain is not valid UTF-8''"
| "show_socks5_error Socks5FragmentedUdpDatagram = ''SOCKS5 fragmented UDP datagrams are not supported''"
| "show_socks5_error Socks5DomainTooLong = ''SOCKS5 domain is too long''"
| "show_socks5_error Socks5TruncatedUdpDatagram = ''SOCKS5 UDP datagram is truncated''"

definition socks5_outbound_relay :: "'w network \<Rightarrow> duration \<Rightarrow> endpoint \<Rightarrow> string \<Rightarrow> outbound_target \<Rightarrow> bytes
    \<Rightarrow> ('w dns_engine, io_error, udp_relay_response) op" where
  "socks5_outbound_relay net timeout server credential target payload =
     sbind (dial_server net timeout server) (\<lambda>control.
     sbind (on_machine (nw_peer_addr net control)) (\<lambda>control_peer.
     sbind (on_stream control (socks5_udp_associate_proxy credential)) (\<lambda>(relay, control).
     sbind (socks5_udp_relay_addr net timeout relay control_peer) (\<lambda>relay.
     sbind (on_machine (nw_udp_bind net (hy2_bind_addr_for relay))) (\<lambda>socket.
     sbind (on_machine (nw_set_timeout net socket timeout)) (\<lambda>_.
     sbind (on_machine (nw_set_timeout net socket timeout)) (\<lambda>_.
     sbind (lift (socks5_address_from_target target)) (\<lambda>address.
     sbind (lift (map_err (\<lambda>e. IoError InvalidInput (show_socks5_error e))
       (encode_socks5_udp_datagram address (ot_port target) payload))) (\<lambda>packet.
     sbind (on_machine (nw_send_to net socket packet relay)) (\<lambda>_.
     sbind (on_machine (nw_recv_from net socket)) (\<lambda>(response, _).
     sbind (lift (map_err (\<lambda>e. IoError InvalidData (show_socks5_error e))
       (parse_socks5_udp_datagram response))) (\<lambda>datagram.
     sbind (socks5_udp_source_addr net timeout (sd_address datagram) (sd_port datagram)) (\<lambda>source.
     ret \<lparr>rs_source = source, rs_payload = sd_payload datagram\<rparr>)))))))))))))"

section \<open>What a connection leaves behind\<close>

lemma on_stream_state [simp]: "snd (on_stream stream m s) = s"
  by (simp add: on_stream_def lift_def)

lemma on_machine_fields [simp]:
  "dns_policy (snd (on_machine m e)) = dns_policy e" "dns_family (snd (on_machine m e)) = dns_family e"
  "dns_cache (snd (on_machine m e)) = dns_cache e"
  by (simp_all add: on_machine_def split: prod.split)

lemma lift_state [simp]: "snd (lift r s) = s" and ret_state [simp]: "snd (ret x s) = s"
  by (simp_all add: lift_def ret_def)

text \<open>Two operations that leave the same state and agree on success can be followed by the same steps.\<close>

lemma sbind_state_cong:
  assumes "\<And>x s'. m s = (Ok x, s') \<Longrightarrow> snd (f x s') = snd (g x s')"
  shows "snd (sbind m f s) = snd (sbind m g s)"
  using assms by (auto simp: sbind_def split: prod.split outcome.split)

lemma sbind_same_state:
  assumes "\<And>x s'. m s = (Ok x, s') \<Longrightarrow> snd (f x s') = s'"
  shows "snd (sbind m f s) = snd (m s)"
  using assms by (auto simp: sbind_def split: prod.split outcome.split)

text \<open>A name that may not be looked up is not dialled either.\<close>

definition public_name :: "string \<Rightarrow> bool" where
  "public_name host \<longleftrightarrow> parse_ip (normalize_host host) = None \<and> normalize_host host \<noteq> ''localhost''"

definition blocked_lookup :: "string \<Rightarrow> io_error" where
  "blocked_lookup host = dns_to_io (LocalResolutionBlocked (normalize_host host) PreventPublicLeak)"

lemma resolve_blocked:
  assumes "dns_policy e = PreventPublicLeak" "public_name host"
  shows "resolve_socket_addrs net host port e = (Err (blocked_lookup host), e)"
  using assms
  by (simp add: resolve_socket_addrs_def public_name_def blocked_lookup_def dns_resolve_def sbind_def with_err_def dns_to_io_def Let_def)

lemma direct_connect_blocked:
  assumes "dns_policy e = PreventPublicLeak" "public_name (ot_host target)"
  shows "direct_connect net timeout target e = (Err (blocked_lookup (ot_host target)), e)"
  using resolve_blocked [OF assms] by (simp add: direct_connect_def sbind_def)

end
