(* ===== verification/Keli_Outbound.thy ===== *)
theory Keli_Outbound
  imports Keli_Connect
begin

text \<open>
  The Trojan and VLESS outbounds of \<open>direct.rs\<close>, one definition for \<open>connect_with_dns\<close> and one for
  \<open>relay_udp_datagram_with_dns\<close> of each of the twenty-two structs, and the dispatch of the registry to them.
  The structs repeat the same steps; that they all agree with one generic definition, and what that means
  for names and for the bytes on the wire, are the properties here.
\<close>

section \<open>Requests over an open stream\<close>

type_synonym 'w connecting = "'w network \<Rightarrow> duration \<Rightarrow> stream_outbound \<Rightarrow> outbound_target
    \<Rightarrow> ('w dns_engine, io_error, duplex) op"

type_synonym 'w relaying = "'w network \<Rightarrow> duration \<Rightarrow> stream_outbound \<Rightarrow> outbound_target \<Rightarrow> bytes
    \<Rightarrow> ('w dns_engine, io_error, udp_relay_response) op"

text \<open>The fields a struct has are present in its record.\<close>

definition field_of :: "string option \<Rightarrow> string" where
  "field_of f = (case f of Some v \<Rightarrow> v | None \<Rightarrow> [])"

abbreviation o_host :: "stream_outbound \<Rightarrow> string" where
  "o_host out \<equiv> field_of (so_host out)"

abbreviation o_path :: "stream_outbound \<Rightarrow> string" where
  "o_path out \<equiv> field_of (so_path out)"

definition o_sni :: "stream_outbound \<Rightarrow> string" where
  "o_sni out = (case so_tls out of Some (sni, _) \<Rightarrow> sni | None \<Rightarrow> [])"

definition o_skip_verify :: "stream_outbound \<Rightarrow> bool" where
  "o_skip_verify out = (case so_tls out of Some (_, skip_verify) \<Rightarrow> skip_verify | None \<Rightarrow> False)"

definition o_transport :: "stream_outbound \<Rightarrow> legacy_quic_transport_config" where
  "o_transport out = (case so_quic out of Some transport \<Rightarrow> transport
     | None \<Rightarrow> \<lparr>lq_security = None, lq_key = None, lq_header_type = None\<rparr>)"

text \<open>What Trojan and VLESS do with the stream to their server before it is handed over.\<close>

definition trojan_request :: "'w network \<Rightarrow> stream_outbound \<Rightarrow> outbound_target \<Rightarrow> (duplex, io_error, unit) op" where
  "trojan_request net out target =
     sbind (lift (map_err protocol_encoding_to_io (encode_trojan_tcp_request_header (nw_sha224 net) (so_credential out)
       (endpoint_new (ot_host target) (ot_port target))))) (\<lambda>header.
     write_all header)"

definition vless_request :: "stream_outbound \<Rightarrow> outbound_target \<Rightarrow> (duplex, io_error, unit) op" where
  "vless_request out target =
     sbind (lift (map_err protocol_encoding_to_io (encode_vless_tcp_request_header (so_credential out)
       (endpoint_new (ot_host target) (ot_port target)) (so_flow out)))) (\<lambda>header.
     sbind (write_all header) (\<lambda>_.
     read_vless_response_header_from_stream))"

definition hand_over :: "duplex \<Rightarrow> (duplex, io_error, unit) op \<Rightarrow> ('w dns_engine, io_error, duplex) op" where
  "hand_over stream m = sbind (on_stream stream m) (\<lambda>(_, stream). ret stream)"

text \<open>The datagram exchanges with the resolution of the source address they end with.\<close>

definition send_trojan_udp :: "'w network \<Rightarrow> duration \<Rightarrow> stream_outbound \<Rightarrow> outbound_target \<Rightarrow> bytes \<Rightarrow> duplex
    \<Rightarrow> ('w dns_engine, io_error, udp_relay_response) op" where
  "send_trojan_udp net timeout out target payload stream =
     sbind (on_stream stream (send_trojan_udp_over_stream (nw_sha224 net) (so_credential out) target payload))
       (\<lambda>((source, payload), _).
     sbind (trojan_endpoint_socket_addr net timeout source) (\<lambda>source.
     ret \<lparr>rs_source = source, rs_payload = payload\<rparr>))"

definition send_vless_udp :: "'w network \<Rightarrow> duration \<Rightarrow> stream_outbound \<Rightarrow> outbound_target \<Rightarrow> bytes \<Rightarrow> duplex
    \<Rightarrow> ('w dns_engine, io_error, udp_relay_response) op" where
  "send_vless_udp net timeout out target payload stream =
     sbind (on_stream stream (send_vless_udp_over_stream (so_credential out) (so_flow out) target payload))
       (\<lambda>(payload, _).
     sbind (outbound_target_socket_addr net timeout target) (\<lambda>source.
     ret \<lparr>rs_source = source, rs_payload = payload\<rparr>))"

text \<open>\<open>connect_httpupgrade_client\<close> takes the stream and gives it back.\<close>

definition upgraded :: "string \<Rightarrow> string \<Rightarrow> duplex \<Rightarrow> (io_error, duplex) outcome" where
  "upgraded host path stream = (case connect_httpupgrade_client host path stream of
      (Ok _, stream) \<Rightarrow> Ok stream | (Err e, _) \<Rightarrow> Err e | (Panic, _) \<Rightarrow> Panic)"

fun try_legacy_quic :: "'w network \<Rightarrow> duration \<Rightarrow> stream_outbound \<Rightarrow> io_error \<Rightarrow> socket_addr list \<Rightarrow> ('w, io_error, duplex) op" where
  "try_legacy_quic net timeout out last_error [] = lift (Err last_error)"
| "try_legacy_quic net timeout out last_error (address # addresses) = (\<lambda>w.
     case nw_legacy_quic net (hy2_bind_addr_for address) address (o_sni out) (o_skip_verify out) (o_transport out) timeout w of
       (Ok stream, w) \<Rightarrow> (Ok stream, w)
     | (Err e, w) \<Rightarrow> try_legacy_quic net timeout out e addresses w
     | (Panic, w) \<Rightarrow> (Panic, w))"

definition connect_legacy_quic_stream :: "'w network \<Rightarrow> duration \<Rightarrow> stream_outbound \<Rightarrow> ('w dns_engine, io_error, duplex) op" where
  "connect_legacy_quic_stream net timeout out =
     (let server = so_server out in
      sbind (resolve_socket_addrs net (ep_host server) (ep_port server)) (\<lambda>addresses.
      on_machine (try_legacy_quic net timeout out (no_address [] (ep_host server) (ep_port server)) addresses)))"

section \<open>Trojan\<close>

definition trojan_tcp_connect :: "'w connecting" where
  "trojan_tcp_connect net timeout out target =
     sbind (dial_server net timeout (so_server out)) (\<lambda>stream.
     hand_over stream (trojan_request net out target))"

definition trojan_tcp_relay :: "'w relaying" where
  "trojan_tcp_relay net timeout out target payload =
     sbind (dial_server net timeout (so_server out)) (\<lambda>stream.
     send_trojan_udp net timeout out target payload stream)"

definition trojan_tls_tcp_connect :: "'w connecting" where
  "trojan_tls_tcp_connect net timeout out target =
     sbind (dial_server net timeout (so_server out)) (\<lambda>stream.
     sbind (lift (nw_tls net (o_sni out) (o_skip_verify out) stream)) (\<lambda>stream.
     hand_over stream (trojan_request net out target)))"

definition trojan_tls_tcp_relay :: "'w relaying" where
  "trojan_tls_tcp_relay net timeout out target payload =
     sbind (dial_server net timeout (so_server out)) (\<lambda>stream.
     sbind (lift (nw_tls net (o_sni out) (o_skip_verify out) stream)) (\<lambda>stream.
     send_trojan_udp net timeout out target payload stream))"

definition trojan_ws_connect :: "'w connecting" where
  "trojan_ws_connect net timeout out target =
     sbind (dial_server net timeout (so_server out)) (\<lambda>stream.
     sbind (lift (nw_websocket net (o_host out) (o_path out) stream)) (\<lambda>stream.
     hand_over stream (trojan_request net out target)))"

definition trojan_ws_relay :: "'w relaying" where
  "trojan_ws_relay net timeout out target payload =
     sbind (dial_server net timeout (so_server out)) (\<lambda>stream.
     sbind (lift (nw_websocket net (o_host out) (o_path out) stream)) (\<lambda>stream.
     send_trojan_udp net timeout out target payload stream))"

definition trojan_tls_ws_connect :: "'w connecting" where
  "trojan_tls_ws_connect net timeout out target =
     sbind (dial_server net timeout (so_server out)) (\<lambda>stream.
     sbind (lift (nw_tls net (o_sni out) (o_skip_verify out) stream)) (\<lambda>stream.
     sbind (lift (nw_websocket net (o_host out) (o_path out) stream)) (\<lambda>stream.
     hand_over stream (trojan_request net out target))))"

definition trojan_tls_ws_relay :: "'w relaying" where
  "trojan_tls_ws_relay net timeout out target payload =
     sbind (dial_server net timeout (so_server out)) (\<lambda>stream.
     sbind (lift (nw_tls net (o_sni out) (o_skip_verify out) stream)) (\<lambda>stream.
     sbind (lift (nw_websocket net (o_host out) (o_path out) stream)) (\<lambda>stream.
     send_trojan_udp net timeout out target payload stream)))"

definition trojan_httpupgrade_connect :: "'w connecting" where
  "trojan_httpupgrade_connect net timeout out target =
     sbind (dial_server net timeout (so_server out)) (\<lambda>stream.
     sbind (lift (upgraded (o_host out) (o_path out) stream)) (\<lambda>stream.
     hand_over stream (trojan_request net out target)))"

definition trojan_httpupgrade_relay :: "'w relaying" where
  "trojan_httpupgrade_relay net timeout out target payload =
     sbind (dial_server net timeout (so_server out)) (\<lambda>stream.
     sbind (lift (upgraded (o_host out) (o_path out) stream)) (\<lambda>stream.
     send_trojan_udp net timeout out target payload stream))"

definition trojan_tls_httpupgrade_connect :: "'w connecting" where
  "trojan_tls_httpupgrade_connect net timeout out target =
     sbind (dial_server net timeout (so_server out)) (\<lambda>stream.
     sbind (lift (nw_tls net (o_sni out) (o_skip_verify out) stream)) (\<lambda>stream.
     sbind (lift (upgraded (o_host out) (o_path out) stream)) (\<lambda>stream.
     hand_over stream (trojan_request net out target))))"

definition trojan_tls_httpupgrade_relay :: "'w relaying" where
  "trojan_tls_httpupgrade_relay net timeout out target payload =
     sbind (dial_server net timeout (so_server out)) (\<lambda>stream.
     sbind (lift (nw_tls net (o_sni out) (o_skip_verify out) stream)) (\<lambda>stream.
     sbind (lift (upgraded (o_host out) (o_path out) stream)) (\<lambda>stream.
     send_trojan_udp net timeout out target payload stream)))"

definition trojan_grpc_connect :: "'w connecting" where
  "trojan_grpc_connect net timeout out target =
     sbind (dial_server net timeout (so_server out)) (\<lambda>stream.
     sbind (lift (nw_grpc_plain net (o_host out) (so_service_name out) stream)) (\<lambda>stream.
     hand_over stream (trojan_request net out target)))"

definition trojan_grpc_relay :: "'w relaying" where
  "trojan_grpc_relay net timeout out target payload =
     sbind (dial_server net timeout (so_server out)) (\<lambda>stream.
     sbind (lift (nw_grpc_plain net (o_host out) (so_service_name out) stream)) (\<lambda>stream.
     send_trojan_udp net timeout out target payload stream))"

definition trojan_tls_grpc_connect :: "'w connecting" where
  "trojan_tls_grpc_connect net timeout out target =
     sbind (dial_server net timeout (so_server out)) (\<lambda>stream.
     sbind (lift (nw_grpc_tls net (o_sni out) (o_skip_verify out) (o_host out) (so_service_name out) stream)) (\<lambda>stream.
     hand_over stream (trojan_request net out target)))"

definition trojan_tls_grpc_relay :: "'w relaying" where
  "trojan_tls_grpc_relay net timeout out target payload =
     sbind (dial_server net timeout (so_server out)) (\<lambda>stream.
     sbind (lift (nw_grpc_tls net (o_sni out) (o_skip_verify out) (o_host out) (so_service_name out) stream)) (\<lambda>stream.
     send_trojan_udp net timeout out target payload stream))"

definition trojan_h2_connect :: "'w connecting" where
  "trojan_h2_connect net timeout out target =
     sbind (dial_server net timeout (so_server out)) (\<lambda>stream.
     sbind (lift (nw_h2_plain net (o_host out) (o_path out) stream)) (\<lambda>stream.
     hand_over stream (trojan_request net out target)))"

definition trojan_h2_relay :: "'w relaying" where
  "trojan_h2_relay net timeout out target payload =
     sbind (dial_server net timeout (so_server out)) (\<lambda>stream.
     sbind (lift (nw_h2_plain net (o_host out) (o_path out) stream)) (\<lambda>stream.
     send_trojan_udp net timeout out target payload stream))"

definition trojan_tls_h2_connect :: "'w connecting" where
  "trojan_tls_h2_connect net timeout out target =
     sbind (dial_server net timeout (so_server out)) (\<lambda>stream.
     sbind (lift (nw_h2_tls net (o_sni out) (o_skip_verify out) (o_host out) (o_path out) stream)) (\<lambda>stream.
     hand_over stream (trojan_request net out target)))"

definition trojan_tls_h2_relay :: "'w relaying" where
  "trojan_tls_h2_relay net timeout out target payload =
     sbind (dial_server net timeout (so_server out)) (\<lambda>stream.
     sbind (lift (nw_h2_tls net (o_sni out) (o_skip_verify out) (o_host out) (o_path out) stream)) (\<lambda>stream.
     send_trojan_udp net timeout out target payload stream))"

definition trojan_quic_connect :: "'w connecting" where
  "trojan_quic_connect net timeout out target =
     sbind (connect_legacy_quic_stream net timeout out) (\<lambda>stream.
     hand_over stream (trojan_request net out target))"

definition trojan_quic_relay :: "'w relaying" where
  "trojan_quic_relay net timeout out target payload =
     sbind (connect_legacy_quic_stream net timeout out) (\<lambda>stream.
     send_trojan_udp net timeout out target payload stream)"

section \<open>VLESS\<close>

definition vless_tcp_connect :: "'w connecting" where
  "vless_tcp_connect net timeout out target =
     sbind (dial_server net timeout (so_server out)) (\<lambda>stream.
     hand_over stream (vless_request out target))"

definition vless_tcp_relay :: "'w relaying" where
  "vless_tcp_relay net timeout out target payload =
     sbind (dial_server net timeout (so_server out)) (\<lambda>stream.
     send_vless_udp net timeout out target payload stream)"

definition vless_tls_tcp_connect :: "'w connecting" where
  "vless_tls_tcp_connect net timeout out target =
     sbind (dial_server net timeout (so_server out)) (\<lambda>stream.
     sbind (lift (nw_tls net (o_sni out) (o_skip_verify out) stream)) (\<lambda>stream.
     hand_over stream (vless_request out target)))"

definition vless_tls_tcp_relay :: "'w relaying" where
  "vless_tls_tcp_relay net timeout out target payload =
     sbind (dial_server net timeout (so_server out)) (\<lambda>stream.
     sbind (lift (nw_tls net (o_sni out) (o_skip_verify out) stream)) (\<lambda>stream.
     send_vless_udp net timeout out target payload stream))"

definition vless_ws_connect :: "'w connecting" where
  "vless_ws_connect net timeout out target =
     sbind (dial_server net timeout (so_server out)) (\<lambda>stream.
     sbind (lift (nw_websocket net (o_host out) (o_path out) stream)) (\<lambda>stream.
     hand_over stream (vless_request out target)))"

definition vless_ws_relay :: "'w relaying" where
  "vless_ws_relay net timeout out target payload =
     sbind (dial_server net timeout (so_server out)) (\<lambda>stream.
     sbind (lift (nw_websocket net (o_host out) (o_path out) stream)) (\<lambda>stream.
     send_vless_udp net timeout out target payload stream))"

definition vless_tls_ws_connect :: "'w connecting" where
  "vless_tls_ws_connect net timeout out target =
     sbind (dial_server net timeout (so_server out)) (\<lambda>stream.
     sbind (lift (nw_tls net (o_sni out) (o_skip_verify out) stream)) (\<lambda>stream.
     sbind (lift (nw_websocket net (o_host out) (o_path out) stream)) (\<lambda>stream.
     hand_over stream (vless_request out target))))"

definition vless_tls_ws_relay :: "'w relaying" where
  "vless_tls_ws_relay net timeout out target payload =
     sbind (dial_server net timeout (so_server out)) (\<lambda>stream.
     sbind (lift (nw_tls net (o_sni out) (o_skip_verify out) stream)) (\<lambda>stream.
     sbind (lift (nw_websocket net (o_host out) (o_path out) stream)) (\<lambda>stream.
     send_vless_udp net timeout out target payload stream)))"

definition vless_httpupgrade_connect :: "'w connecting" where
  "vless_httpupgrade_connect net timeout out target =
     sbind (dial_server net timeout (so_server out)) (\<lambda>stream.
     sbind (lift (upgraded (o_host out) (o_path out) stream)) (\<lambda>stream.
     hand_over stream (vless_request out target)))"

definition vless_httpupgrade_relay :: "'w relaying" where
  "vless_httpupgrade_relay net timeout out target payload =
     sbind (dial_server net timeout (so_server out)) (\<lambda>stream.
     sbind (lift (upgraded (o_host out) (o_path out) stream)) (\<lambda>stream.
     send_vless_udp net timeout out target payload stream))"

definition vless_tls_httpupgrade_connect :: "'w connecting" where
  "vless_tls_httpupgrade_connect net timeout out target =
     sbind (dial_server net timeout (so_server out)) (\<lambda>stream.
     sbind (lift (nw_tls net (o_sni out) (o_skip_verify out) stream)) (\<lambda>stream.
     sbind (lift (upgraded (o_host out) (o_path out) stream)) (\<lambda>stream.
     hand_over stream (vless_request out target))))"

definition vless_tls_httpupgrade_relay :: "'w relaying" where
  "vless_tls_httpupgrade_relay net timeout out target payload =
     sbind (dial_server net timeout (so_server out)) (\<lambda>stream.
     sbind (lift (nw_tls net (o_sni out) (o_skip_verify out) stream)) (\<lambda>stream.
     sbind (lift (upgraded (o_host out) (o_path out) stream)) (\<lambda>stream.
     send_vless_udp net timeout out target payload stream)))"

definition vless_grpc_connect :: "'w connecting" where
  "vless_grpc_connect net timeout out target =
     sbind (dial_server net timeout (so_server out)) (\<lambda>stream.
     sbind (lift (nw_grpc_plain net (o_host out) (so_service_name out) stream)) (\<lambda>stream.
     hand_over stream (vless_request out target)))"

definition vless_grpc_relay :: "'w relaying" where
  "vless_grpc_relay net timeout out target payload =
     sbind (dial_server net timeout (so_server out)) (\<lambda>stream.
     sbind (lift (nw_grpc_plain net (o_host out) (so_service_name out) stream)) (\<lambda>stream.
     send_vless_udp net timeout out target payload stream))"

definition vless_tls_grpc_connect :: "'w connecting" where
  "vless_tls_grpc_connect net timeout out target =
     sbind (dial_server net timeout (so_server out)) (\<lambda>stream.
     sbind (lift (nw_grpc_tls net (o_sni out) (o_skip_verify out) (o_host out) (so_service_name out) stream)) (\<lambda>stream.
     hand_over stream (vless_request out target)))"

definition vless_tls_grpc_relay :: "'w relaying" where
  "vless_tls_grpc_relay net timeout out target payload =
     sbind (dial_server net timeout (so_server out)) (\<lambda>stream.
     sbind (lift (nw_grpc_tls net (o_sni out) (o_skip_verify out) (o_host out) (so_service_name out) stream)) (\<lambda>stream.
     send_vless_udp net timeout out target payload stream))"

definition vless_h2_connect :: "'w connecting" where
  "vless_h2_connect net timeout out target =
     sbind (dial_server net timeout (so_server out)) (\<lambda>stream.
     sbind (lift (nw_h2_plain net (o_host out) (o_path out) stream)) (\<lambda>stream.
     hand_over stream (vless_request out target)))"

definition vless_h2_relay :: "'w relaying" where
  "vless_h2_relay net timeout out target payload =
     sbind (dial_server net timeout (so_server out)) (\<lambda>stream.
     sbind (lift (nw_h2_plain net (o_host out) (o_path out) stream)) (\<lambda>stream.
     send_vless_udp net timeout out target payload stream))"

definition vless_tls_h2_connect :: "'w connecting" where
  "vless_tls_h2_connect net timeout out target =
     sbind (dial_server net timeout (so_server out)) (\<lambda>stream.
     sbind (lift (nw_h2_tls net (o_sni out) (o_skip_verify out) (o_host out) (o_path out) stream)) (\<lambda>stream.
     hand_over stream (vless_request out target)))"

definition vless_tls_h2_relay :: "'w relaying" where
  "vless_tls_h2_relay net timeout out target payload =
     sbind (dial_server net timeout (so_server out)) (\<lambda>stream.
     sbind (lift (nw_h2_tls net (o_sni out) (o_skip_verify out) (o_host out) (o_path out) stream)) (\<lambda>stream.
     send_vless_udp net timeout out target payload stream))"

definition vless_quic_connect :: "'w connecting" where
  "vless_quic_connect net timeout out target =
     sbind (connect_legacy_quic_stream net timeout out) (\<lambda>stream.
     hand_over stream (vless_request out target))"

definition vless_quic_relay :: "'w relaying" where
  "vless_quic_relay net timeout out target payload =
     sbind (connect_legacy_quic_stream net timeout out) (\<lambda>stream.
     send_vless_udp net timeout out target payload stream)"

section \<open>Dispatch\<close>

text \<open>The outbound of a table, as the arms of \<open>connect_with_dns\<close> and \<open>relay_udp_datagram_with_dns\<close> call it.\<close>

fun trojan_connect :: "stream_tags \<Rightarrow> 'w connecting" where
  "trojan_connect TcpTags = trojan_tcp_connect"
| "trojan_connect TlsTcpTags = trojan_tls_tcp_connect"
| "trojan_connect WsTags = trojan_ws_connect"
| "trojan_connect TlsWsTags = trojan_tls_ws_connect"
| "trojan_connect HttpupgradeTags = trojan_httpupgrade_connect"
| "trojan_connect TlsHttpupgradeTags = trojan_tls_httpupgrade_connect"
| "trojan_connect GrpcTags = trojan_grpc_connect"
| "trojan_connect TlsGrpcTags = trojan_tls_grpc_connect"
| "trojan_connect H2Tags = trojan_h2_connect"
| "trojan_connect TlsH2Tags = trojan_tls_h2_connect"
| "trojan_connect QuicTags = trojan_quic_connect"

fun trojan_relay :: "stream_tags \<Rightarrow> 'w relaying" where
  "trojan_relay TcpTags = trojan_tcp_relay"
| "trojan_relay TlsTcpTags = trojan_tls_tcp_relay"
| "trojan_relay WsTags = trojan_ws_relay"
| "trojan_relay TlsWsTags = trojan_tls_ws_relay"
| "trojan_relay HttpupgradeTags = trojan_httpupgrade_relay"
| "trojan_relay TlsHttpupgradeTags = trojan_tls_httpupgrade_relay"
| "trojan_relay GrpcTags = trojan_grpc_relay"
| "trojan_relay TlsGrpcTags = trojan_tls_grpc_relay"
| "trojan_relay H2Tags = trojan_h2_relay"
| "trojan_relay TlsH2Tags = trojan_tls_h2_relay"
| "trojan_relay QuicTags = trojan_quic_relay"

fun vless_connect :: "stream_tags \<Rightarrow> 'w connecting" where
  "vless_connect TcpTags = vless_tcp_connect"
| "vless_connect TlsTcpTags = vless_tls_tcp_connect"
| "vless_connect WsTags = vless_ws_connect"
| "vless_connect TlsWsTags = vless_tls_ws_connect"
| "vless_connect HttpupgradeTags = vless_httpupgrade_connect"
| "vless_connect TlsHttpupgradeTags = vless_tls_httpupgrade_connect"
| "vless_connect GrpcTags = vless_grpc_connect"
| "vless_connect TlsGrpcTags = vless_tls_grpc_connect"
| "vless_connect H2Tags = vless_h2_connect"
| "vless_connect TlsH2Tags = vless_tls_h2_connect"
| "vless_connect QuicTags = vless_quic_connect"

fun vless_relay :: "stream_tags \<Rightarrow> 'w relaying" where
  "vless_relay TcpTags = vless_tcp_relay"
| "vless_relay TlsTcpTags = vless_tls_tcp_relay"
| "vless_relay WsTags = vless_ws_relay"
| "vless_relay TlsWsTags = vless_tls_ws_relay"
| "vless_relay HttpupgradeTags = vless_httpupgrade_relay"
| "vless_relay TlsHttpupgradeTags = vless_tls_httpupgrade_relay"
| "vless_relay GrpcTags = vless_grpc_relay"
| "vless_relay TlsGrpcTags = vless_tls_grpc_relay"
| "vless_relay H2Tags = vless_h2_relay"
| "vless_relay TlsH2Tags = vless_tls_h2_relay"
| "vless_relay QuicTags = vless_quic_relay"


text \<open>What the registry hands a flow or a datagram to; the other protocols are parameters.\<close>

definition outbound_connect :: "'w network \<Rightarrow> duration \<Rightarrow> (registry_tags \<Rightarrow> outbound \<Rightarrow> outbound_target
    \<Rightarrow> ('w dns_engine, io_error, duplex) op) \<Rightarrow> dispatch \<Rightarrow> outbound_target \<Rightarrow> ('w dns_engine, io_error, duplex) op" where
  "outbound_connect net timeout other d target = (case d of
      ToDirect \<Rightarrow> direct_connect net timeout target
    | ToOutbound table outbound \<Rightarrow> (case (table, outbound) of
        (Socks5TcpTags, ProxyOutbound server credential) \<Rightarrow> socks5_outbound_connect net timeout server credential target
      | (HttpConnectTags, ProxyOutbound server credential) \<Rightarrow> http_outbound_connect net timeout server credential target
      | (TrojanTags tags, StreamOutbound out) \<Rightarrow> trojan_connect tags net timeout out target
      | (VlessTags tags, StreamOutbound out) \<Rightarrow> vless_connect tags net timeout out target
      | _ \<Rightarrow> other table outbound target))"

definition outbound_relay :: "'w network \<Rightarrow> duration \<Rightarrow> (registry_tags \<Rightarrow> outbound \<Rightarrow> outbound_target \<Rightarrow> bytes
    \<Rightarrow> ('w dns_engine, io_error, udp_relay_response) op) \<Rightarrow> dispatch \<Rightarrow> outbound_target \<Rightarrow> bytes
    \<Rightarrow> ('w dns_engine, io_error, udp_relay_response) op" where
  "outbound_relay net timeout other d target payload = (case d of
      ToDirect \<Rightarrow> direct_relay_datagram net timeout target payload
    | ToOutbound table outbound \<Rightarrow> (case (table, outbound) of
        (Socks5TcpTags, ProxyOutbound server credential) \<Rightarrow> socks5_outbound_relay net timeout server credential target payload
      | (TrojanTags tags, StreamOutbound out) \<Rightarrow> trojan_relay tags net timeout out target payload
      | (VlessTags tags, StreamOutbound out) \<Rightarrow> vless_relay tags net timeout out target payload
      | _ \<Rightarrow> other table outbound target payload))"

section \<open>One definition for all structs\<close>

text \<open>
  How a stream to the server is opened: QUIC by itself, everything else over TCP, with a TLS layer of its
  own or inside the transport, and the transport on top.
\<close>

definition own_tls :: "stream_tags \<Rightarrow> bool" where
  "own_tls tags \<longleftrightarrow> tags \<in> {TlsTcpTags, TlsWsTags, TlsHttpupgradeTags}"

fun transport_layer :: "'w network \<Rightarrow> stream_tags \<Rightarrow> stream_outbound \<Rightarrow> duplex \<Rightarrow> (io_error, duplex) outcome" where
  "transport_layer net WsTags out stream = nw_websocket net (o_host out) (o_path out) stream"
| "transport_layer net TlsWsTags out stream = nw_websocket net (o_host out) (o_path out) stream"
| "transport_layer net HttpupgradeTags out stream = upgraded (o_host out) (o_path out) stream"
| "transport_layer net TlsHttpupgradeTags out stream = upgraded (o_host out) (o_path out) stream"
| "transport_layer net GrpcTags out stream = nw_grpc_plain net (o_host out) (so_service_name out) stream"
| "transport_layer net TlsGrpcTags out stream =
     nw_grpc_tls net (o_sni out) (o_skip_verify out) (o_host out) (so_service_name out) stream"
| "transport_layer net H2Tags out stream = nw_h2_plain net (o_host out) (o_path out) stream"
| "transport_layer net TlsH2Tags out stream =
     nw_h2_tls net (o_sni out) (o_skip_verify out) (o_host out) (o_path out) stream"
| "transport_layer net _ out stream = Ok stream"

definition open_stream :: "'w network \<Rightarrow> duration \<Rightarrow> stream_tags \<Rightarrow> stream_outbound \<Rightarrow> ('w dns_engine, io_error, duplex) op" where
  "open_stream net timeout tags out =
     sbind (if tags = QuicTags then connect_legacy_quic_stream net timeout out else dial_server net timeout (so_server out))
       (\<lambda>stream.
     lift (obind (if own_tls tags then nw_tls net (o_sni out) (o_skip_verify out) stream else Ok stream)
       (transport_layer net tags out)))"

lemma sbind_assoc: "sbind (sbind m f) g = sbind m (\<lambda>x. sbind (f x) g)"
  by (rule ext) (simp add: sbind_def split: prod.split outcome.split)

lemma sbind_lift: "sbind (lift r) f = (case r of Ok x \<Rightarrow> f x | Err e \<Rightarrow> lift (Err e) | Panic \<Rightarrow> lift Panic)"
  by (rule ext) (simp add: sbind_def lift_def split: outcome.split)

lemma sbind_lift_Ok [simp]: "sbind (lift (Ok x)) f = f x"
  by (simp add: sbind_lift)

lemma lift_obind: "sbind (lift (obind r f)) g = sbind (lift r) (\<lambda>x. sbind (lift (f x)) g)"
  by (cases r) (simp_all add: sbind_lift)

lemmas trojan_defs = trojan_tcp_connect_def trojan_tls_tcp_connect_def trojan_ws_connect_def trojan_tls_ws_connect_def
  trojan_httpupgrade_connect_def trojan_tls_httpupgrade_connect_def trojan_grpc_connect_def trojan_tls_grpc_connect_def
  trojan_h2_connect_def trojan_tls_h2_connect_def trojan_quic_connect_def
  trojan_tcp_relay_def trojan_tls_tcp_relay_def trojan_ws_relay_def trojan_tls_ws_relay_def
  trojan_httpupgrade_relay_def trojan_tls_httpupgrade_relay_def trojan_grpc_relay_def trojan_tls_grpc_relay_def
  trojan_h2_relay_def trojan_tls_h2_relay_def trojan_quic_relay_def

lemmas vless_defs = vless_tcp_connect_def vless_tls_tcp_connect_def vless_ws_connect_def vless_tls_ws_connect_def
  vless_httpupgrade_connect_def vless_tls_httpupgrade_connect_def vless_grpc_connect_def vless_tls_grpc_connect_def
  vless_h2_connect_def vless_tls_h2_connect_def vless_quic_connect_def
  vless_tcp_relay_def vless_tls_tcp_relay_def vless_ws_relay_def vless_tls_ws_relay_def
  vless_httpupgrade_relay_def vless_tls_httpupgrade_relay_def vless_grpc_relay_def vless_tls_grpc_relay_def
  vless_h2_relay_def vless_tls_h2_relay_def vless_quic_relay_def

lemma trojan_uniform:
  "trojan_connect tags net timeout out target
    = sbind (open_stream net timeout tags out) (\<lambda>stream. hand_over stream (trojan_request net out target))"
  "trojan_relay tags net timeout out target payload
    = sbind (open_stream net timeout tags out) (send_trojan_udp net timeout out target payload)"
  by (cases tags; simp add: trojan_defs open_stream_def own_tls_def sbind_assoc lift_obind)+

lemma vless_uniform:
  "vless_connect tags net timeout out target
    = sbind (open_stream net timeout tags out) (\<lambda>stream. hand_over stream (vless_request out target))"
  "vless_relay tags net timeout out target payload
    = sbind (open_stream net timeout tags out) (send_vless_udp net timeout out target payload)"
  by (cases tags; simp add: vless_defs open_stream_def own_tls_def sbind_assoc lift_obind)+


section \<open>Names\<close>

lemma hand_over_state [simp]: "snd (hand_over stream m e) = e"
  unfolding hand_over_def by (subst sbind_same_state) (auto split: prod.split)

text \<open>
  C31. The name of a proxied destination stays with the proxy. What a connection through a SOCKS5, HTTP, Trojan
  or VLESS outbound does to the resolver, its cache, the sockets and everything else outside its own stream
  does not depend on the destination, whatever the DNS policy and whatever the network answers.
\<close>

theorem proxied_target_stays_remote:
  "snd (trojan_connect tags net timeout out target e) = snd (trojan_connect tags net timeout out target' e)
   \<and> snd (vless_connect tags net timeout out target e) = snd (vless_connect tags net timeout out target' e)
   \<and> snd (socks5_outbound_connect net timeout server credential target e)
     = snd (socks5_outbound_connect net timeout server credential target' e)
   \<and> snd (http_outbound_connect net timeout server credential target e)
     = snd (http_outbound_connect net timeout server credential target' e)"
  by (auto simp: trojan_uniform vless_uniform socks5_outbound_connect_def http_outbound_connect_def
      hand_over_def [symmetric] intro!: sbind_state_cong)

lemma open_stream_blocked:
  assumes "dns_policy e = PreventPublicLeak" "public_name (ep_host (so_server out))"
  shows "open_stream net timeout tags out e = (Err (blocked_lookup (ep_host (so_server out))), e)"
  using direct_connect_blocked [OF assms(1), of "outbound_target_new (ep_host (so_server out)) (ep_port (so_server out))"]
    resolve_blocked [OF assms]
  by (simp add: open_stream_def connect_legacy_quic_stream_def dial_server_def sbind_def Let_def assms outbound_target_new_def)

text \<open>
  C32. Leak prevention holds for every connection. While the policy is \<open>PreventPublicLeak\<close>, a destination or a
  proxy server given by a public name is refused, for flows and for datagrams alike, before any lookup is
  made and before any socket is opened: the machine and the DNS engine are left as they were.
\<close>

theorem connections_prevent_leak:
  assumes "dns_policy e = PreventPublicLeak" "public_name host"
  shows "direct_connect net timeout (outbound_target_new host port) e = (Err (blocked_lookup host), e)
   \<and> direct_relay_datagram net timeout (outbound_target_new host port) payload e = (Err (blocked_lookup host), e)
   \<and> socks5_outbound_connect net timeout (endpoint_new host port) credential target e = (Err (blocked_lookup host), e)
   \<and> socks5_outbound_relay net timeout (endpoint_new host port) credential target payload e = (Err (blocked_lookup host), e)
   \<and> http_outbound_connect net timeout (endpoint_new host port) credential target e = (Err (blocked_lookup host), e)
   \<and> (ep_host (so_server out) = host \<longrightarrow>
        trojan_connect tags net timeout out target e = (Err (blocked_lookup host), e)
      \<and> vless_connect tags net timeout out target e = (Err (blocked_lookup host), e)
      \<and> trojan_relay tags net timeout out target payload e = (Err (blocked_lookup host), e)
      \<and> vless_relay tags net timeout out target payload e = (Err (blocked_lookup host), e))"
  using direct_connect_blocked [OF assms(1), of "outbound_target_new host port"] open_stream_blocked [OF assms(1), of out]
    resolve_blocked [OF assms] assms
  by (auto simp: direct_relay_datagram_def socks5_outbound_connect_def socks5_outbound_relay_def http_outbound_connect_def
      dial_server_def trojan_uniform vless_uniform outbound_target_new_def endpoint_new_def op_simps)

lemma without_duplicates_start: "\<exists>further. without_duplicates ips xs = ips @ further"
proof (induction ips xs rule: without_duplicates.induct)
  case (2 ips ip rest)
  then show ?case by (cases "ip \<in> set ips") auto
qed simp

text \<open>
  C33. Relaying a datagram through a VLESS outbound breaks that promise. Once the exchange with the server has
  succeeded, the destination's name is looked up with the system resolver to fill in the source address of
  the answer, although the policy of the engine the caller passed is \<open>PreventPublicLeak\<close>.
\<close>

theorem vless_datagram_looks_up_target:
  assumes policy: "dns_policy e = PreventPublicLeak"
    and name: "host = trim_brackets (trim (ot_host target))" "parse_ip host = None" "public_name host"
    and opened: "open_stream net timeout tags out e = (Ok stream, e')"
    and exchange: "send_vless_udp_over_stream (so_credential out) (so_flow out) target payload stream = (Ok answer, stream')"
    and found: "nw_lookup net (normalize_host host) (dns_resolver e') = (Ok (ip # ips), w)"
  shows "vless_relay tags net timeout out target payload e
    = (Ok \<lparr>rs_source = \<lparr>sa_ip = ip, sa_port = ot_port target\<rparr>, rs_payload = answer\<rparr>, e'\<lparr>dns_resolver := w\<rparr>)"
proof -
  let ?e = "dns_engine_new (dns_resolver e') (dns_cache_new timeout)"
  obtain more_ips where ips: "without_duplicates [] (ip # ips) = ip # more_ips"
    using without_duplicates_start [of "[ip]" ips] by auto
  have "dns_resolve (system_dns_resolver net) host (ot_port target) (nw_now net (dns_resolver e')) ?e
      = (Ok (map (with_port (ot_port target)) (ip # more_ips)),
         ?e\<lparr>dns_resolver := w, dns_cache := cache_insert (dns_cache ?e) (normalize_host host) (ip # more_ips)
           (nw_now net (dns_resolver e'))\<rparr>)"
    using name(3) found ips
    by (simp add: dns_resolve_def public_name_def resolve_ips_def sbind_def with_err_def ret_def system_dns_resolver_def
        dns_engine_new_def dns_engine_with_policy_def dns_engine_with_policies_def cache_get_def dns_cache_new_def
        del: without_duplicates.simps)
  then have "outbound_target_socket_addr net timeout target e'
      = (Ok \<lparr>sa_ip = ip, sa_port = ot_port target\<rparr>, e'\<lparr>dns_resolver := w\<rparr>)"
    using name(1,2)
    by (simp add: outbound_target_socket_addr_def literal_or_first_def with_fresh_engine_def first_address_def
        resolve_socket_addrs_def on_machine_def sbind_def with_err_def ret_def with_port_def)
       (simp add: ret_def dns_engine_new_def dns_engine_with_policy_def dns_engine_with_policies_def)
  then show ?thesis
    using opened exchange
    by (simp add: vless_uniform send_vless_udp_def on_stream_def op_simps)
qed

section \<open>A concrete network\<close>

text \<open>
  A machine whose state is the list of the names looked up so far; every server answers with an empty
  VLESS response header and a datagram of two bytes.
\<close>

definition sample_connection :: duplex where
  "sample_connection = \<lparr>dx_incoming = [0, 0, 0, 2, 11, 12], dx_end = IoError UnexpectedEof [], dx_outgoing = [],
     dx_write_error = None\<rparr>"

definition sample_network :: "string list network" where
  "sample_network = \<lparr>nw_now = (\<lambda>_. 0), nw_lookup = (\<lambda>host names. (Ok [V4 7], names @ [host])),
     nw_tcp_connect = (\<lambda>_ _. ret sample_connection), nw_set_nodelay = (\<lambda>_. ret ()),
     nw_peer_addr = (\<lambda>_. ret \<lparr>sa_ip = V4 1, sa_port = 1080\<rparr>), nw_udp_bind = (\<lambda>_. ret 0),
     nw_set_timeout = (\<lambda>_ _. ret ()), nw_send_to = (\<lambda>_ _ _. ret ()),
     nw_recv_from = (\<lambda>_. ret ([], \<lparr>sa_ip = V4 1, sa_port = 1080\<rparr>)),
     nw_tls = (\<lambda>_ _. Ok), nw_websocket = (\<lambda>_ _. Ok), nw_grpc_plain = (\<lambda>_ _. Ok), nw_grpc_tls = (\<lambda>_ _ _ _. Ok),
     nw_h2_plain = (\<lambda>_ _. Ok), nw_h2_tls = (\<lambda>_ _ _ _. Ok), nw_legacy_quic = (\<lambda>_ _ _ _ _ _. ret sample_connection),
     nw_sha224 = (\<lambda>_. []), nw_base64 = (\<lambda>_. [])\<rparr>"

definition sample_private_engine :: "string list dns_engine" where
  "sample_private_engine = dns_engine_with_policies [] (dns_cache_new 60) PreventPublicLeak DualStack"

definition sample_vless_stream :: stream_outbound where
  "sample_vless_stream = plain_stream (endpoint_new (show_ip (V4 1)) 443) ''12345678-90ab-cdef-1234-567890ABCDEF''"

lemma sample_name_normal: "normalize_host ''server.example'' = ''server.example''"
  by (rule host_text_normal) (simp add: host_text_def ascii_lower_def char_code_def)

lemma sample_name_no_ip: "parse_ip ''server.example'' = None"
  using sample_not_ip by (auto simp: parse_ip_def parse_ipv4_def parse_ipv6_def split: option.splits if_splits)

lemma sample_name_public: "public_name ''server.example''"
  by (simp add: public_name_def sample_name_normal sample_name_no_ip)

lemma sample_private_policy: "dns_policy sample_private_engine = PreventPublicLeak"
  by (simp add: sample_private_engine_def dns_engine_with_policies_def)

theorem connections_prevent_leak_witness:
  "direct_connect sample_network 10 sample_target sample_private_engine
    = (Err (blocked_lookup ''server.example''), sample_private_engine)"
  using connections_prevent_leak [OF sample_private_policy sample_name_public, of sample_network 10 853]
  by (simp add: sample_target_def)

lemma sample_vless_opened:
  "open_stream sample_network 10 TcpTags sample_vless_stream sample_private_engine = (Ok sample_connection, sample_private_engine)"
proof -
  have "dns_resolve res (show_ip (V4 1)) 443 now sample_private_engine = (Ok [with_port 443 (V4 1)], sample_private_engine)"
    for res :: "string list resolver" and now
    by (subst dns_resolve_literal [of _ "V4 1"], subst normalize_host_show_ip, rule parse_show_ip)
      (simp add: sample_private_engine_def dns_engine_with_policies_def)
  then show ?thesis
    by (simp add: open_stream_def own_tls_def dial_server_def direct_connect_def resolve_socket_addrs_def
        sample_vless_stream_def plain_stream_def endpoint_new_def outbound_target_new_def sbind_def with_err_def ret_def
        lift_def on_machine_def sample_network_def)
qed

lemma sample_vless_exchange:
  "fst (send_vless_udp_over_stream (so_credential sample_vless_stream) (so_flow sample_vless_stream) sample_target [1] sample_connection)
    = Ok [11, 12]"
proof -
  have target: "endpoint_new (ot_host sample_target) (ot_port sample_target) = sample_endpoint"
    by (simp add: sample_target_def sample_endpoint_def outbound_target_new_def)
  obtain enc where enc: "encode_vless_target [] sample_endpoint = Ok enc"
    by (simp add: encode_vless_target_def Let_def sample_target_host sample_not_ip)
  obtain uuid where "parse_uuid_bytes ''12345678-90ab-cdef-1234-567890ABCDEF'' = Ok uuid"
    using parse_uuid_bytes_ok [OF sample_uuid] by metis
  then obtain header where "encode_vless_udp_request_header ''12345678-90ab-cdef-1234-567890ABCDEF'' sample_endpoint = Ok header"
    by (simp add: encode_vless_udp_request_header_def encode_vless_addon_def encode_vless_target_prefix [OF enc] Let_def
        visible_trim [of "[]"])
  moreover have "(from_be_bytes [0, 2] :: u16) = 2" by (simp add: from_be_bytes_def be_step_def)
  ultimately show ?thesis
    by (simp add: send_vless_udp_over_stream_def sample_vless_stream_def plain_stream_def target sbind_def lift_def ret_def
        write_all_def sample_connection_def read_vless_response_header_from_stream_def read_exact_def index_def
        write_vless_udp_payload_def read_vless_udp_payload_def read_be_u16_def read_u16_def)
qed

theorem vless_datagram_looks_up_target_witness:
  "dns_policy sample_private_engine = PreventPublicLeak
   \<and> dns_resolver (snd (vless_relay TcpTags sample_network 10 sample_vless_stream sample_target [1] sample_private_engine))
     = [''server.example'']"
proof -
  obtain stream where "send_vless_udp_over_stream (so_credential sample_vless_stream) (so_flow sample_vless_stream)
      sample_target [1] sample_connection = (Ok [11, 12], stream)"
    using sample_vless_exchange by (metis prod.collapse)
  note relay = vless_datagram_looks_up_target [OF sample_private_policy sample_host [symmetric] sample_name_no_ip
      sample_name_public sample_vless_opened this]
  have "nw_lookup sample_network (normalize_host ''server.example'') (dns_resolver sample_private_engine)
      = (Ok (V4 7 # []), [''server.example''])"
    by (simp add: sample_network_def sample_name_normal sample_private_engine_def dns_engine_with_policies_def)
  from relay [OF this] show ?thesis using sample_private_policy by simp
qed

end
