(* ===== verification/Keli_Subscription.thy ===== *)
theory Keli_Subscription
  imports Keli_Registry
begin

text \<open>
  The subscription parser of \<open>keli-protocol\<close>: a Mihomo YAML document or a list of share links becomes a list of
  validated outbound profiles and a list of skipped entries. The crates it calls (\<open>serde_yaml\<close>,
  \<open>serde_json\<close>, \<open>base64\<close>, \<open>url\<close>) are the fields of a record that every definition takes as an argument.
\<close>

section \<open>What the external parsers return\<close>

datatype string_list = One string | Many "string list"

type_synonym headers = "(string \<times> string) list"

record mihomo_quic_options =
  mq_security :: "string option"
  mq_key :: "string option"
  mq_header :: "string option"

record mihomo_options =
  mo_ws_opts :: "(string option \<times> headers option) option"
  mo_httpupgrade_opts :: "(string option \<times> string option) option"
  mo_h2_opts :: "(string option \<times> string_list option) option"
  mo_quic_opts :: "mihomo_quic_options option"
  mo_grpc_opts :: "string option option"

record mihomo_proxy =
  mp_name :: "string option"
  mp_protocol :: "string option"
  mp_server :: "string option"
  mp_port :: "u16 option"
  mp_port_range :: "string option"
  mp_password :: "string option"
  mp_token :: "string option"
  mp_username :: "string option"
  mp_cipher :: "string option"
  mp_uuid :: "string option"
  mp_flow :: "string option"
  mp_tls :: "bool option"
  mp_sni :: "string option"
  mp_servername :: "string option"
  mp_skip_cert_verify :: "bool option"
  mp_network :: "string option"
  mp_transport :: "string option"
  mp_options :: mihomo_options

text \<open>A JSON value as far as the program looks at it; a number is what \<open>as_u64\<close> gives.\<close>

datatype json_value = JsonBool bool | JsonNumber "nat option" | JsonString string | JsonOther

record vmess_json_share =
  vj_ps :: "string option"
  vj_add :: "string option"
  vj_port :: "json_value option"
  vj_id :: "string option"
  vj_net :: "string option"
  vj_host :: "string option"
  vj_path :: "string option"
  vj_service_name :: "string option"
  vj_tls :: "string option"
  vj_sni :: "string option"
  vj_servername :: "string option"
  vj_scy :: "string option"
  vj_cipher :: "string option"
  vj_allow_insecure :: "json_value option"

record url =
  url_scheme :: string
  url_username :: string
  url_password :: "string option"
  url_host_str :: "string option"
  url_port :: "u16 option"
  url_query_pairs :: "(string \<times> string) list"
  url_fragment :: "string option"

record external_parsers =
  ext_yaml :: "string \<Rightarrow> (string, mihomo_proxy list) outcome"
  ext_json :: "bytes \<Rightarrow> (string, vmess_json_share) outcome"
  ext_url :: "string \<Rightarrow> (string, url) outcome"
  ext_base64_standard :: "string \<Rightarrow> (string, bytes) outcome"
  ext_base64_url_safe_no_pad :: "string \<Rightarrow> (string, bytes) outcome"
  ext_base64_url_safe :: "string \<Rightarrow> (string, bytes) outcome"

section \<open>Results\<close>

record skipped_outbound_profile =
  sk_name :: string
  sk_reason :: string

record parsed_outbound_profiles =
  po_profiles :: "outbound_profile list"
  po_skipped :: "skipped_outbound_profile list"

datatype subscription_parse_error = InvalidYaml string | InvalidShare string

datatype subscription_input_format = MihomoYaml | ShareLinks

type_synonym 'a skipping = "(skipped_outbound_profile, 'a) outcome"

definition skip :: "string \<Rightarrow> string \<Rightarrow> skipped_outbound_profile" where
  "skip name reason = \<lparr>sk_name = name, sk_reason = reason\<rparr>"

section \<open>Fields\<close>

definition non_empty :: "string option \<Rightarrow> string option" where
  "non_empty value = (case value of
      Some v \<Rightarrow> (let v = trim v in if v = [] then None else Some v)
    | None \<Rightarrow> None)"

definition or_else :: "'a option \<Rightarrow> 'a option \<Rightarrow> 'a option" where
  "or_else a b = (case a of Some x \<Rightarrow> Some x | None \<Rightarrow> b)"

definition unwrap_or_str :: "string option \<Rightarrow> string \<Rightarrow> string" where
  "unwrap_or_str a d = (case a of Some x \<Rightarrow> x | None \<Rightarrow> d)"

definition numbered :: "string \<Rightarrow> nat \<Rightarrow> string" where
  "numbered kind i = kind @ show_radix 10 (i + 1)"

fun first_non_empty :: "string_list \<Rightarrow> string option" where
  "first_non_empty (One value) = non_empty (Some value)"
| "first_non_empty (Many values) = (case List.map_filter (\<lambda>v. non_empty (Some v)) values of
      [] \<Rightarrow> None
    | v # _ \<Rightarrow> Some v)"

definition header_value_case_insensitive :: "headers \<Rightarrow> string \<Rightarrow> string option" where
  "header_value_case_insensitive headers name =
     (case List.map_filter (\<lambda>(key, value).
        if eq_ignore_ascii_case key name then non_empty (Some value) else None) headers of
      [] \<Rightarrow> None
    | v # _ \<Rightarrow> Some v)"

definition proxy_credential :: "string option \<Rightarrow> string option \<Rightarrow> string" where
  "proxy_credential username password = (case (non_empty username, non_empty password) of
      (Some username, Some password) \<Rightarrow> username @ '':'' @ password
    | (Some username, None) \<Rightarrow> username
    | (None, Some password) \<Rightarrow> '':'' @ password
    | (None, None) \<Rightarrow> [])"

definition default_quic_transport :: transport_kind where
  "default_quic_transport = Quic None None None"

definition first_port_in_range :: "string \<Rightarrow> u16 option" where
  "first_port_in_range value = (case filter (\<lambda>part. part \<noteq> []) (map trim (split_on CHR '','' value)) of
      [] \<Rightarrow> None
    | first # _ \<Rightarrow> parse_u16 (trim (case split_once CHR ''-'' first of Some (start, _) \<Rightarrow> start | None \<Rightarrow> first)))"

definition profile_port :: "u16 option \<Rightarrow> string option \<Rightarrow> u16 option" where
  "profile_port port port_range = or_else port (Option.bind port_range first_port_in_range)"

text \<open>The protocols whose entries use TLS unless they say otherwise.\<close>

definition tls_by_default :: "proxy_protocol \<Rightarrow> bool" where
  "tls_by_default protocol \<longleftrightarrow> protocol \<in> {Trojan, Hy2, AnyTls, Tuic, Naive}"

text \<open>The last step of every entry: an invalid profile is skipped with the validator's message.\<close>

definition checked_profile :: "outbound_profile \<Rightarrow> outbound_profile skipping" where
  "checked_profile profile =
     obind (map_err (\<lambda>e. skip (pf_tag profile) (''invalid profile: '' @ show_validation_error e)) (validate profile))
       (\<lambda>_. Ok profile)"

section \<open>Mihomo entries\<close>

definition mihomo_protocol :: "string \<Rightarrow> proxy_protocol option" where
  "mihomo_protocol name =
     (if name = ''trojan'' then Some Trojan
      else if name = ''vmess'' then Some Vmess
      else if name = ''vless'' then Some Vless
      else if name = ''naive'' then Some Naive
      else if name = ''mieru'' then Some Mieru
      else if name \<in> {''hy2'', ''hysteria2''} then Some Hy2
      else if name \<in> {''ss'', ''shadowsocks''} then Some Shadowsocks
      else if name \<in> {''anytls'', ''any-tls''} then Some AnyTls
      else if name = ''tuic'' then Some Tuic
      else if name \<in> {''socks'', ''socks5''} then Some Socks
      else if name = ''http'' then Some Http
      else None)"

definition user_password :: "(string \<Rightarrow> string) \<Rightarrow> string \<Rightarrow> string \<Rightarrow> string option \<Rightarrow> string option \<Rightarrow> string skipping" where
  "user_password missing name user username password =
     obind (ok_or (non_empty username) (skip name (missing user))) (\<lambda>username.
     obind (ok_or (non_empty password) (skip name (missing ''password''))) (\<lambda>password.
     Ok (username @ '':'' @ password)))"

definition mihomo_credential :: "string \<Rightarrow> proxy_protocol \<Rightarrow> mihomo_proxy \<Rightarrow> string skipping" where
  "mihomo_credential name protocol proxy = (case protocol of
      Trojan \<Rightarrow> ok_or (non_empty (mp_password proxy)) (skip name ''missing trojan password'')
    | Vmess \<Rightarrow> ok_or (non_empty (mp_uuid proxy)) (skip name ''missing vmess uuid'')
    | Vless \<Rightarrow> ok_or (non_empty (mp_uuid proxy)) (skip name ''missing vless uuid'')
    | Naive \<Rightarrow> user_password (\<lambda>w. ''missing naive '' @ w) name ''username'' (mp_username proxy) (mp_password proxy)
    | Mieru \<Rightarrow> user_password (\<lambda>w. ''missing mieru '' @ w) name ''username'' (mp_username proxy) (mp_password proxy)
    | Shadowsocks \<Rightarrow> ok_or (non_empty (mp_password proxy)) (skip name ''missing shadowsocks password'')
    | AnyTls \<Rightarrow> ok_or (non_empty (mp_password proxy)) (skip name ''missing anytls password'')
    | Hy2 \<Rightarrow> ok_or (non_empty (mp_password proxy)) (skip name ''missing hy2 auth password'')
    | Tuic \<Rightarrow> user_password (\<lambda>w. ''missing tuic '' @ w) name ''uuid'' (mp_uuid proxy)
        (or_else (non_empty (mp_password proxy)) (non_empty (mp_token proxy)))
    | Socks \<Rightarrow> Ok (proxy_credential (mp_username proxy) (mp_password proxy))
    | Http \<Rightarrow> Ok (proxy_credential (mp_username proxy) (mp_password proxy)))"

definition mihomo_quic_transport :: "mihomo_quic_options option \<Rightarrow> transport_kind" where
  "mihomo_quic_transport opts = (case opts of
      Some opts \<Rightarrow> Quic (non_empty (mq_security opts)) (non_empty (mq_key opts)) (non_empty (mq_header opts))
    | None \<Rightarrow> Quic None None None)"

definition mihomo_transport :: "string \<Rightarrow> string \<Rightarrow> proxy_protocol \<Rightarrow> string option \<Rightarrow> mihomo_options
    \<Rightarrow> transport_kind skipping" where
  "mihomo_transport name server protocol network opts =
     (if protocol \<in> {Hy2, Tuic} then
        let other = unwrap_or_str (map_option to_ascii_lowercase network) [] in
        if other \<in> {[], ''quic'', ''hy2'', ''hysteria2'', ''tuic''} then Ok default_quic_transport
        else Err (skip name (''unsupported QUIC transport: '' @ other))
      else if protocol = Mieru then
        let other = unwrap_or_str (map_option to_ascii_lowercase network) ''tcp'' in
        if other \<in> {[], ''tcp''} then Ok TransportTcp
        else Err (skip name (''unsupported Mieru transport: '' @ other))
      else
        let other = to_ascii_lowercase (unwrap_or_str network ''tcp'') in
        if other \<in> {[], ''tcp''} then Ok TransportTcp
        else if other \<in> {''ws'', ''websocket''} then
          Ok (WebSocket
            (unwrap_or_str (Option.bind (mo_ws_opts opts) (\<lambda>(path, _). non_empty path)) ''/'')
            (or_else (Option.bind (mo_ws_opts opts) (\<lambda>(_, headers).
               Option.bind headers (\<lambda>headers. header_value_case_insensitive headers ''host''))) (Some server)))
        else if other \<in> {''httpupgrade'', ''http-upgrade''} then
          Ok (HttpUpgrade
            (unwrap_or_str (Option.bind (mo_httpupgrade_opts opts) (\<lambda>(path, _). non_empty path)) ''/'')
            (or_else (Option.bind (mo_httpupgrade_opts opts) (\<lambda>(_, host). non_empty host)) (Some server)))
        else if other \<in> {''h2'', ''http'', ''http2''} then
          Ok (Http2
            (unwrap_or_str (Option.bind (mo_h2_opts opts) (\<lambda>(path, _). non_empty path)) ''/'')
            (or_else (Option.bind (mo_h2_opts opts) (\<lambda>(_, host). Option.bind host first_non_empty)) (Some server)))
        else if other = ''quic'' then Ok (mihomo_quic_transport (mo_quic_opts opts))
        else if other = ''grpc'' then Ok (Grpc (Option.bind (mo_grpc_opts opts) non_empty))
        else Err (skip name (''unsupported transport: '' @ other)))"

definition mihomo_security :: "proxy_protocol \<Rightarrow> string \<Rightarrow> bool option \<Rightarrow> string option \<Rightarrow> string option \<Rightarrow> bool option
    \<Rightarrow> security_kind" where
  "mihomo_security protocol server tls sni servername skip_cert_verify =
     (let sni = or_else (or_else (non_empty sni) (non_empty servername)) (Some server);
          tls_enabled = (case tls of Some b \<Rightarrow> b | None \<Rightarrow> tls_by_default protocol) in
      if tls_enabled then SecurityTls sni (case skip_cert_verify of Some b \<Rightarrow> b | None \<Rightarrow> False) else SecurityNone)"

definition mihomo_proxy_to_profile :: "mihomo_proxy \<Rightarrow> nat \<Rightarrow> outbound_profile skipping" where
  "mihomo_proxy_to_profile proxy i =
     (let name = unwrap_or_str (non_empty (mp_name proxy)) (numbered ''proxy-'' i) in
      obind (ok_or (non_empty (mp_protocol proxy)) (skip name ''missing protocol type'')) (\<lambda>protocol_name.
      obind (ok_or (non_empty (mp_server proxy)) (skip name ''missing server'')) (\<lambda>server.
      let protocol_name = to_ascii_lowercase protocol_name in
      obind (ok_or (mihomo_protocol protocol_name) (skip name (''unsupported protocol: '' @ protocol_name))) (\<lambda>protocol.
      obind (mihomo_credential name protocol proxy) (\<lambda>credential.
      obind (ok_or (profile_port (mp_port proxy) (mp_port_range proxy)) (skip name ''missing port'')) (\<lambda>port.
      obind (mihomo_transport name server protocol (or_else (mp_network proxy) (mp_transport proxy)) (mp_options proxy)) (\<lambda>transport.
      checked_profile
        \<lparr>pf_tag = name, pf_protocol = protocol, pf_endpoint = endpoint_new server port, pf_transport = transport,
         pf_security = mihomo_security protocol server (mp_tls proxy) (mp_sni proxy) (mp_servername proxy)
           (mp_skip_cert_verify proxy),
         pf_credential = credential,
         pf_cipher = (if protocol \<in> {Shadowsocks, Vmess} then non_empty (mp_cipher proxy) else None),
         pf_flow = (if protocol = Vless then non_empty (mp_flow proxy) else None)\<rparr>)))))))"

section \<open>Share links\<close>

definition decode_base64_flexible :: "external_parsers \<Rightarrow> string \<Rightarrow> (string, bytes) outcome" where
  "decode_base64_flexible ext input = (case ext_base64_standard ext input of
      Err _ \<Rightarrow> (case ext_base64_url_safe_no_pad ext input of
          Err _ \<Rightarrow> ext_base64_url_safe ext input
        | r \<Rightarrow> r)
    | r \<Rightarrow> r)"

text \<open>The message of text that is not UTF-8 is the standard library's and abbreviated here.\<close>

definition decode_share_subscription_text :: "external_parsers \<Rightarrow> string \<Rightarrow> (subscription_parse_error, string) outcome" where
  "decode_share_subscription_text ext input =
     (if str_contains input ''://'' then Ok input
      else
        let compact = remove_whitespace input in
        if compact = [] then Ok []
        else obind (map_err InvalidShare (decode_base64_flexible ext compact)) (\<lambda>bytes.
          ok_or (from_utf8 bytes) (InvalidShare ''invalid utf-8 sequence'')))"

type_synonym query = "string \<rightharpoonup> string"

definition query_of_pairs :: "(string \<times> string) list \<Rightarrow> query" where
  "query_of_pairs pairs = map_of (rev pairs)"

fun first_present :: "query \<Rightarrow> string list \<Rightarrow> string option" where
  "first_present query [] = None"
| "first_present query (key # keys) = or_else (query key) (first_present query keys)"

definition query_first_non_empty :: "query \<Rightarrow> string list \<Rightarrow> string option" where
  "query_first_non_empty query keys = non_empty (first_present query keys)"

definition truthy_query :: "query \<Rightarrow> string \<Rightarrow> bool" where
  "truthy_query query key = (case query key of
      Some value \<Rightarrow> to_ascii_lowercase value \<in> {''1'', ''true'', ''yes''}
    | None \<Rightarrow> False)"

definition share_link_quic_transport :: "query \<Rightarrow> transport_kind" where
  "share_link_quic_transport query = Quic
     (query_first_non_empty query [''quicSecurity'', ''quic-security'', ''quic_security'', ''encryption''])
     (query_first_non_empty query [''quicKey'', ''quic-key'', ''quic_key'', ''key''])
     (query_first_non_empty query [''headerType'', ''header-type'', ''header_type'', ''quicHeaderType'',
       ''quic-header-type'', ''quic_header_type'', ''header''])"

definition share_link_transport :: "string \<Rightarrow> string \<Rightarrow> proxy_protocol \<Rightarrow> query \<Rightarrow> transport_kind skipping" where
  "share_link_transport tag server protocol query =
     (let path = unwrap_or_str (non_empty (query ''path'')) ''/''; host = or_else (non_empty (query ''host'')) (Some server) in
      if protocol \<in> {Hy2, Tuic} then
        let other = unwrap_or_str (map_option to_ascii_lowercase (first_present query [''type'', ''network''])) [] in
        if other \<in> {[], ''quic'', ''hy2'', ''hysteria2'', ''tuic''} then Ok default_quic_transport
        else Err (skip tag (''unsupported QUIC transport: '' @ other))
      else if protocol = Mieru then
        let other = unwrap_or_str
          (map_option to_ascii_lowercase (first_present query [''protocol'', ''type'', ''network''])) ''tcp'' in
        if other \<in> {[], ''tcp''} then Ok TransportTcp
        else Err (skip tag (''unsupported Mieru transport: '' @ other))
      else
        let other = unwrap_or_str (map_option to_ascii_lowercase (first_present query [''type'', ''network''])) ''tcp'' in
        if other \<in> {[], ''tcp''} then Ok TransportTcp
        else if other \<in> {''ws'', ''websocket''} then Ok (WebSocket path host)
        else if other \<in> {''httpupgrade'', ''http-upgrade''} then Ok (HttpUpgrade path host)
        else if other \<in> {''h2'', ''http'', ''http2''} then Ok (Http2 path host)
        else if other = ''quic'' then Ok (share_link_quic_transport query)
        else if other = ''grpc'' then
          Ok (Grpc (non_empty (first_present query [''serviceName'', ''service_name'', ''service-name'', ''path''])))
        else Err (skip tag (''unsupported transport: '' @ other)))"

definition share_link_security :: "proxy_protocol \<Rightarrow> string \<Rightarrow> query \<Rightarrow> security_kind" where
  "share_link_security protocol server query =
     (let tls_enabled = (case map_option to_ascii_lowercase (first_present query [''security'', ''tls'']) of
            Some value \<Rightarrow> value \<in> {''tls'', ''true'', ''1''}
          | None \<Rightarrow> tls_by_default protocol) in
      if tls_enabled then
        SecurityTls (or_else (non_empty (first_present query [''sni'', ''servername''])) (Some server))
          (truthy_query query ''allowInsecure'' \<or> truthy_query query ''skip-cert-verify'' \<or> truthy_query query ''insecure'')
      else SecurityNone)"

definition share_link_port :: "proxy_protocol \<Rightarrow> url \<Rightarrow> query \<Rightarrow> u16 option" where
  "share_link_port protocol url query =
     (if protocol = Mieru then or_else (url_port url) (Option.bind (query ''port'') first_port_in_range)
      else
        let default_port = (if protocol = Socks then 1080 else if protocol = Http then 80 else 443) in
        Some (case url_port url of Some port \<Rightarrow> port | None \<Rightarrow> default_port))"

definition split_host_port :: "string \<Rightarrow> u16 \<Rightarrow> (string \<times> u16) option" where
  "split_host_port value default_port =
     (let value = trim value in
      if value = [] then None
      else if starts_with value ''['' then
        map_option (\<lambda>(host, rest). (drop 1 host,
          case Option.bind (strip_prefix '':'' rest) parse_u16 of Some port \<Rightarrow> port | None \<Rightarrow> default_port))
          (split_once CHR '']'' value)
      else if length (filter (\<lambda>c. c = CHR '':'') value) = 1 then
        map_option (\<lambda>(host, port). (host, case parse_u16 port of Some port \<Rightarrow> port | None \<Rightarrow> default_port))
          (rsplit_once CHR '':'' value)
      else Some (value, default_port))"

text \<open>The part of a link's body before a fragment and a query.\<close>

definition link_body :: "string \<Rightarrow> string" where
  "link_body body = hd (split_on CHR ''?'' (hd (split_on CHR ''#'' body)))"

definition json_value_to_u16 :: "json_value \<Rightarrow> u16 option" where
  "json_value_to_u16 v = (case v of
      JsonNumber n \<Rightarrow> Option.bind n (\<lambda>port. if port \<le> 65535 then Some (of_nat port) else None)
    | JsonString s \<Rightarrow> parse_u16 (trim s)
    | _ \<Rightarrow> None)"

definition truthy_json_value :: "json_value \<Rightarrow> bool" where
  "truthy_json_value v = (case v of
      JsonBool b \<Rightarrow> b
    | JsonNumber n \<Rightarrow> (case n of Some n \<Rightarrow> n \<noteq> 0 | None \<Rightarrow> False)
    | JsonString s \<Rightarrow> to_ascii_lowercase s \<in> {''1'', ''true'', ''yes''}
    | JsonOther \<Rightarrow> False)"

definition vmess_json_transport :: "string \<Rightarrow> string \<Rightarrow> vmess_json_share \<Rightarrow> transport_kind skipping" where
  "vmess_json_transport tag server config =
     (let other = to_ascii_lowercase (unwrap_or_str (non_empty (vj_net config)) ''tcp'');
          path = unwrap_or_str (non_empty (vj_path config)) ''/'';
          host = or_else (non_empty (vj_host config)) (Some server) in
      if other \<in> {[], ''tcp''} then Ok TransportTcp
      else if other \<in> {''ws'', ''websocket''} then Ok (WebSocket path host)
      else if other \<in> {''httpupgrade'', ''http-upgrade''} then Ok (HttpUpgrade path host)
      else if other \<in> {''h2'', ''http'', ''http2''} then Ok (Http2 path host)
      else if other = ''quic'' then Ok default_quic_transport
      else if other = ''grpc'' then Ok (Grpc (or_else (non_empty (vj_service_name config)) (non_empty (vj_path config))))
      else Err (skip tag (''unsupported VMess JSON transport: '' @ other)))"

definition vmess_json_security :: "string \<Rightarrow> vmess_json_share \<Rightarrow> security_kind" where
  "vmess_json_security server config =
     (let tls_enabled = (case non_empty (vj_tls config) of
            Some tls \<Rightarrow> to_ascii_lowercase tls \<in> {''tls'', ''true'', ''1''}
          | None \<Rightarrow> False) in
      if tls_enabled then
        SecurityTls (or_else (or_else (non_empty (vj_sni config)) (non_empty (vj_servername config))) (Some server))
          (case vj_allow_insecure config of Some v \<Rightarrow> truthy_json_value v | None \<Rightarrow> False)
      else SecurityNone)"

definition vmess_json_to_profile :: "vmess_json_share \<Rightarrow> nat \<Rightarrow> outbound_profile skipping" where
  "vmess_json_to_profile config i =
     (let tag = unwrap_or_str (non_empty (vj_ps config)) (numbered ''proxy-'' i) in
      obind (ok_or (non_empty (vj_add config)) (skip tag ''missing server'')) (\<lambda>server.
      obind (ok_or (Option.bind (vj_port config) json_value_to_u16) (skip tag ''missing port'')) (\<lambda>port.
      obind (ok_or (non_empty (vj_id config)) (skip tag ''missing vmess uuid'')) (\<lambda>credential.
      obind (vmess_json_transport tag server config) (\<lambda>transport.
      checked_profile
        \<lparr>pf_tag = tag, pf_protocol = Vmess, pf_endpoint = endpoint_new server port, pf_transport = transport,
         pf_security = vmess_json_security server config, pf_credential = credential,
         pf_cipher = or_else (or_else (non_empty (vj_scy config)) (non_empty (vj_cipher config))) (Some ''auto''),
         pf_flow = None\<rparr>)))))"

definition vmess_json_share_link_to_profile :: "external_parsers \<Rightarrow> string \<Rightarrow> nat \<Rightarrow> outbound_profile option skipping" where
  "vmess_json_share_link_to_profile ext link i = (case strip_prefix ''vmess://'' link of
      None \<Rightarrow> Ok None
    | Some body \<Rightarrow>
        if CHR ''@'' \<in> set body then Ok None
        else
          obind (map_err (skip (numbered ''proxy-'' i)) (decode_base64_flexible ext (link_body body))) (\<lambda>bytes.
          obind (map_err (skip (numbered ''proxy-'' i)) (ext_json ext bytes)) (\<lambda>config.
          obind (vmess_json_to_profile config i) (\<lambda>profile. Ok (Some profile)))))"

definition shadowsocks_userinfo :: "external_parsers \<Rightarrow> url \<Rightarrow> (string \<times> string) option" where
  "shadowsocks_userinfo ext url =
     (if url_username url = [] then None
      else case url_password url of
          Some password \<Rightarrow> Some (url_username url, password)
        | None \<Rightarrow> (case decode_base64_flexible ext (url_username url) of
            Ok decoded \<Rightarrow> Option.bind (from_utf8 decoded) (split_once CHR '':'')
          | _ \<Rightarrow> None))"

definition decode_legacy_shadowsocks_share_body :: "external_parsers \<Rightarrow> string
    \<Rightarrow> (string \<times> string \<times> string \<times> u16) option" where
  "decode_legacy_shadowsocks_share_body ext link =
     Option.bind (strip_prefix ''ss://'' link) (\<lambda>body.
     Option.bind (case decode_base64_flexible ext (link_body body) of Ok bytes \<Rightarrow> Some bytes | _ \<Rightarrow> None) (\<lambda>bytes.
     Option.bind (from_utf8 bytes) (\<lambda>decoded.
     Option.bind (rsplit_once CHR ''@'' decoded) (\<lambda>(method_password, server_port).
     Option.bind (split_once CHR '':'' method_password) (\<lambda>(cipher, password).
     Option.bind (split_host_port server_port 8388) (\<lambda>(server, port).
     Some (cipher, password, server, port)))))))"

definition shadowsocks_share_link_to_profile :: "external_parsers \<Rightarrow> url \<Rightarrow> string \<Rightarrow> nat \<Rightarrow> outbound_profile skipping" where
  "shadowsocks_share_link_to_profile ext url link i =
     (let tag = unwrap_or_str (non_empty (url_fragment url)) (numbered ''proxy-'' i) in
      obind (case url_host_str url of
          Some server \<Rightarrow>
            obind (ok_or (shadowsocks_userinfo ext url) (skip tag ''missing shadowsocks method/password''))
              (\<lambda>(cipher, password). Ok (cipher, password, server, case url_port url of Some port \<Rightarrow> port | None \<Rightarrow> 8388))
        | None \<Rightarrow> ok_or (decode_legacy_shadowsocks_share_body ext link) (skip tag ''invalid shadowsocks share body''))
      (\<lambda>(cipher, credential, server, port).
        checked_profile
          \<lparr>pf_tag = tag, pf_protocol = Shadowsocks, pf_endpoint = endpoint_new server port,
           pf_transport = TransportTcp, pf_security = SecurityNone, pf_credential = credential,
           pf_cipher = Some cipher, pf_flow = None\<rparr>))"

definition share_protocol :: "string \<Rightarrow> proxy_protocol option" where
  "share_protocol scheme =
     (if scheme = ''trojan'' then Some Trojan
      else if scheme = ''vmess'' then Some Vmess
      else if scheme = ''vless'' then Some Vless
      else if scheme = ''naive'' then Some Naive
      else if scheme \<in> {''mieru'', ''mierus''} then Some Mieru
      else if scheme \<in> {''hy2'', ''hysteria2''} then Some Hy2
      else if scheme \<in> {''anytls'', ''any-tls''} then Some AnyTls
      else if scheme = ''tuic'' then Some Tuic
      else if scheme \<in> {''socks'', ''socks5''} then Some Socks
      else if scheme = ''http'' then Some Http
      else None)"

definition share_credential :: "string \<Rightarrow> proxy_protocol \<Rightarrow> url \<Rightarrow> string skipping" where
  "share_credential tag protocol url =
     (if protocol = Tuic then
        user_password (\<lambda>w. ''missing tuic '' @ w) tag ''uuid'' (Some (url_username url)) (url_password url)
      else if protocol = Naive then
        user_password (\<lambda>w. ''missing naive '' @ w) tag ''username'' (Some (url_username url)) (url_password url)
      else if protocol = Mieru then
        user_password (\<lambda>w. ''missing mieru '' @ w) tag ''username'' (Some (url_username url)) (url_password url)
      else if protocol \<in> {Socks, Http} then Ok (proxy_credential (Some (url_username url)) (url_password url))
      else ok_or (non_empty (Some (url_username url))) (skip tag ''missing credential''))"

definition url_to_profile :: "url \<Rightarrow> nat \<Rightarrow> outbound_profile skipping" where
  "url_to_profile url i =
     (let query = query_of_pairs (url_query_pairs url);
          tag = unwrap_or_str (or_else (non_empty (url_fragment url)) (non_empty (query ''profile''))) (numbered ''proxy-'' i) in
      obind (ok_or (url_host_str url) (skip tag ''missing server'')) (\<lambda>server.
      obind (ok_or (share_protocol (url_scheme url)) (skip tag (''unsupported protocol: '' @ url_scheme url))) (\<lambda>protocol.
      obind (share_credential tag protocol url) (\<lambda>credential.
      obind (ok_or (share_link_port protocol url query) (skip tag ''missing port'')) (\<lambda>port.
      obind (share_link_transport tag server protocol query) (\<lambda>transport.
      checked_profile
        \<lparr>pf_tag = tag, pf_protocol = protocol, pf_endpoint = endpoint_new server port, pf_transport = transport,
         pf_security = share_link_security protocol server query, pf_credential = credential,
         pf_cipher = (if protocol = Vmess then non_empty (query ''cipher'') else None),
         pf_flow = (if protocol = Vless then non_empty (query ''flow'') else None)\<rparr>))))))"

definition share_link_to_profile :: "external_parsers \<Rightarrow> string \<Rightarrow> nat \<Rightarrow> outbound_profile skipping" where
  "share_link_to_profile ext link i =
     obind (vmess_json_share_link_to_profile ext link i) (\<lambda>json_profile. case json_profile of
       Some profile \<Rightarrow> Ok profile
     | None \<Rightarrow>
         obind (map_err (skip (numbered ''link-'' i)) (ext_url ext link)) (\<lambda>url.
         if url_scheme url = ''ss'' then shadowsocks_share_link_to_profile ext url link i
         else url_to_profile url i))"

section \<open>Subscriptions\<close>

text \<open>The loop over the entries: an entry becomes a profile or a skipped entry, a panic would end it.\<close>

fun collect_profiles :: "('a \<Rightarrow> nat \<Rightarrow> outbound_profile skipping) \<Rightarrow> 'a list \<Rightarrow> nat \<Rightarrow> parsed_outbound_profiles
    \<Rightarrow> (subscription_parse_error, parsed_outbound_profiles) outcome" where
  "collect_profiles convert [] i acc = Ok acc"
| "collect_profiles convert (entry # entries) i acc = (case convert entry i of
      Ok profile \<Rightarrow> collect_profiles convert entries (i + 1) (acc\<lparr>po_profiles := po_profiles acc @ [profile]\<rparr>)
    | Err skipped \<Rightarrow> collect_profiles convert entries (i + 1) (acc\<lparr>po_skipped := po_skipped acc @ [skipped]\<rparr>)
    | Panic \<Rightarrow> Panic)"

definition parse_mihomo_outbound_profiles :: "external_parsers \<Rightarrow> string
    \<Rightarrow> (subscription_parse_error, parsed_outbound_profiles) outcome" where
  "parse_mihomo_outbound_profiles ext input =
     obind (map_err InvalidYaml (ext_yaml ext input)) (\<lambda>proxies.
     collect_profiles mihomo_proxy_to_profile proxies 0 \<lparr>po_profiles = [], po_skipped = []\<rparr>)"

definition share_lines :: "string \<Rightarrow> string list" where
  "share_lines decoded = filter (\<lambda>line. line \<noteq> []) (map trim (lines decoded))"

definition parse_share_outbound_profiles :: "external_parsers \<Rightarrow> string
    \<Rightarrow> (subscription_parse_error, parsed_outbound_profiles) outcome" where
  "parse_share_outbound_profiles ext input =
     obind (decode_share_subscription_text ext input) (\<lambda>decoded.
     collect_profiles (share_link_to_profile ext) (share_lines decoded) 0 \<lparr>po_profiles = [], po_skipped = []\<rparr>)"

definition looks_like_mihomo_yaml :: "string \<Rightarrow> bool" where
  "looks_like_mihomo_yaml input \<longleftrightarrow> list_ex (\<lambda>line. starts_with (trim_start line) ''proxies:'') (lines input)"

definition detect_subscription_input_format :: "string \<Rightarrow> subscription_input_format" where
  "detect_subscription_input_format input = (if looks_like_mihomo_yaml input then MihomoYaml else ShareLinks)"

definition parse_subscription_outbound_profiles :: "external_parsers \<Rightarrow> string
    \<Rightarrow> (subscription_parse_error, parsed_outbound_profiles) outcome" where
  "parse_subscription_outbound_profiles ext input = (case detect_subscription_input_format input of
      MihomoYaml \<Rightarrow> parse_mihomo_outbound_profiles ext input
    | ShareLinks \<Rightarrow> parse_share_outbound_profiles ext input)"

end
