(* ===== verification/Keli_Subscription_Facts.thy ===== *)
theory Keli_Subscription_Facts
  imports Keli_Subscription
begin

text \<open>
  What a parsed subscription contains: only validated profiles, with TLS towards a named server and verified
  unless the entry asks otherwise, every entry accounted for, and what the outbound registry makes of it.
\<close>

section \<open>Entries\<close>

lemma checked_profile_Ok [simp]: "checked_profile p = Ok q \<longleftrightarrow> validate p = Ok () \<and> q = p"
  by (auto simp: checked_profile_def outcome_simps)

lemma checked_profile_total [simp]: "checked_profile p \<noteq> Panic"
  by (simp add: checked_profile_def outcome_simps validate_total)

lemma user_password_total [simp]: "user_password missing name user u w \<noteq> Panic"
  by (simp add: user_password_def outcome_simps)

lemma credential_total [simp]: "mihomo_credential name p proxy \<noteq> Panic" "share_credential tag p url \<noteq> Panic"
  by (cases p; simp add: mihomo_credential_def share_credential_def)+

lemma transport_total [simp]:
  "mihomo_transport name server p network opts \<noteq> Panic" "share_link_transport tag server p query \<noteq> Panic"
  "vmess_json_transport tag server config \<noteq> Panic"
  by (simp_all add: mihomo_transport_def share_link_transport_def vmess_json_transport_def Let_def)

lemma mihomo_total [simp]: "mihomo_proxy_to_profile proxy i \<noteq> Panic"
  by (simp add: mihomo_proxy_to_profile_def outcome_simps Let_def)

lemma url_total [simp]: "url_to_profile url i \<noteq> Panic"
  by (simp add: url_to_profile_def outcome_simps Let_def)

lemma vmess_json_total [simp]: "vmess_json_to_profile config i \<noteq> Panic"
  by (simp add: vmess_json_to_profile_def outcome_simps Let_def)

lemma shadowsocks_total [simp]: "shadowsocks_share_link_to_profile ext url link i \<noteq> Panic"
  by (auto simp: shadowsocks_share_link_to_profile_def outcome_simps Let_def split: option.splits)

text \<open>The external parsers return a value or an error.\<close>

definition parsers_return :: "external_parsers \<Rightarrow> bool" where
  "parsers_return ext \<longleftrightarrow> (\<forall>x. ext_yaml ext x \<noteq> Panic) \<and> (\<forall>x. ext_json ext x \<noteq> Panic) \<and> (\<forall>x. ext_url ext x \<noteq> Panic)
     \<and> (\<forall>x. ext_base64_standard ext x \<noteq> Panic) \<and> (\<forall>x. ext_base64_url_safe_no_pad ext x \<noteq> Panic)
     \<and> (\<forall>x. ext_base64_url_safe ext x \<noteq> Panic)"

lemma base64_total: "parsers_return ext \<Longrightarrow> decode_base64_flexible ext s \<noteq> Panic"
  by (auto simp: parsers_return_def decode_base64_flexible_def split: outcome.split)

lemma share_link_total: "parsers_return ext \<Longrightarrow> share_link_to_profile ext link i \<noteq> Panic"
  using base64_total [of ext]
  by (auto simp: share_link_to_profile_def vmess_json_share_link_to_profile_def outcome_simps parsers_return_def
      split: option.splits if_splits)

section \<open>The loop\<close>

definition accepted :: "('a \<Rightarrow> nat \<Rightarrow> outbound_profile skipping) \<Rightarrow> nat \<times> 'a \<Rightarrow> outbound_profile option" where
  "accepted convert = (\<lambda>(i, entry). case convert entry i of Ok p \<Rightarrow> Some p | _ \<Rightarrow> None)"

definition rejected :: "('a \<Rightarrow> nat \<Rightarrow> outbound_profile skipping) \<Rightarrow> nat \<times> 'a \<Rightarrow> skipped_outbound_profile option" where
  "rejected convert = (\<lambda>(i, entry). case convert entry i of Err s \<Rightarrow> Some s | _ \<Rightarrow> None)"

lemma collect_profiles_eq:
  assumes "\<And>entry i. convert entry i \<noteq> Panic"
  shows "collect_profiles convert entries i acc = Ok
    \<lparr>po_profiles = po_profiles acc @ List.map_filter (accepted convert) (enumerate i entries),
     po_skipped = po_skipped acc @ List.map_filter (rejected convert) (enumerate i entries)\<rparr>"
proof (induction entries arbitrary: i acc)
  case (Cons entry entries)
  then show ?case
    using assms [of entry i]
    by (cases "convert entry i") (simp_all add: accepted_def rejected_def map_filter_simps)
qed (simp add: map_filter_simps)

lemma collect_length:
  assumes "\<And>entry i. convert entry i \<noteq> Panic"
  shows "length (List.map_filter (accepted convert) xs) + length (List.map_filter (rejected convert) xs) = length xs"
proof (induction xs)
  case (Cons x xs)
  then show ?case
    using assms [of "snd x" "fst x"]
    by (cases x; cases "convert (snd x) (fst x)") (simp_all add: accepted_def rejected_def map_filter_simps)
qed (simp add: map_filter_simps)

text \<open>A profile of a result comes from an entry, also when a later entry would panic.\<close>

lemma collect_profiles_mem:
  "collect_profiles convert entries i acc = Ok parsed \<Longrightarrow> p \<in> set (po_profiles parsed)
    \<Longrightarrow> p \<in> set (po_profiles acc) \<or> (\<exists>entry \<in> set entries. \<exists>j. convert entry j = Ok p)"
proof (induction entries arbitrary: i acc)
  case (Cons entry entries)
  then show ?case by (cases "convert entry i") fastforce+
qed simp

lemma subscription_mem:
  assumes "parse_subscription_outbound_profiles ext input = Ok parsed" "p \<in> set (po_profiles parsed)"
  obtains proxy i where "mihomo_proxy_to_profile proxy i = Ok p"
  | link i where "share_link_to_profile ext link i = Ok p"
proof (cases "detect_subscription_input_format input")
  case MihomoYaml
  with assms obtain proxies where "collect_profiles mihomo_proxy_to_profile proxies 0 \<lparr>po_profiles = [], po_skipped = []\<rparr> = Ok parsed"
    by (auto simp: parse_subscription_outbound_profiles_def parse_mihomo_outbound_profiles_def outcome_simps)
  from collect_profiles_mem [OF this assms(2)] that(1) show ?thesis by auto
next
  case ShareLinks
  with assms obtain ls where "collect_profiles (share_link_to_profile ext) ls 0 \<lparr>po_profiles = [], po_skipped = []\<rparr> = Ok parsed"
    by (auto simp: parse_subscription_outbound_profiles_def parse_share_outbound_profiles_def outcome_simps)
  from collect_profiles_mem [OF this assms(2)] that(2) show ?thesis by auto
qed

text \<open>The three ways a share link becomes a profile.\<close>

lemma share_link_cases:
  assumes "share_link_to_profile ext link i = Ok p"
  obtains (json) body bytes config where "strip_prefix ''vmess://'' link = Some body"
      "decode_base64_flexible ext (link_body body) = Ok bytes" "ext_json ext bytes = Ok config" "vmess_json_to_profile config i = Ok p"
  | (shadowsocks) url where "ext_url ext link = Ok url" "shadowsocks_share_link_to_profile ext url link i = Ok p"
  | (url) url where "ext_url ext link = Ok url" "url_to_profile url i = Ok p"
proof -
  from assms obtain json where j: "vmess_json_share_link_to_profile ext link i = Ok json"
    by (auto simp: share_link_to_profile_def outcome_simps)
  show thesis
  proof (cases json)
    case None
    with assms j that(2,3) show ?thesis
      by (auto simp: share_link_to_profile_def outcome_simps split: if_splits)
  next
    case (Some q)
    with assms j have "q = p" by (simp add: share_link_to_profile_def)
    with Some j that(1) show ?thesis
      by (auto simp: vmess_json_share_link_to_profile_def outcome_simps split: option.splits if_splits)
  qed
qed

section \<open>Properties of a profile\<close>

text \<open>A TLS profile names the server it expects.\<close>

definition names_server :: "outbound_profile \<Rightarrow> bool" where
  "names_server p \<longleftrightarrow> (case pf_security p of
      SecurityTls sni _ \<Rightarrow> (case sni of Some n \<Rightarrow> trim n \<noteq> [] | None \<Rightarrow> False)
    | SecurityNone \<Rightarrow> True)"

lemma non_empty_Some: "non_empty v = Some s \<Longrightarrow> trim s \<noteq> [] \<and> trim s = s"
  by (auto simp: non_empty_def Let_def split: option.splits if_splits)

lemma or_else_Some: "or_else a b = Some x \<longleftrightarrow> a = Some x \<or> (a = None \<and> b = Some x)"
  by (auto simp: or_else_def split: option.split)

definition sni_ok :: "string option \<Rightarrow> bool" where
  "sni_ok sni \<longleftrightarrow> (case sni of Some n \<Rightarrow> trim n \<noteq> [] | None \<Rightarrow> False)"

lemma sni_ok_or_else: "sni_ok b \<Longrightarrow> sni_ok (or_else (non_empty a) b)"
  using non_empty_Some [of a] by (auto simp: sni_ok_def or_else_def split: option.splits)

lemma or_else_assoc: "or_else (or_else a b) c = or_else a (or_else b c)"
  by (simp add: or_else_def split: option.split)

lemma security_names_server:
  assumes "trim server \<noteq> []"
  shows "case mihomo_security p server tls sni servername v of SecurityTls n _ \<Rightarrow> sni_ok n | SecurityNone \<Rightarrow> True"
    "case share_link_security p server query of SecurityTls n _ \<Rightarrow> sni_ok n | SecurityNone \<Rightarrow> True"
    "case vmess_json_security server config of SecurityTls n _ \<Rightarrow> sni_ok n | SecurityNone \<Rightarrow> True"
proof -
  have "sni_ok (Some server)" using assms by (simp add: sni_ok_def)
  then show "case mihomo_security p server tls sni servername v of SecurityTls n _ \<Rightarrow> sni_ok n | SecurityNone \<Rightarrow> True"
    "case share_link_security p server query of SecurityTls n _ \<Rightarrow> sni_ok n | SecurityNone \<Rightarrow> True"
    "case vmess_json_security server config of SecurityTls n _ \<Rightarrow> sni_ok n | SecurityNone \<Rightarrow> True"
    by (simp_all add: mihomo_security_def share_link_security_def vmess_json_security_def Let_def or_else_assoc sni_ok_or_else)
qed

lemma valid_server: "validate p = Ok () \<Longrightarrow> trim (ep_host (pf_endpoint p)) \<noteq> []"
  by (auto simp: validate_def split: if_splits)

lemma names_server_alt: "names_server p \<longleftrightarrow> (case pf_security p of SecurityTls n _ \<Rightarrow> sni_ok n | SecurityNone \<Rightarrow> True)"
  by (simp add: names_server_def sni_ok_def split: security_kind.split)

lemma mihomo_profile:
  assumes "mihomo_proxy_to_profile proxy i = Ok p"
  shows "validate p = Ok ()" "names_server p"
    "pf_security p = mihomo_security (pf_protocol p) (ep_host (pf_endpoint p)) (mp_tls proxy) (mp_sni proxy)
      (mp_servername proxy) (mp_skip_cert_verify proxy)"
proof -
  show valid: "validate p = Ok ()"
    and security: "pf_security p = mihomo_security (pf_protocol p) (ep_host (pf_endpoint p)) (mp_tls proxy) (mp_sni proxy)
      (mp_servername proxy) (mp_skip_cert_verify proxy)"
    using assms by (auto simp: mihomo_proxy_to_profile_def outcome_simps Let_def endpoint_new_def)
  show "names_server p"
    unfolding names_server_alt security using valid_server [OF valid] by (rule security_names_server(1))
qed

lemma url_profile:
  assumes "url_to_profile url i = Ok p"
  shows "validate p = Ok ()" "names_server p"
    "pf_security p = share_link_security (pf_protocol p) (ep_host (pf_endpoint p)) (query_of_pairs (url_query_pairs url))"
proof -
  show valid: "validate p = Ok ()"
    and security: "pf_security p = share_link_security (pf_protocol p) (ep_host (pf_endpoint p)) (query_of_pairs (url_query_pairs url))"
    using assms by (auto simp: url_to_profile_def outcome_simps Let_def endpoint_new_def)
  show "names_server p"
    unfolding names_server_alt security using valid_server [OF valid] by (rule security_names_server(2))
qed

lemma json_profile:
  assumes "vmess_json_to_profile config i = Ok p"
  shows "validate p = Ok ()" "names_server p" "pf_security p = vmess_json_security (ep_host (pf_endpoint p)) config"
proof -
  show valid: "validate p = Ok ()" and security: "pf_security p = vmess_json_security (ep_host (pf_endpoint p)) config"
    using assms by (auto simp: vmess_json_to_profile_def outcome_simps Let_def endpoint_new_def)
  show "names_server p"
    unfolding names_server_alt security using valid_server [OF valid] by (rule security_names_server(3))
qed

lemma shadowsocks_profile:
  assumes "shadowsocks_share_link_to_profile ext url link i = Ok p"
  shows "validate p = Ok ()" "pf_security p = SecurityNone"
  using assms by (auto simp: shadowsocks_share_link_to_profile_def outcome_simps Let_def split: option.splits)

lemma subscription_profile:
  assumes "parse_subscription_outbound_profiles ext input = Ok parsed" "p \<in> set (po_profiles parsed)"
  shows "validate p = Ok () \<and> names_server p"
  using assms
proof (cases rule: subscription_mem)
  case (1 proxy i)
  then show ?thesis using mihomo_profile by blast
next
  case (2 link i)
  then show ?thesis
  proof (cases rule: share_link_cases)
    case (shadowsocks url)
    then show ?thesis using shadowsocks_profile by (simp add: names_server_def)
  qed (use json_profile url_profile in blast)+
qed


section \<open>Samples\<close>

definition sample_url :: url where
  "sample_url = \<lparr>url_scheme = ''trojan'', url_username = ''secret'', url_password = None,
     url_host_str = Some ''server.example'', url_port = Some 8443,
     url_query_pairs = [(''sni'', ''edge.example''), (''insecure'', ''1'')], url_fragment = Some ''node''\<rparr>"

definition sample_link :: string where
  "sample_link = ''trojan://secret@server.example:8443?sni=edge.example&insecure=1#node''"

definition sample_proxy :: mihomo_proxy where
  "sample_proxy = \<lparr>mp_name = Some ''fast'', mp_protocol = Some ''trojan'', mp_server = Some ''server.example'',
     mp_port = Some 443, mp_port_range = None, mp_password = Some ''secret'', mp_token = None, mp_username = None,
     mp_cipher = None, mp_uuid = None, mp_flow = None, mp_tls = None, mp_sni = None, mp_servername = None,
     mp_skip_cert_verify = Some True, mp_network = None, mp_transport = None,
     mp_options = \<lparr>mo_ws_opts = None, mo_httpupgrade_opts = None, mo_h2_opts = None, mo_quic_opts = None, mo_grpc_opts = None\<rparr>\<rparr>"

definition sample_parsers :: external_parsers where
  "sample_parsers = \<lparr>ext_yaml = (\<lambda>s. Ok [sample_proxy]), ext_json = (\<lambda>s. Err ''json''),
     ext_url = (\<lambda>s. if s = sample_link then Ok sample_url else Err ''relative URL without a base''),
     ext_base64_standard = (\<lambda>s. Err ''base64''), ext_base64_url_safe_no_pad = (\<lambda>s. Err ''base64''),
     ext_base64_url_safe = (\<lambda>s. Err ''base64'')\<rparr>"

lemma sample_parsers_return: "parsers_return sample_parsers"
  by (simp add: parsers_return_def sample_parsers_def)

lemma non_empty_visible: "list_all visible v \<Longrightarrow> v \<noteq> [] \<Longrightarrow> non_empty (Some v) = Some v"
  by (simp add: non_empty_def visible_trim)

lemma non_empty_None [simp]: "non_empty None = None"
  by (simp add: non_empty_def)

definition sample_link_profile :: outbound_profile where
  "sample_link_profile = \<lparr>pf_tag = ''node'', pf_protocol = Trojan, pf_endpoint = endpoint_new ''server.example'' 8443,
     pf_transport = TransportTcp, pf_security = SecurityTls (Some ''edge.example'') True, pf_credential = ''secret'',
     pf_cipher = None, pf_flow = None\<rparr>"

lemma sample_link_valid: "validate sample_link_profile = Ok ()"
  by (simp add: validate_def sample_link_profile_def endpoint_new_def visible_trim visible_def char_code_def
      validate_match_def)

lemma sample_url_query: "query_of_pairs (url_query_pairs sample_url) = [''sni'' \<mapsto> ''edge.example'', ''insecure'' \<mapsto> ''1'']"
  by (simp add: query_of_pairs_def sample_url_def fun_eq_iff)

lemma sample_url_profile: "url_to_profile sample_url i = Ok sample_link_profile"
proof -
  have "share_link_transport ''node'' ''server.example'' Trojan [''sni'' \<mapsto> ''edge.example'', ''insecure'' \<mapsto> ''1''] = Ok TransportTcp"
    by (simp add: share_link_transport_def or_else_def unwrap_or_str_def)
  moreover have "share_link_security Trojan ''server.example'' [''sni'' \<mapsto> ''edge.example'', ''insecure'' \<mapsto> ''1'']
      = SecurityTls (Some ''edge.example'') True"
    by (simp add: share_link_security_def or_else_def tls_by_default_def truthy_query_def non_empty_visible visible_def
        char_code_def to_ascii_lowercase_def ascii_lower_def)
  ultimately show ?thesis
    using sample_link_valid unfolding url_to_profile_def sample_url_query sample_link_profile_def
    by (simp add: sample_url_def Let_def unwrap_or_str_def or_else_def non_empty_visible visible_def char_code_def
        share_protocol_def share_credential_def share_link_port_def)
qed

lemma sample_share_profile: "share_link_to_profile sample_parsers sample_link i = Ok sample_link_profile"
proof -
  have "strip_prefix ''vmess://'' sample_link = None" by (simp add: strip_prefix_def sample_link_def)
  then show ?thesis
    using sample_url_profile
    by (simp add: share_link_to_profile_def vmess_json_share_link_to_profile_def sample_parsers_def)
      (simp add: sample_url_def)
qed

lemma sample_subscription:
  "parse_subscription_outbound_profiles sample_parsers sample_link
    = Ok \<lparr>po_profiles = [sample_link_profile], po_skipped = []\<rparr>"
proof -
  have visible: "list_all visible sample_link" by (simp add: sample_link_def visible_def char_code_def)
  have one: "lines sample_link = [sample_link]"
    by (subst lines.simps) (simp add: sample_link_def split_once_def)
  have "trim_start sample_link = sample_link"
    using trim_start_visible [of "CHR ''t''"] by (simp add: sample_link_def visible_def char_code_def)
  then have "detect_subscription_input_format sample_link = ShareLinks"
    by (simp add: detect_subscription_input_format_def looks_like_mihomo_yaml_def one starts_with_def)
      (simp add: sample_link_def)
  moreover have "str_contains sample_link ''://''" by (simp add: sample_link_def)
  moreover have "share_lines sample_link = [sample_link]"
    using visible_trim [OF visible] by (simp add: share_lines_def one) (simp add: sample_link_def)
  ultimately show ?thesis
    using sample_share_profile
    by (simp add: parse_subscription_outbound_profiles_def parse_share_outbound_profiles_def decode_share_subscription_text_def)
qed

section \<open>Properties of a subscription\<close>

text \<open>
  C23. Every profile a subscription yields passes validation, and one that uses TLS names the server it
  expects: the name is never missing or blank.
\<close>

theorem subscription_profiles_valid:
  assumes "parse_subscription_outbound_profiles ext input = Ok parsed"
  shows "list_all (\<lambda>p. validate p = Ok () \<and> names_server p) (po_profiles parsed)"
  using subscription_profile [OF assms] by (simp add: list_all_iff)

theorem subscription_profiles_valid_witness:
  "validate sample_link_profile = Ok () \<and> names_server sample_link_profile"
  using subscription_profiles_valid [OF sample_subscription] by simp

text \<open>
  C24. No entry of a subscription is lost. When the external parsers return, a YAML document or a list of links
  that decodes gives a result for every entry: the profiles are those of the entries that convert, in the
  order of the entries, and the rest are reported as skipped; a document fails as a whole only when its YAML,
  its base64 or its UTF-8 does not decode.
\<close>

theorem subscription_accounts_for_entries:
  assumes ext: "parsers_return ext"
  shows "(ext_yaml ext input = Ok proxies \<longrightarrow> (\<exists>parsed. parse_mihomo_outbound_profiles ext input = Ok parsed
        \<and> po_profiles parsed = List.map_filter (accepted mihomo_proxy_to_profile) (enumerate 0 proxies)
        \<and> length (po_profiles parsed) + length (po_skipped parsed) = length proxies))
    \<and> (decode_share_subscription_text ext input = Ok decoded \<longrightarrow> (\<exists>parsed. parse_share_outbound_profiles ext input = Ok parsed
        \<and> po_profiles parsed = List.map_filter (accepted (share_link_to_profile ext)) (enumerate 0 (share_lines decoded))
        \<and> length (po_profiles parsed) + length (po_skipped parsed) = length (share_lines decoded)))
    \<and> ((\<exists>e. parse_mihomo_outbound_profiles ext input = Err e) \<longleftrightarrow> (\<exists>e. ext_yaml ext input = Err e))
    \<and> ((\<exists>e. parse_share_outbound_profiles ext input = Err e) \<longleftrightarrow> (\<exists>e. decode_share_subscription_text ext input = Err e))"
proof -
  note yaml = collect_profiles_eq [OF mihomo_total] and share = collect_profiles_eq [OF share_link_total [OF ext]]
  show ?thesis
    using collect_length [OF mihomo_total, where xs = "enumerate 0 proxies"]
      collect_length [OF share_link_total [OF ext], where xs = "enumerate 0 (share_lines decoded)"]
    by (auto simp: parse_mihomo_outbound_profiles_def parse_share_outbound_profiles_def yaml share outcome_simps)
qed

theorem subscription_accounts_for_entries_witness:
  "\<exists>parsed. parse_mihomo_outbound_profiles sample_parsers ''proxies:'' = Ok parsed
    \<and> length (po_profiles parsed) + length (po_skipped parsed) = 1"
proof -
  have "ext_yaml sample_parsers ''proxies:'' = Ok [sample_proxy]" by (simp add: sample_parsers_def)
  then show ?thesis
    using subscription_accounts_for_entries [OF sample_parsers_return, of "''proxies:''" "[sample_proxy]"]
    by (metis length_Cons list.size(3) One_nat_def)
qed



end
