(* ===== verification/Keli_Metrics.thy ===== *)
theory Keli_Metrics
  imports Keli_Http_Facts Keli_Route "HOL-Library.List_Lexorder" "HOL-Library.Char_ord"
begin

text \<open>
  Connection reports (\<open>metrics.rs\<close>) and the metrics the mixed proxy gathers from them (\<open>ConnectionMetrics\<close> of
  the command-line crate): saturating counters, one count per error kind, route and inbound, and a bounded
  history. The lemmas show that the state refines the list of the reports recorded so far.
\<close>

section \<open>Reports\<close>

datatype connection_error_kind =
    DnsResolveFailed | TcpConnectTimeout | TcpConnectionRefused | FirstByteTimeout | IdleTimeout
  | RouteBlocked | UnsupportedOutbound | ConnectionLimitReached | RelayIo | ProtocolError

definition error_kind_from_io :: "io_error \<Rightarrow> connection_error_kind" where
  "error_kind_from_io e = (case error_kind e of
      TimedOut \<Rightarrow> TcpConnectTimeout
    | ConnectionRefused \<Rightarrow> TcpConnectionRefused
    | AddrNotAvailable \<Rightarrow> DnsResolveFailed
    | NotFound \<Rightarrow> DnsResolveFailed
    | Unsupported \<Rightarrow> UnsupportedOutbound
    | InvalidData \<Rightarrow> ProtocolError
    | _ \<Rightarrow> RelayIo)"

fun error_kind_as_str :: "connection_error_kind \<Rightarrow> string" where
  "error_kind_as_str DnsResolveFailed = ''dns_resolve_failed''"
| "error_kind_as_str TcpConnectTimeout = ''tcp_connect_timeout''"
| "error_kind_as_str TcpConnectionRefused = ''tcp_connection_refused''"
| "error_kind_as_str FirstByteTimeout = ''first_byte_timeout''"
| "error_kind_as_str IdleTimeout = ''idle_timeout''"
| "error_kind_as_str RouteBlocked = ''route_blocked''"
| "error_kind_as_str UnsupportedOutbound = ''unsupported_outbound''"
| "error_kind_as_str ConnectionLimitReached = ''connection_limit_reached''"
| "error_kind_as_str RelayIo = ''relay_io''"
| "error_kind_as_str ProtocolError = ''protocol_error''"

record connection_report =
  cr_inbound :: string
  cr_target :: outbound_target
  cr_route_action :: route_action
  cr_connect_ms :: "u128 option"
  cr_first_byte_ms :: "u128 option"
  cr_upload_bytes :: u64
  cr_download_bytes :: u64
  cr_error_kind :: "connection_error_kind option"
  cr_error_detail :: "string option"

definition connection_report_new :: "string \<Rightarrow> outbound_target \<Rightarrow> route_action \<Rightarrow> connection_report" where
  "connection_report_new inbound target action = \<lparr>cr_inbound = inbound, cr_target = target, cr_route_action = action,
     cr_connect_ms = None, cr_first_byte_ms = None, cr_upload_bytes = 0, cr_download_bytes = 0,
     cr_error_kind = None, cr_error_detail = None\<rparr>"

text \<open>Durations are in milliseconds here.\<close>

definition record_connect_duration :: "duration \<Rightarrow> connection_report \<Rightarrow> connection_report" where
  "record_connect_duration d r = r\<lparr>cr_connect_ms := Some (of_nat d)\<rparr>"

definition record_first_byte_duration :: "duration \<Rightarrow> connection_report \<Rightarrow> connection_report" where
  "record_first_byte_duration d r = r\<lparr>cr_first_byte_ms := Some (of_nat d)\<rparr>"

record relay_stats =
  rs_client_to_remote_bytes :: u64
  rs_remote_to_client_bytes :: u64
  rs_remote_first_byte_after :: "duration option"

record relay_options =
  ro_first_byte_timeout :: "duration option"
  ro_idle_timeout :: "duration option"

definition record_relay_stats :: "relay_stats \<Rightarrow> connection_report \<Rightarrow> connection_report" where
  "record_relay_stats stats r =
     (let r = r\<lparr>cr_upload_bytes := rs_client_to_remote_bytes stats, cr_download_bytes := rs_remote_to_client_bytes stats\<rparr> in
      case rs_remote_first_byte_after stats of
        Some d \<Rightarrow> record_first_byte_duration d r
      | None \<Rightarrow> r)"

definition record_error :: "connection_error_kind \<Rightarrow> connection_report \<Rightarrow> connection_report" where
  "record_error kind r = r\<lparr>cr_error_kind := Some kind\<rparr>"

definition record_error_detail :: "connection_error_kind \<Rightarrow> string \<Rightarrow> connection_report \<Rightarrow> connection_report" where
  "record_error_detail kind detail r =
     (let r = record_error kind r in if trim detail \<noteq> [] then r\<lparr>cr_error_detail := Some detail\<rparr> else r)"

definition optional_detail :: "string option \<Rightarrow> string" where
  "optional_detail v = (case v of
      None \<Rightarrow> ''none''
    | Some v \<Rightarrow> let sanitized = join_with ''_'' (split_whitespace v) in if sanitized = [] then ''none'' else sanitized)"

section \<open>Metrics\<close>

record connection_metrics_state =
  ms_total_connection_count :: u64
  ms_success_count :: u64
  ms_failure_count :: u64
  ms_connection_limit_rejection_count :: u64
  ms_error_kind_counts :: "(connection_error_kind \<times> u64) list"
  ms_route_action_counts :: "(route_action \<times> u64) list"
  ms_inbound_counts :: "(string \<times> u64) list"
  ms_total_upload_bytes :: u64
  ms_total_download_bytes :: u64
  ms_total_connect_ms :: u128
  ms_timed_connect_count :: u64
  ms_total_first_byte_ms :: u128
  ms_timed_first_byte_count :: u64
  ms_last_connection_at :: "instant option"
  ms_last_success_at :: "instant option"
  ms_last_failure_at :: "instant option"
  ms_recent_connections :: "connection_report list"

definition metrics_default :: connection_metrics_state where
  "metrics_default = \<lparr>ms_total_connection_count = 0, ms_success_count = 0, ms_failure_count = 0,
     ms_connection_limit_rejection_count = 0, ms_error_kind_counts = [], ms_route_action_counts = [],
     ms_inbound_counts = [], ms_total_upload_bytes = 0, ms_total_download_bytes = 0, ms_total_connect_ms = 0,
     ms_timed_connect_count = 0, ms_total_first_byte_ms = 0, ms_timed_first_byte_count = 0,
     ms_last_connection_at = None, ms_last_success_at = None, ms_last_failure_at = None, ms_recent_connections = []\<rparr>"

text \<open>The entry of a key is counted up, or added with the count 1.\<close>

fun count_key :: "'k \<Rightarrow> ('k \<times> u64) list \<Rightarrow> ('k \<times> u64) list" where
  "count_key key [] = [(key, 1)]"
| "count_key key ((k, n) # entries) =
     (if k = key then (k, saturating_add n 1) # entries else (k, n) # count_key key entries)"

definition count_error :: "instant \<Rightarrow> connection_report \<Rightarrow> connection_metrics_state \<Rightarrow> connection_metrics_state" where
  "count_error now report s = (case cr_error_kind report of
      Some kind \<Rightarrow>
        let s = s\<lparr>ms_failure_count := saturating_add (ms_failure_count s) 1, ms_last_failure_at := Some now,
              ms_error_kind_counts := count_key kind (ms_error_kind_counts s)\<rparr> in
        if kind = ConnectionLimitReached
        then s\<lparr>ms_connection_limit_rejection_count := saturating_add (ms_connection_limit_rejection_count s) 1\<rparr>
        else s
    | None \<Rightarrow> s\<lparr>ms_success_count := saturating_add (ms_success_count s) 1, ms_last_success_at := Some now\<rparr>)"

definition count_timings :: "connection_report \<Rightarrow> connection_metrics_state \<Rightarrow> connection_metrics_state" where
  "count_timings report s =
     (let s = (case cr_connect_ms report of
            Some ms \<Rightarrow> s\<lparr>ms_total_connect_ms := saturating_add (ms_total_connect_ms s) ms,
              ms_timed_connect_count := saturating_add (ms_timed_connect_count s) 1\<rparr>
          | None \<Rightarrow> s) in
      case cr_first_byte_ms report of
        Some ms \<Rightarrow> s\<lparr>ms_total_first_byte_ms := saturating_add (ms_total_first_byte_ms s) ms,
          ms_timed_first_byte_count := saturating_add (ms_timed_first_byte_count s) 1\<rparr>
      | None \<Rightarrow> s)"

text \<open>\<open>ConnectionMetrics::record\<close> at the time \<open>now\<close>, for a history limit that \<open>new\<close> has made positive.\<close>

definition metrics_record :: "usize \<Rightarrow> instant \<Rightarrow> connection_report \<Rightarrow> connection_metrics_state \<Rightarrow> connection_metrics_state" where
  "metrics_record history_limit now report s =
     (let s = s\<lparr>ms_last_connection_at := Some now,
            ms_total_connection_count := saturating_add (ms_total_connection_count s) 1,
            ms_inbound_counts := count_key (cr_inbound report) (ms_inbound_counts s),
            ms_route_action_counts := count_key (cr_route_action report) (ms_route_action_counts s),
            ms_total_upload_bytes := saturating_add (ms_total_upload_bytes s) (cr_upload_bytes report),
            ms_total_download_bytes := saturating_add (ms_total_download_bytes s) (cr_download_bytes report)\<rparr>;
          s = count_error now report (count_timings report s) in
      s\<lparr>ms_recent_connections := push_bounded history_limit report (ms_recent_connections s)\<rparr>)"

definition metrics_history_limit :: "usize \<Rightarrow> usize" where
  "metrics_history_limit history_limit = max history_limit 1"

definition managed_connection_report_history_limit :: usize where
  "managed_connection_report_history_limit = 64"

fun route_action_sort_key :: "route_action \<Rightarrow> string" where
  "route_action_sort_key Direct = ''0:direct''"
| "route_action_sort_key Block = ''1:block''"
| "route_action_sort_key HijackDns = ''2:hijack-dns''"
| "route_action_sort_key (Outbound tag) = ''3:outbound:'' @ tag"

text \<open>\<open>ConnectionMetrics::snapshot\<close>: the counts sorted by their keys and the history newest first.\<close>

definition metrics_snapshot :: "connection_metrics_state \<Rightarrow> connection_metrics_state" where
  "metrics_snapshot s = s\<lparr>
     ms_error_kind_counts := sort_key (\<lambda>(k, _). error_kind_as_str k) (ms_error_kind_counts s),
     ms_route_action_counts := sort_key (\<lambda>(k, _). route_action_sort_key k) (ms_route_action_counts s),
     ms_inbound_counts := sort_key fst (ms_inbound_counts s),
     ms_recent_connections := rev (ms_recent_connections s)\<rparr>"

section \<open>Counts per key\<close>

lemma count_key_keys: "set (map fst (count_key key entries)) = insert key (set (map fst entries))"
  by (induction key entries rule: count_key.induct) auto

lemma count_key_distinct: "distinct (map fst entries) \<Longrightarrow> distinct (map fst (count_key key entries))"
proof (induction key entries rule: count_key.induct)
  case (2 key k n entries)
  then show ?case using count_key_keys [of key entries] by auto
qed simp

lemma count_key_lookup:
  "map_of (count_key key entries) k
    = (if k = key then Some (case map_of entries key of Some n \<Rightarrow> saturating_add n 1 | None \<Rightarrow> 1) else map_of entries k)"
  by (induction key entries rule: count_key.induct) auto

text \<open>A table of counts refines a list of keys.\<close>

definition counts :: "('k \<times> u64) list \<Rightarrow> 'k list \<Rightarrow> bool" where
  "counts entries keys \<longleftrightarrow> distinct (map fst entries) \<and> (\<forall>k. map_of entries k =
     (if k \<in> set keys then Some (of_nat (saturated 64 (count_list keys k))) else None))"

lemma saturating_add_of_nat:
  "saturating_add (of_nat (saturated 64 n) :: u64) 1 = of_nat (saturated 64 (Suc n))"
proof -
  have "unat (of_nat (saturated 64 m) :: u64) = saturated 64 m" for m
    by (simp add: saturated_def unat_of_nat)
  then show ?thesis
    by (simp add: word_unat_eq_iff unat_saturating_add saturated_step [of 64 n 1, simplified])
qed

lemma counts_count_key:
  assumes "counts entries keys"
  shows "counts (count_key key entries) (keys @ [key])"
proof -
  have one: "saturated 64 (Suc 0) = Suc 0" by (simp add: saturated_def)
  have "count_list keys key = 0" if "key \<notin> set keys" using that by (simp add: count_list_0_iff)
  then show ?thesis
    using assms
    by (auto simp: counts_def count_key_distinct count_key_lookup count_list_append saturating_add_of_nat one)
qed

lemma counts_Nil [simp]: "counts [] []"
  by (simp add: counts_def)

section \<open>The metrics refine the reports\<close>

definition failed :: "connection_report \<Rightarrow> bool" where
  "failed r \<longleftrightarrow> cr_error_kind r \<noteq> None"

definition metrics_of :: "usize \<Rightarrow> (instant \<times> connection_report) list \<Rightarrow> connection_metrics_state" where
  "metrics_of history_limit events =
     fold (\<lambda>(now, report) s. metrics_record (metrics_history_limit history_limit) now report s) events metrics_default"

text \<open>What the counters of a state say about a list of reports.\<close>

definition refines_reports :: "usize \<Rightarrow> connection_metrics_state \<Rightarrow> connection_report list \<Rightarrow> bool" where
  "refines_reports limit s rs \<longleftrightarrow>
     unat (ms_total_connection_count s) = saturated 64 (length rs)
     \<and> unat (ms_success_count s) = saturated 64 (length (filter (\<lambda>r. \<not> failed r) rs))
     \<and> unat (ms_failure_count s) = saturated 64 (length (filter failed rs))
     \<and> unat (ms_connection_limit_rejection_count s)
         = saturated 64 (length (filter (\<lambda>r. cr_error_kind r = Some ConnectionLimitReached) rs))
     \<and> unat (ms_total_upload_bytes s) = saturated 64 (\<Sum>r\<leftarrow>rs. unat (cr_upload_bytes r))
     \<and> unat (ms_total_download_bytes s) = saturated 64 (\<Sum>r\<leftarrow>rs. unat (cr_download_bytes r))
     \<and> counts (ms_inbound_counts s) (map cr_inbound rs)
     \<and> counts (ms_route_action_counts s) (map cr_route_action rs)
     \<and> counts (ms_error_kind_counts s) (List.map_filter cr_error_kind rs)
     \<and> ms_recent_connections s = most_recent limit rs"

lemmas record_defs = metrics_record_def count_error_def count_timings_def Let_def

lemma metrics_record_fields:
  "ms_total_connection_count (metrics_record limit now r s) = saturating_add (ms_total_connection_count s) 1"
  "ms_success_count (metrics_record limit now r s) = (if failed r then ms_success_count s else saturating_add (ms_success_count s) 1)"
  "ms_failure_count (metrics_record limit now r s) = (if failed r then saturating_add (ms_failure_count s) 1 else ms_failure_count s)"
  "ms_connection_limit_rejection_count (metrics_record limit now r s)
    = (if cr_error_kind r = Some ConnectionLimitReached then saturating_add (ms_connection_limit_rejection_count s) 1
       else ms_connection_limit_rejection_count s)"
  "ms_total_upload_bytes (metrics_record limit now r s) = saturating_add (ms_total_upload_bytes s) (cr_upload_bytes r)"
  "ms_total_download_bytes (metrics_record limit now r s) = saturating_add (ms_total_download_bytes s) (cr_download_bytes r)"
  "ms_inbound_counts (metrics_record limit now r s) = count_key (cr_inbound r) (ms_inbound_counts s)"
  "ms_route_action_counts (metrics_record limit now r s) = count_key (cr_route_action r) (ms_route_action_counts s)"
  "ms_error_kind_counts (metrics_record limit now r s)
    = (case cr_error_kind r of Some k \<Rightarrow> count_key k (ms_error_kind_counts s) | None \<Rightarrow> ms_error_kind_counts s)"
  "ms_recent_connections (metrics_record limit now r s) = push_bounded limit r (ms_recent_connections s)"
  by (cases "cr_connect_ms r"; cases "cr_first_byte_ms r"; cases "cr_error_kind r"; simp add: record_defs failed_def)+

lemma metrics_record_refines:
  assumes "refines_reports limit s rs"
  shows "refines_reports limit (metrics_record limit now r s) (rs @ [r])"
  using assms unfolding refines_reports_def metrics_record_fields
  by (auto simp: unat_saturating_add saturated_step [of 64 _ 1, simplified] saturated_step counts_count_key
      push_most_recent failed_def List.map_filter_def split: option.split)


lemma metrics_of_refines: "refines_reports (metrics_history_limit limit) (metrics_of limit events) (map snd events)"
proof (induction events rule: rev_induct)
  case Nil
  show ?case
    by (simp add: refines_reports_def metrics_of_def metrics_default_def most_recent_def List.map_filter_def)
next
  case (snoc e events)
  then show ?case
    using metrics_record_refines [of _ "metrics_of limit events" "map snd events" "fst e" "snd e"]
    by (simp add: metrics_of_def case_prod_unfold)
qed

lemma counts_sort:
  assumes "counts entries keys"
  shows "counts (sort_key f entries) keys"
proof -
  have "distinct (map fst entries)" using assms by (simp add: counts_def)
  then have sorted: "distinct (map fst (sort_key f entries))"
    by (simp add: distinct_map)
  then have "map_of (sort_key f entries) = map_of entries"
    using \<open>distinct (map fst entries)\<close> by (simp add: map_of_inject_set)
  with sorted assms show ?thesis by (simp add: counts_def)
qed


end
