(* ===== verification/Keli_Cli_Routes.thy ===== *)
theory Keli_Cli_Routes
  imports Keli_Subscription_Facts Keli_Metrics Keli_Dns
begin

text \<open>
  What the mixed proxy is configured with (\<open>keli-cli/src/lib.rs\<close>): the block rules of the command line, which
  travel as strings and are parsed again when the route engine is built, and the runtime that is built from
  the profiles of a subscription and a selected tag. The properties: the strings are read back as the rules
  they were written for, the routes block exactly what a rule matches, and every destination that is not
  blocked has an outbound to go to.
\<close>

section \<open>Block rules\<close>

record cli_port_range =
  pr_start :: u16
  pr_end :: u16

definition port_range_label :: "cli_port_range \<Rightarrow> string" where
  "port_range_label ports =
     (if pr_start ports = pr_end ports then show_u16 (pr_start ports)
      else show_u16 (pr_start ports) @ ''-'' @ show_u16 (pr_end ports))"

definition block_cidr_rule_prefix :: string where
  "block_cidr_rule_prefix = ''cidr:''"

definition block_port_rule_prefix :: string where
  "block_port_rule_prefix = ''port:''"

definition parse_u8 :: "string \<Rightarrow> u8 option" where
  "parse_u8 s = map_option of_nat (parse_unsigned 255 s)"

fun show_cidr_error :: "route_cidr_error \<Rightarrow> string" where
  "show_cidr_error (InvalidPrefixLength network prefix_len) =
     ''invalid CIDR prefix length '' @ show_radix 10 (unat prefix_len) @ '' for '' @ show_ip network"

definition parse_cli_block_cidr :: "string \<Rightarrow> (string, route_ip_cidr) outcome" where
  "parse_cli_block_cidr input = (case split_once CHR ''/'' input of
      None \<Rightarrow> Err (''invalid --block-cidr value: '' @ input @ ''; expected ip/prefix'')
    | Some (network, prefix_len) \<Rightarrow>
        obind (ok_or (parse_ip network) (''invalid --block-cidr IP address: '' @ input)) (\<lambda>network.
        obind (ok_or (parse_u8 prefix_len) (''invalid --block-cidr prefix length: '' @ input)) (\<lambda>prefix_len.
        map_err (\<lambda>e. ''invalid --block-cidr value: '' @ show_cidr_error e) (route_ip_cidr_new network prefix_len))))"

definition parse_block_port_number :: "string \<Rightarrow> string \<Rightarrow> (string, u16) outcome" where
  "parse_block_port_number input v =
     obind (ok_or (parse_u16 v) (''invalid --block-port value: '' @ input)) (\<lambda>port.
     if port = 0 then Err ''--block-port must be between 1 and 65535'' else Ok port)"

definition parse_cli_block_port :: "string \<Rightarrow> (string, cli_port_range) outcome" where
  "parse_cli_block_port input = (case split_once CHR ''-'' input of
      Some (start, end) \<Rightarrow>
        obind (parse_block_port_number input start) (\<lambda>start.
        obind (parse_block_port_number input end) (\<lambda>end.
        if start > end then Err (''invalid --block-port range: '' @ input)
        else Ok \<lparr>pr_start = start, pr_end = end\<rparr>))
    | None \<Rightarrow> obind (parse_block_port_number input input) (\<lambda>port. Ok \<lparr>pr_start = port, pr_end = port\<rparr>))"

definition block_cidr_rule_value :: "route_ip_cidr \<Rightarrow> string" where
  "block_cidr_rule_value cidr =
     block_cidr_rule_prefix @ show_ip (cidr_network cidr) @ ''/'' @ show_radix 10 (unat (cidr_prefix_len cidr))"

definition block_port_rule_value :: "cli_port_range \<Rightarrow> string" where
  "block_port_rule_value ports = block_port_rule_prefix @ port_range_label ports"

text \<open>The three forms of a rule in \<open>routes_from_cli\<close>; a form that does not parse falls through to the next.\<close>

definition block_domain_rule :: "string \<Rightarrow> route_rule" where
  "block_domain_rule rule = \<lparr>rule_name = ''block-domain:'' @ rule, rule_matcher = DomainSuffix rule, rule_action = Block\<rparr>"

definition block_port_rule :: "string \<Rightarrow> route_rule option" where
  "block_port_rule rule = (case strip_prefix block_port_rule_prefix rule of
      Some port \<Rightarrow> (case parse_cli_block_port port of
          Ok ports \<Rightarrow> Some \<lparr>rule_name = ''block-port:'' @ port_range_label ports,
            rule_matcher = (if pr_start ports = pr_end ports then PortExact (pr_start ports)
              else PortRange (pr_start ports) (pr_end ports)), rule_action = Block\<rparr>
        | _ \<Rightarrow> None)
    | None \<Rightarrow> None)"

definition block_cidr_rule :: "string \<Rightarrow> route_rule option" where
  "block_cidr_rule rule = (case strip_prefix block_cidr_rule_prefix rule of
      Some cidr \<Rightarrow> (case parse_cli_block_cidr cidr of
          Ok cidr \<Rightarrow> Some \<lparr>rule_name = ''block-cidr:'' @ show_ip (cidr_network cidr) @ ''/''
              @ show_radix 10 (unat (cidr_prefix_len cidr)),
            rule_matcher = IpCidr cidr, rule_action = Block\<rparr>
        | _ \<Rightarrow> None)
    | None \<Rightarrow> None)"

definition block_rule :: "string \<Rightarrow> route_rule" where
  "block_rule rule = (case block_cidr_rule rule of
      Some r \<Rightarrow> r
    | None \<Rightarrow> (case block_port_rule rule of Some r \<Rightarrow> r | None \<Rightarrow> block_domain_rule rule))"

definition routes_from_cli :: "string list \<Rightarrow> route_action \<Rightarrow> route_engine" where
  "routes_from_cli block_domains default_action =
     foldl (\<lambda>routes rule. add_rule routes (block_rule rule)) (route_engine_new default_action) block_domains"

section \<open>The runtime\<close>

record mixed_dns_options =
  do_local_resolution_policy :: dns_local_resolution_policy
  do_address_family_policy :: dns_address_family_policy
  do_cache_ttl :: duration

definition mixed_dns_options_default :: mixed_dns_options where
  "mixed_dns_options_default = \<lparr>do_local_resolution_policy = AllowSystem, do_address_family_policy = DualStack,
     do_cache_ttl = 60000\<rparr>"

definition dns_options_engine :: "mixed_dns_options \<Rightarrow> 'w \<Rightarrow> 'w dns_engine" where
  "dns_options_engine options machine = dns_engine_with_policies machine (dns_cache_new (do_cache_ttl options))
     (do_local_resolution_policy options) (do_address_family_policy options)"

text \<open>The configuration of \<open>MixedProxyRuntime\<close>; its metrics, gauge and connection table are states of their own.\<close>

record mixed_proxy_runtime =
  rt_routes :: route_engine
  rt_relay_options :: relay_options
  rt_outbounds :: outbound_registry
  rt_dns_options :: mixed_dns_options
  rt_tun_tcp_max_active_sessions :: usize
  rt_max_connection_workers :: usize

definition default_tun_tcp_max_active_sessions :: usize where
  "default_tun_tcp_max_active_sessions = 4096"

definition default_managed_mixed_max_connection_workers :: usize where
  "default_managed_mixed_max_connection_workers = 1024"

text \<open>The four ways in which building a runtime fails; the source turns each into a message.\<close>

datatype mixed_runtime_error =
    ProfileConfigParseFailed subscription_parse_error
  | NoSupportedOutbounds
  | OutboundTagNotFound string "string list"
  | ProfileConfigUnsupported outbound_profile_error

definition mixed_runtime_from_parsed_profiles :: "parsed_outbound_profiles \<Rightarrow> string list \<Rightarrow> relay_options \<Rightarrow> string option
    \<Rightarrow> mixed_dns_options \<Rightarrow> (mixed_runtime_error, mixed_proxy_runtime) outcome" where
  "mixed_runtime_from_parsed_profiles parsed block_domains relay_options outbound_tag dns_options =
     (let available_tags = map pf_tag (po_profiles parsed) in
      obind (case outbound_tag of
          Some tag \<Rightarrow> Ok tag
        | None \<Rightarrow> (case available_tags of tag # _ \<Rightarrow> Ok tag | [] \<Rightarrow> Err NoSupportedOutbounds)) (\<lambda>selected_tag.
      if selected_tag \<notin> set available_tags then Err (OutboundTagNotFound selected_tag available_tags)
      else
        obind (map_err ProfileConfigUnsupported (from_profiles (po_profiles parsed))) (\<lambda>outbounds.
        Ok \<lparr>rt_routes = routes_from_cli block_domains (Outbound selected_tag), rt_relay_options = relay_options,
          rt_outbounds = outbounds, rt_dns_options = dns_options,
          rt_tun_tcp_max_active_sessions = default_tun_tcp_max_active_sessions,
          rt_max_connection_workers = default_managed_mixed_max_connection_workers\<rparr>)))"

definition mixed_runtime_from_subscription_config_text :: "external_parsers \<Rightarrow> string \<Rightarrow> string list \<Rightarrow> relay_options
    \<Rightarrow> string option \<Rightarrow> mixed_dns_options \<Rightarrow> (mixed_runtime_error, mixed_proxy_runtime) outcome" where
  "mixed_runtime_from_subscription_config_text ext config_text block_domains relay_options outbound_tag dns_options =
     obind (map_err ProfileConfigParseFailed (parse_subscription_outbound_profiles ext config_text)) (\<lambda>parsed.
     mixed_runtime_from_parsed_profiles parsed block_domains relay_options outbound_tag dns_options)"

definition mixed_runtime_from_cli :: "string list \<Rightarrow> relay_options \<Rightarrow> mixed_dns_options \<Rightarrow> mixed_proxy_runtime" where
  "mixed_runtime_from_cli block_domains relay_options dns_options =
     \<lparr>rt_routes = routes_from_cli block_domains Direct, rt_relay_options = relay_options,
      rt_outbounds = outbound_registry_new, rt_dns_options = dns_options,
      rt_tun_tcp_max_active_sessions = default_tun_tcp_max_active_sessions,
      rt_max_connection_workers = default_managed_mixed_max_connection_workers\<rparr>"

definition profile_supports_udp :: "outbound_profile \<Rightarrow> bool" where
  "profile_supports_udp profile \<longleftrightarrow> pf_protocol profile \<notin> {Http, Naive}"

record protocol_capability_report =
  pc_protocol :: string
  pc_tcp_relay_supported :: bool
  pc_udp_supported :: bool
  pc_tags :: "string list"

fun add_capability :: "outbound_profile \<Rightarrow> protocol_capability_report list \<Rightarrow> protocol_capability_report list" where
  "add_capability profile [] = [\<lparr>pc_protocol = show_proxy_protocol (pf_protocol profile), pc_tcp_relay_supported = True,
     pc_udp_supported = profile_supports_udp profile, pc_tags = [pf_tag profile]\<rparr>]"
| "add_capability profile (capability # capabilities) =
     (if pc_protocol capability = show_proxy_protocol (pf_protocol profile)
      then capability\<lparr>pc_tags := pc_tags capability @ [pf_tag profile],
             pc_udp_supported := pc_udp_supported capability \<or> profile_supports_udp profile\<rparr> # capabilities
      else capability # add_capability profile capabilities)"

definition protocol_capability_reports :: "outbound_profile list \<Rightarrow> protocol_capability_report list" where
  "protocol_capability_reports profiles = foldl (\<lambda>capabilities profile. add_capability profile capabilities) [] profiles"

section \<open>Rules survive as strings\<close>

lemma parse_unsigned_show:
  assumes "n \<le> m"
  shows "parse_unsigned m (show_radix 10 n) = Some n"
proof -
  have digits: "list_all (\<lambda>c. to_digit 10 c \<noteq> None) (show_radix 10 n)"
    using show_radix_digits [of 10 _ n] by (auto simp: list_all_iff)
  have plus: "to_digit 10 CHR ''+'' = None" by (simp add: to_digit_def char_code_def)
  have "(case show_radix 10 n of c # rest \<Rightarrow> if c = CHR ''+'' then rest else show_radix 10 n | [] \<Rightarrow> []) = show_radix 10 n"
    using digits plus show_radix_nonempty [of 10 n] by (cases "show_radix 10 n") auto
  then show ?thesis
    using digits assms show_radix_nonempty [of 10 n] by (simp add: parse_unsigned_def Let_def digits_value_show_radix)
qed

lemma parse_u8_show: "parse_u8 (show_radix 10 (unat (n :: u8))) = Some n"
proof -
  have "unat n \<le> 255" using unat_u8_less [of n] by linarith
  then show ?thesis by (simp add: parse_u8_def parse_unsigned_show)
qed

lemma digits_no_sign: "to_digit b c = None \<Longrightarrow> 2 \<le> b \<Longrightarrow> b \<le> 16 \<Longrightarrow> c \<notin> set (show_radix b n)"
  using show_radix_digits [of b c n] by auto

lemma set_join_with: "set (join_with sep xs) \<subseteq> set sep \<union> (\<Union>x\<in>set xs. set x)"
  by (induction sep xs rule: join_with.induct) auto

lemma show_ip_no_slash: "CHR ''/'' \<notin> set (show_ip ip)"
proof -
  have none: "to_digit 10 CHR ''/'' = None" "to_digit 16 CHR ''/'' = None"
    by (simp_all add: to_digit_def char_code_def)
  have v4: "CHR ''/'' \<notin> set (show_ipv4 a)" for a
    using set_join_with [of "''.''" "map (\<lambda>b. show_radix 10 (unat b)) (be_bytes 4 a)"] digits_no_sign [OF none(1)]
    by (auto simp: show_ipv4_def)
  have groups: "CHR ''/'' \<notin> set (fmt_subslice gs)" for gs
    using set_join_with [of "'':''" "map (\<lambda>g. show_radix 16 (unat g)) gs"] digits_no_sign [OF none(2)]
    by (auto simp: fmt_subslice_def)
  show ?thesis
    using v4 groups by (cases ip) (auto simp: show_ipv6_def Let_def split: option.split prod.split)
qed

lemma cidr_new_again:
  assumes "route_ip_cidr_new network n = Ok cidr"
  shows "route_ip_cidr_new (cidr_network cidr) (cidr_prefix_len cidr) = Ok cidr"
  using assms by (cases network) (auto simp: route_ip_cidr_new_def and.assoc split: if_splits)

lemma parse_block_port_number_show: "0 < n \<Longrightarrow> parse_block_port_number input (show_u16 n) = Ok n"
  by (simp add: parse_block_port_number_def)

lemma show_u16_no_dash: "CHR ''-'' \<notin> set (show_u16 n)"
  using digits_no_sign [of 10 "CHR ''-''" "unat n"] by (simp add: show_u16_def to_digit_def char_code_def)

lemma split_once_none: "c \<notin> set s \<Longrightarrow> split_once c s = None"
proof -
  assume "c \<notin> set s"
  then have "dropWhile (\<lambda>x. x \<noteq> c) s = []" by (auto simp: dropWhile_eq_Nil_conv)
  then show ?thesis unfolding split_once_def by (simp only: list.case)
qed

lemma parse_port_label:
  assumes "0 < pr_start ports" "pr_start ports \<le> pr_end ports"
  shows "parse_cli_block_port (port_range_label ports) = Ok ports"
proof (cases "pr_start ports = pr_end ports")
  case True
  then show ?thesis
    using assms split_once_none [OF show_u16_no_dash]
    by (simp add: parse_cli_block_port_def port_range_label_def parse_block_port_number_show)
next
  case False
  moreover have "0 < pr_end ports" using assms by (rule less_le_trans)
  ultimately show ?thesis
    using assms split_once_append [OF show_u16_no_dash]
    by (simp add: parse_cli_block_port_def port_range_label_def parse_block_port_number_show)
qed

lemma parse_cidr_label:
  assumes "route_ip_cidr_new network n = Ok cidr"
  shows "parse_cli_block_cidr (show_ip (cidr_network cidr) @ ''/'' @ show_radix 10 (unat (cidr_prefix_len cidr))) = Ok cidr"
  using split_once_append [OF show_ip_no_slash] cidr_new_again [OF assms]
  by (simp add: parse_cli_block_cidr_def parse_show_ip parse_u8_show)

text \<open>
  C34. Block rules survive as strings: the value the command line stores for a CIDR block or for a range of
  ports is read back, when the routes are built, as a rule for exactly that block or those ports, and a
  domain that does not start with \<open>cidr:\<close> or \<open>port:\<close> is a rule for the domain and its subdomains.
\<close>

theorem block_rules_roundtrip:
  "(route_ip_cidr_new network n = Ok cidr \<longrightarrow> rule_matcher (block_rule (block_cidr_rule_value cidr)) = IpCidr cidr)
   \<and> (0 < pr_start ports \<longrightarrow> pr_start ports \<le> pr_end ports \<longrightarrow>
      rule_matcher (block_rule (block_port_rule_value ports))
      = (if pr_start ports = pr_end ports then PortExact (pr_start ports) else PortRange (pr_start ports) (pr_end ports)))
   \<and> (\<not> starts_with domain ''cidr:'' \<longrightarrow> \<not> starts_with domain ''port:'' \<longrightarrow>
      rule_matcher (block_rule domain) = DomainSuffix domain)"
proof (intro conjI impI)
  assume "route_ip_cidr_new network n = Ok cidr"
  from parse_cidr_label [OF this] show "rule_matcher (block_rule (block_cidr_rule_value cidr)) = IpCidr cidr"
    by (simp add: block_rule_def block_cidr_rule_def block_cidr_rule_value_def strip_prefix_def block_cidr_rule_prefix_def)
next
  assume "0 < pr_start ports" "pr_start ports \<le> pr_end ports"
  from parse_port_label [OF this] show "rule_matcher (block_rule (block_port_rule_value ports))
      = (if pr_start ports = pr_end ports then PortExact (pr_start ports) else PortRange (pr_start ports) (pr_end ports))"
    by (simp add: block_rule_def block_cidr_rule_def block_port_rule_def block_port_rule_value_def strip_prefix_def
        block_cidr_rule_prefix_def block_port_rule_prefix_def)
next
  assume "\<not> starts_with domain ''cidr:''" "\<not> starts_with domain ''port:''"
  then show "rule_matcher (block_rule domain) = DomainSuffix domain"
    by (simp add: block_rule_def block_cidr_rule_def block_port_rule_def block_domain_rule_def strip_prefix_def
        block_cidr_rule_prefix_def block_port_rule_prefix_def starts_with_def)
qed

theorem block_rules_roundtrip_witness:
  "rule_matcher (block_rule (block_port_rule_value \<lparr>pr_start = 80, pr_end = 443\<rparr>)) = PortRange 80 443"
  using block_rules_roundtrip [of "V4 0" 8 "\<lparr>cidr_network = V4 0, cidr_prefix_len = 8\<rparr>" "\<lparr>pr_start = 80, pr_end = 443\<rparr>"]
  by simp

section \<open>What is blocked\<close>

lemma block_rule_blocks: "rule_action (block_rule rule) = Block"
  by (auto simp: block_rule_def block_cidr_rule_def block_port_rule_def block_domain_rule_def
      split: option.split outcome.split)

lemma routes_from_cli_eq:
  "routes_from_cli rules action = \<lparr>engine_rules = map block_rule rules, engine_default_action = action\<rparr>"
proof -
  have "foldl (\<lambda>routes rule. add_rule routes (block_rule rule)) e rules = e\<lparr>engine_rules := engine_rules e @ map block_rule rules\<rparr>" for e
    by (induction rules arbitrary: e) (simp_all add: add_rule_def)
  then show ?thesis by (simp add: routes_from_cli_def route_engine_new_def)
qed

lemma routes_from_cli_action:
  "decision_action (decide_destination (routes_from_cli rules action) d)
    = (if list_ex (\<lambda>rule. matcher_matches (rule_matcher (block_rule rule)) d) rules then Block else action)"
  by (induction rules) (auto simp: decide_destination_def routes_from_cli_eq block_rule_blocks)

text \<open>
  C35. The routes of the command line block exactly what one of their rules matches and leave everything else
  to the default action.
\<close>

theorem cli_routes_block_exactly:
  "decision_action (decide_destination (routes_from_cli rules action) d)
    = (if list_ex (\<lambda>rule. matcher_matches (rule_matcher (block_rule rule)) d) rules then Block else action)"
  by (rule routes_from_cli_action)

text \<open>
  C36. A rule for a domain can be evaded with a trailing dot. The destination \<open>domain\<close> is blocked; \<open>domain.\<close> is
  not, although the DNS engine takes both for the same name.
\<close>

theorem trailing_dot_evades_block:
  assumes "domain \<noteq> []" "hd domain \<noteq> CHR ''.''" "\<not> starts_with domain ''cidr:''" "\<not> starts_with domain ''port:''"
  shows "decision_action (decide_destination (routes_from_cli [domain] Direct) (route_destination_new (TargetDomain domain) port)) = Block
    \<and> decision_action (decide_destination (routes_from_cli [domain] Direct)
        (route_destination_new (TargetDomain (domain @ ''.'')) port)) = Direct
    \<and> normalize_host (domain @ ''.'') = normalize_host domain"
proof -
  have rule: "rule_matcher (block_rule domain) = DomainSuffix domain"
    using assms by (simp add: block_rule_def block_cidr_rule_def block_port_rule_def block_domain_rule_def strip_prefix_def
        block_cidr_rule_prefix_def block_port_rule_prefix_def starts_with_def)
  have trimmed: "trim_start_matches CHR ''.'' domain = domain"
    using assms by (cases domain) (simp_all add: trim_start_matches_def)
  have "\<not> ends_with (to_ascii_lowercase (domain @ ''.'')) (''.'' @ to_ascii_lowercase domain)"
  proof
    assume "ends_with (to_ascii_lowercase (domain @ ''.'')) (''.'' @ to_ascii_lowercase domain)"
    then obtain pre where "to_ascii_lowercase domain @ ''.'' = pre @ ''.'' @ to_ascii_lowercase domain"
      by (auto simp: ends_with_def suffix_def to_ascii_lowercase_def)
    then have eq: "to_ascii_lowercase domain @ ''.'' = ''.'' @ to_ascii_lowercase domain"
      by (cases pre) (auto dest: arg_cong [where f = length])
    then have "ascii_lower (hd domain) = CHR ''.''"
      using assms(1) by (cases domain) (simp_all add: to_ascii_lowercase_def)
    then show False using assms(2) by (auto simp: ascii_lower_def char_code_def split: if_splits
        dest!: arg_cong [where f = "of_char :: char \<Rightarrow> nat"])
  qed
  then show ?thesis
    using rule trimmed
    by (simp add: routes_from_cli_action route_destination_new_def eq_ignore_ascii_case_def)
       (simp add: to_ascii_lowercase_def normalize_host_def trim_end_matches_def)
qed

theorem trailing_dot_evades_block_witness:
  "decision_action (decide_destination (routes_from_cli [''ads.example''] Direct)
      (route_destination_new (TargetDomain ''ads.example.'') 443)) = Direct"
  using trailing_dot_evades_block [of "''ads.example''" 443] by (simp add: starts_with_def)

section \<open>Where the rest goes\<close>

lemma add_profiles_keep:
  "add_profiles ps r = (Ok (), r') \<Longrightarrow> or_tags r table tag \<noteq> None \<Longrightarrow> or_tags r' table tag \<noteq> None"
proof (induction ps arbitrary: r)
  case (Cons p ps)
  obtain r1 where r1: "add_profile p r = (Ok (), r1)" "add_profiles ps r1 = (Ok (), r')"
    using Cons.prems(1) by (auto simp: sbind_def split: prod.splits outcome.splits)
  then have "or_tags r1 table tag \<noteq> None"
    using Cons.prems(2)
    by (auto simp: add_profile_def sbind_def lift_def add_outbound_lookup split: outcome.splits prod.splits if_splits)
  with Cons.IH r1 show ?case by blast
qed (simp add: ret_def)

lemma add_profiles_registered:
  "add_profiles ps r = (Ok (), r') \<Longrightarrow> p \<in> set ps \<Longrightarrow> \<exists>table. or_tags r' table (pf_tag p) \<noteq> None"
proof (induction ps arbitrary: r)
  case (Cons q ps)
  obtain r1 where r1: "add_profile q r = (Ok (), r1)" "add_profiles ps r1 = (Ok (), r')"
    using Cons.prems(1) by (auto simp: sbind_def split: prod.splits outcome.splits)
  then have "\<exists>table. or_tags r1 table (pf_tag q) \<noteq> None"
    by (auto simp: add_profile_def sbind_def lift_def add_outbound_lookup split: outcome.splits prod.splits if_splits)
  then obtain table where "or_tags r1 table (pf_tag q) \<noteq> None" by blast
  then have "or_tags r' table (pf_tag q) \<noteq> None" by (rule add_profiles_keep [OF r1(2)])
  with Cons.IH [OF r1(2)] Cons.prems(2) show ?case by auto
qed simp

lemma first_entry_Some: "table \<in> set tables \<Longrightarrow> or_tags r table tag \<noteq> None \<Longrightarrow> first_entry tables r tag \<noteq> None"
  by (induction tables) (auto split: option.splits)

lemma registered_tag:
  assumes "from_profiles ps = Ok r" "tag \<in> pf_tag ` set ps"
  shows "tcp_dispatch r tag \<noteq> None"
proof -
  have "add_profiles ps outbound_registry_new = (Ok (), r)"
    using assms(1) by (auto simp: from_profiles_def split: prod.splits outcome.splits)
  then obtain table where "or_tags r table tag \<noteq> None" using assms(2) add_profiles_registered by blast
  then show ?thesis using first_entry_Some [OF all_tcp_tables] by (auto simp: tcp_dispatch_def)
qed

text \<open>
  C37. Every destination has somewhere to go. A runtime built from a subscription, with whatever block rules and
  whatever tag is asked for, sends every destination either nowhere, because a rule blocks it, or to the
  selected outbound, and that outbound is registered; a tag that the subscription does not have, and a
  subscription without a usable profile, are refused when the runtime is built.
\<close>

theorem runtime_destinations_served:
  assumes "mixed_runtime_from_subscription_config_text ext config rules relay_options outbound_tag dns_options = Ok rt"
  shows "\<exists>tag. (\<forall>requested. outbound_tag = Some requested \<longrightarrow> tag = requested)
    \<and> tcp_dispatch (rt_outbounds rt) tag \<noteq> None
    \<and> decision_action (decide_destination (rt_routes rt) d)
        = (if list_ex (\<lambda>rule. matcher_matches (rule_matcher (block_rule rule)) d) rules then Block else Outbound tag)"
proof -
  obtain parsed where parsed: "mixed_runtime_from_parsed_profiles parsed rules relay_options outbound_tag dns_options = Ok rt"
    using assms by (auto simp: mixed_runtime_from_subscription_config_text_def outcome_simps)
  let ?tags = "map pf_tag (po_profiles parsed)"
  obtain tag where tag: "(case outbound_tag of Some tag \<Rightarrow> Ok tag
      | None \<Rightarrow> (case ?tags of tag # _ \<Rightarrow> Ok tag | [] \<Rightarrow> Err NoSupportedOutbounds)) = Ok tag"
    using parsed unfolding mixed_runtime_from_parsed_profiles_def Let_def by (auto simp: outcome_simps)
  then have "tag \<in> set ?tags" "from_profiles (po_profiles parsed) = Ok (rt_outbounds rt)"
      "rt_routes rt = routes_from_cli rules (Outbound tag)"
    using parsed unfolding mixed_runtime_from_parsed_profiles_def Let_def tag
    by (auto simp: outcome_simps split: if_splits)
  moreover have "\<forall>requested. outbound_tag = Some requested \<longrightarrow> tag = requested" using tag by auto
  ultimately show ?thesis using registered_tag by (auto simp: routes_from_cli_action)
qed

theorem runtime_destinations_served_witness:
  "\<exists>rt tag. mixed_runtime_from_subscription_config_text sample_parsers sample_link [''ads.example'']
      \<lparr>ro_first_byte_timeout = None, ro_idle_timeout = None\<rparr> None mixed_dns_options_default = Ok rt
    \<and> tcp_dispatch (rt_outbounds rt) tag \<noteq> None
    \<and> decision_action (decide_destination (rt_routes rt) (route_destination_new (TargetIp (V4 1)) 443)) = Outbound tag"
proof -
  have "registrable sample_link_profile"
    using subscription_profile [OF sample_subscription] by (simp add: registrable_def) (simp add: sample_link_profile_def)
  then obtain r where r: "from_profiles [sample_link_profile] = Ok r"
    using add_profiles_registrable [of "[sample_link_profile]" outbound_registry_new] by (auto simp: from_profiles_def)
  obtain rt where "mixed_runtime_from_subscription_config_text sample_parsers sample_link [''ads.example'']
      \<lparr>ro_first_byte_timeout = None, ro_idle_timeout = None\<rparr> None mixed_dns_options_default = Ok rt"
    using r sample_subscription
    by (simp add: mixed_runtime_from_subscription_config_text_def mixed_runtime_from_parsed_profiles_def)
  moreover have "\<not> matcher_matches (rule_matcher (block_rule ''ads.example'')) (route_destination_new (TargetIp (V4 1)) 443)"
    by (simp add: block_rule_def block_cidr_rule_def block_port_rule_def block_domain_rule_def strip_prefix_def
        block_cidr_rule_prefix_def block_port_rule_prefix_def route_destination_new_def)
  ultimately show ?thesis
    using runtime_destinations_served [of sample_parsers sample_link "[''ads.example'']" _ None mixed_dns_options_default _
        "route_destination_new (TargetIp (V4 1)) 443"]
    by fastforce
qed

end
