(* ===== verification/Keli_Pump.thy ===== *)
theory Keli_Pump
  imports Keli_Metrics
begin

text \<open>
  The relay between a client and a remote stream (\<open>relay_owned_bidirectional_with_options\<close> of \<open>direct.rs\<close>): a
  loop over non-blocking reads and writes with one buffer of pending bytes per direction, half-close of
  the upload and timeouts on the download. What the two sockets do is a script per peer: the results of
  the reads and writes to come, in any order and with any errors; the clock is a sequence of instants.
  The lemmas show that the loop moves bytes without loss, duplication or reordering, whatever the scripts.
\<close>

section \<open>Peers\<close>

text \<open>
  A peer answers a read with an error or with bytes, where no bytes are the end of the stream, and a write
  with an error or with the number of bytes it takes. A script that has run out blocks. What was read from
  a peer and what it has taken is kept in \<open>pe_received\<close> and \<open>pe_delivered\<close>.
\<close>

record peer =
  pe_nonblocking_error :: "io_error option"
  pe_reads :: "(io_error + bytes) list"
  pe_writes :: "(io_error + nat) list"
  pe_received :: bytes
  pe_delivered :: bytes
  pe_write_shut :: bool
  pe_shut :: bool

definition would_block :: io_error where
  "would_block = IoError WouldBlock ''Resource temporarily unavailable (os error 11)''"

definition peer_read :: "nat \<Rightarrow> (peer, io_error, bytes) op" where
  "peer_read n p = (case pe_reads p of
      [] \<Rightarrow> (Err would_block, p)
    | Inl e # rest \<Rightarrow> (Err e, p\<lparr>pe_reads := rest\<rparr>)
    | Inr chunk # rest \<Rightarrow>
        (Ok (take n chunk), p\<lparr>pe_reads := (if length chunk \<le> n then rest else Inr (drop n chunk) # rest),
           pe_received := pe_received p @ take n chunk\<rparr>))"

definition peer_write :: "bytes \<Rightarrow> (peer, io_error, nat) op" where
  "peer_write bs p = (case pe_writes p of
      [] \<Rightarrow> (Err would_block, p)
    | Inl e # rest \<Rightarrow> (Err e, p\<lparr>pe_writes := rest\<rparr>)
    | Inr n # rest \<Rightarrow>
        (Ok (min n (length bs)), p\<lparr>pe_writes := rest, pe_delivered := pe_delivered p @ take n bs\<rparr>))"

section \<open>Pending bytes\<close>

record relay_error =
  re_kind :: connection_error_kind
  re_source :: io_error

definition relay_error_from_io :: "io_error \<Rightarrow> relay_error" where
  "relay_error_from_io source = \<lparr>re_kind = error_kind_from_io source, re_source = source\<rparr>"

record pending_write =
  pw_bytes :: bytes
  pw_offset :: usize

definition pending_new :: pending_write where
  "pending_new = \<lparr>pw_bytes = [], pw_offset = 0\<rparr>"

definition pending_is_empty :: "pending_write \<Rightarrow> bool" where
  "pending_is_empty pending \<longleftrightarrow> length (pw_bytes pending) \<le> pw_offset pending"

definition pending_set :: "bytes \<Rightarrow> pending_write" where
  "pending_set bs = \<lparr>pw_bytes = bs, pw_offset = 0\<rparr>"

definition pending_advance :: "nat \<Rightarrow> pending_write \<Rightarrow> pending_write" where
  "pending_advance n pending =
     (let pending = pending\<lparr>pw_offset := pw_offset pending + n\<rparr> in
      if pending_is_empty pending then pending_new else pending)"

datatype pump_result = PumpBytes nat | PumpEof | PumpNoProgress

definition is_nonblocking_pause :: "io_error \<Rightarrow> bool" where
  "is_nonblocking_pause e \<longleftrightarrow> error_kind e \<in> {WouldBlock, TimedOut, Interrupted}"

definition is_remote_clean_close_eof :: "io_error \<Rightarrow> bool" where
  "is_remote_clean_close_eof e \<longleftrightarrow>
     error_kind e = UnexpectedEof \<and> str_contains (error_message e) ''close_notify''
     \<or> str_contains (error_message e) ''stream error received: not a result of an error''"

definition relay_buffer_size :: nat where
  "relay_buffer_size = 16 * 1024"

text \<open>Reading from a peer into the pending bytes, and writing the pending bytes to a peer.\<close>

definition pump_read :: "bool \<Rightarrow> (pending_write \<times> peer, relay_error, pump_result) op" where
  "pump_read eof = (\<lambda>(pending, p).
     if eof \<or> \<not> pending_is_empty pending then (Ok PumpNoProgress, (pending, p))
     else case peer_read relay_buffer_size p of
       (Ok bs, p) \<Rightarrow> if bs = [] then (Ok PumpEof, (pending, p)) else (Ok (PumpBytes (length bs)), (pending_set bs, p))
     | (Err e, p) \<Rightarrow>
         if is_nonblocking_pause e then (Ok PumpNoProgress, (pending, p))
         else if is_remote_clean_close_eof e then (Ok PumpEof, (pending, p))
         else (Err (relay_error_from_io e), (pending, p))
     | (Panic, p) \<Rightarrow> (Panic, (pending, p)))"

function pump_write :: "bool \<Rightarrow> (pending_write \<times> peer, relay_error, bool) op" where
  "pump_write progressed (pending, p) =
     (if pending_is_empty pending then (Ok progressed, (pending, p))
      else case peer_write (drop (pw_offset pending) (pw_bytes pending)) p of
        (Ok n, p') \<Rightarrow>
          if n = 0 then (Err (relay_error_from_io (IoError WriteZero ''relay writer returned zero bytes'')), (pending, p'))
          else pump_write True (pending_advance n pending, p')
      | (Err e, p') \<Rightarrow>
          if is_nonblocking_pause e then (Ok progressed, (pending, p')) else (Err (relay_error_from_io e), (pending, p'))
      | (Panic, p') \<Rightarrow> (Panic, (pending, p')))"
  by pat_completeness auto
termination
  by (relation "measure (\<lambda>(_, pending, _). length (pw_bytes pending) - pw_offset pending)")
    (auto simp: pending_advance_def pending_is_empty_def pending_new_def Let_def)

declare pump_write.simps [simp del]

section \<open>The loop\<close>

record relay_state =
  rl_client :: peer
  rl_remote :: peer
  rl_upload :: pending_write
  rl_download :: pending_write
  rl_client_eof :: bool
  rl_remote_eof :: bool
  rl_remote_write_shutdown :: bool
  rl_client_to_remote_bytes :: u64
  rl_remote_to_client_bytes :: u64
  rl_remote_first_byte_after :: "duration option"
  rl_last_remote_byte_at :: instant
  rl_ticks :: nat

text \<open>\<open>Instant::now()\<close> and \<open>elapsed()\<close>: the next instant of the clock.\<close>

definition tick :: "(nat \<Rightarrow> instant) \<Rightarrow> (relay_state, 'e, instant) op" where
  "tick clock s = (Ok (clock (rl_ticks s)), s\<lparr>rl_ticks := Suc (rl_ticks s)\<rparr>)"

text \<open>An operation on the pending upload and the client, and so on.\<close>

definition client_to_upload :: "(pending_write \<times> peer, 'e, 'a) op \<Rightarrow> (relay_state, 'e, 'a) op" where
  "client_to_upload m s = (case m (rl_upload s, rl_client s) of
      (r, (upload, client)) \<Rightarrow> (r, s\<lparr>rl_upload := upload, rl_client := client\<rparr>))"

definition remote_to_download :: "(pending_write \<times> peer, 'e, 'a) op \<Rightarrow> (relay_state, 'e, 'a) op" where
  "remote_to_download m s = (case m (rl_download s, rl_remote s) of
      (r, (download, remote)) \<Rightarrow> (r, s\<lparr>rl_download := download, rl_remote := remote\<rparr>))"

definition upload_to_remote :: "(pending_write \<times> peer, 'e, 'a) op \<Rightarrow> (relay_state, 'e, 'a) op" where
  "upload_to_remote m s = (case m (rl_upload s, rl_remote s) of
      (r, (upload, remote)) \<Rightarrow> (r, s\<lparr>rl_upload := upload, rl_remote := remote\<rparr>))"

definition download_to_client :: "(pending_write \<times> peer, 'e, 'a) op \<Rightarrow> (relay_state, 'e, 'a) op" where
  "download_to_client m s = (case m (rl_download s, rl_client s) of
      (r, (download, client)) \<Rightarrow> (r, s\<lparr>rl_download := download, rl_client := client\<rparr>))"

definition relay_read_client :: "(relay_state, relay_error, unit) op" where
  "relay_read_client s = sbind (client_to_upload (pump_read (rl_client_eof s))) (\<lambda>r s. (Ok (), case r of
      PumpBytes n \<Rightarrow> s\<lparr>rl_client_to_remote_bytes := rl_client_to_remote_bytes s + of_nat n\<rparr>
    | PumpEof \<Rightarrow> s\<lparr>rl_client_eof := True\<rparr>
    | PumpNoProgress \<Rightarrow> s)) s"

definition record_remote_bytes :: "(nat \<Rightarrow> instant) \<Rightarrow> instant \<Rightarrow> nat \<Rightarrow> (relay_state, relay_error, unit) op" where
  "record_remote_bytes clock started n =
     sbind (\<lambda>s. if rl_remote_first_byte_after s = None
         then sbind (tick clock) (\<lambda>now s. (Ok (), s\<lparr>rl_remote_first_byte_after := Some (saturating_duration_since now started)\<rparr>)) s
         else (Ok (), s)) (\<lambda>_.
     sbind (tick clock) (\<lambda>now s.
     (Ok (), s\<lparr>rl_remote_to_client_bytes := rl_remote_to_client_bytes s + of_nat n, rl_last_remote_byte_at := now\<rparr>)))"

definition relay_read_remote :: "(nat \<Rightarrow> instant) \<Rightarrow> instant \<Rightarrow> (relay_state, relay_error, unit) op" where
  "relay_read_remote clock started s = sbind (remote_to_download (pump_read (rl_remote_eof s))) (\<lambda>r. case r of
      PumpBytes n \<Rightarrow> record_remote_bytes clock started n
    | PumpEof \<Rightarrow> (\<lambda>s. (Ok (), s\<lparr>rl_remote_eof := True\<rparr>))
    | PumpNoProgress \<Rightarrow> ret ()) s"

definition relay_half_close :: "relay_state \<Rightarrow> relay_state" where
  "relay_half_close s =
     (if rl_client_eof s \<and> pending_is_empty (rl_upload s) \<and> \<not> rl_remote_write_shutdown s
      then s\<lparr>rl_remote := (rl_remote s)\<lparr>pe_write_shut := True\<rparr>, rl_remote_write_shutdown := True\<rparr>
      else s)"

definition relay_shut_both :: "relay_state \<Rightarrow> relay_state" where
  "relay_shut_both s = s\<lparr>rl_client := (rl_client s)\<lparr>pe_shut := True\<rparr>, rl_remote := (rl_remote s)\<lparr>pe_shut := True\<rparr>\<rparr>"

definition relay_timeout_error :: "connection_error_kind \<Rightarrow> string \<Rightarrow> relay_error" where
  "relay_timeout_error kind message = \<lparr>re_kind = kind, re_source = IoError TimedOut message\<rparr>"

definition relay_timeouts :: "(nat \<Rightarrow> instant) \<Rightarrow> relay_options \<Rightarrow> instant \<Rightarrow> (relay_state, relay_error, unit) op" where
  "relay_timeouts clock options started s =
     (if rl_remote_first_byte_after s = None then (case ro_first_byte_timeout options of
          Some timeout \<Rightarrow> sbind (tick clock) (\<lambda>now s.
            if timeout \<le> saturating_duration_since now started
            then (Err (relay_timeout_error FirstByteTimeout ''timed out waiting for remote first byte''), relay_shut_both s)
            else (Ok (), s)) s
        | None \<Rightarrow> (Ok (), s))
      else (case ro_idle_timeout options of
          Some timeout \<Rightarrow> sbind (tick clock) (\<lambda>now s.
            if timeout \<le> saturating_duration_since now (rl_last_remote_byte_at s)
            then (Err (relay_timeout_error IdleTimeout ''remote stream became idle''), relay_shut_both s)
            else (Ok (), s)) s
        | None \<Rightarrow> (Ok (), s)))"

text \<open>
  The rest of a round after its reads and writes, and the whole round; \<open>True\<close> is the \<open>break\<close>. The sleep of
  a round without progress and the results of \<open>shutdown\<close>, which the source drops, have no counterpart.
\<close>

definition relay_close_or_wait :: "(nat \<Rightarrow> instant) \<Rightarrow> relay_options \<Rightarrow> instant \<Rightarrow> (relay_state, relay_error, bool) op" where
  "relay_close_or_wait clock options started s0 =
     (let s = relay_half_close s0 in
      if rl_remote_eof s \<and> pending_is_empty (rl_download s)
      then (Ok True, s\<lparr>rl_client := (rl_client s)\<lparr>pe_write_shut := True\<rparr>\<rparr>)
      else sbind (relay_timeouts clock options started) (\<lambda>_. ret False) s)"

definition relay_round :: "(nat \<Rightarrow> instant) \<Rightarrow> relay_options \<Rightarrow> instant \<Rightarrow> (relay_state, relay_error, bool) op" where
  "relay_round clock options started =
     sbind relay_read_client (\<lambda>_.
     sbind (relay_read_remote clock started) (\<lambda>_.
     sbind (upload_to_remote (pump_write False)) (\<lambda>_.
     sbind (download_to_client (pump_write False)) (\<lambda>_.
     relay_close_or_wait clock options started))))"

fun relay_loop :: "nat \<Rightarrow> (nat \<Rightarrow> instant) \<Rightarrow> relay_options \<Rightarrow> instant
    \<Rightarrow> relay_state \<Rightarrow> ((relay_error, unit) outcome option) \<times> relay_state" where
  "relay_loop 0 clock options started s = (None, s)"
| "relay_loop (Suc rounds) clock options started s = (case relay_round clock options started s of
      (Ok True, s) \<Rightarrow> (Some (Ok ()), relay_shut_both s)
    | (Ok False, s) \<Rightarrow> relay_loop rounds clock options started s
    | (Err e, s) \<Rightarrow> (Some (Err e), s)
    | (Panic, s) \<Rightarrow> (Some Panic, s))"

definition relay_start :: "(nat \<Rightarrow> instant) \<Rightarrow> peer \<Rightarrow> peer \<Rightarrow> relay_state" where
  "relay_start clock client remote =
     \<lparr>rl_client = client, rl_remote = remote, rl_upload = pending_new, rl_download = pending_new,
      rl_client_eof = False, rl_remote_eof = False, rl_remote_write_shutdown = False,
      rl_client_to_remote_bytes = 0, rl_remote_to_client_bytes = 0, rl_remote_first_byte_after = None,
      rl_last_remote_byte_at = clock 0, rl_ticks = 1\<rparr>"

definition relay_stats_of :: "relay_state \<Rightarrow> relay_stats" where
  "relay_stats_of s = \<lparr>rs_client_to_remote_bytes = rl_client_to_remote_bytes s,
     rs_remote_to_client_bytes = rl_remote_to_client_bytes s, rs_remote_first_byte_after = rl_remote_first_byte_after s\<rparr>"

text \<open>The first \<open>rounds\<close> rounds of a relay: \<open>None\<close> while it is still running.\<close>

definition relay_owned_bidirectional_with_options :: "nat \<Rightarrow> (nat \<Rightarrow> instant) \<Rightarrow> relay_options \<Rightarrow> peer \<Rightarrow> peer
    \<Rightarrow> ((relay_error, relay_stats) outcome option) \<times> relay_state" where
  "relay_owned_bidirectional_with_options rounds clock options client remote =
     (let s = relay_start clock client remote in
      case (pe_nonblocking_error client, pe_nonblocking_error remote) of
        (Some e, _) \<Rightarrow> (Some (Err (relay_error_from_io e)), s)
      | (None, Some e) \<Rightarrow> (Some (Err (relay_error_from_io e)), s)
      | (None, None) \<Rightarrow> (case relay_loop rounds clock options (clock 0) s of
            (Some (Ok _), s) \<Rightarrow> (Some (Ok (relay_stats_of s)), s)
          | (Some (Err e), s) \<Rightarrow> (Some (Err e), s)
          | (Some Panic, s) \<Rightarrow> (Some Panic, s)
          | (None, s) \<Rightarrow> (None, s)))"

section \<open>What the loop keeps\<close>

text \<open>The bytes still to be written.\<close>

definition pending_rest :: "pending_write \<Rightarrow> bytes" where
  "pending_rest pending = drop (pw_offset pending) (pw_bytes pending)"

lemma pending_rest_simps [simp]:
  "pending_rest pending_new = []"
  "pending_rest (pending_set bs) = bs"
  "pending_is_empty pending \<longleftrightarrow> pending_rest pending = []"
  "pending_rest (pending_advance n pending) = drop n (pending_rest pending)"
  by (auto simp: pending_rest_def pending_new_def pending_set_def pending_is_empty_def pending_advance_def Let_def add.commute)

text \<open>A read appends the same bytes to what was received and to the pending bytes, and a read error none.\<close>

definition bytes_read :: "('e, pump_result) outcome \<Rightarrow> nat" where
  "bytes_read r = (case r of Ok (PumpBytes n) \<Rightarrow> n | _ \<Rightarrow> 0)"

lemma bytes_read_simps [simp]:
  "bytes_read (Ok (PumpBytes n)) = n" "bytes_read (Ok PumpEof) = 0" "bytes_read (Ok PumpNoProgress) = 0"
  "bytes_read (Err e) = 0"
  by (simp_all add: bytes_read_def)

lemma bytes_read_cases:
  obtains n where "r = Ok (PumpBytes n)" | "r = Ok PumpEof" | "r = Ok PumpNoProgress" | e where "r = Err e" | "r = Panic"
  by (cases r; cases "case r of Ok x \<Rightarrow> x | _ \<Rightarrow> PumpEof") auto

lemma pump_read_appends:
  assumes "pump_read eof (pending, p) = (r, pending', p')"
  obtains bs where "pe_received p' = pe_received p @ bs" and "pending_rest pending' = pending_rest pending @ bs"
    and "length bs = bytes_read r" and "length bs \<le> relay_buffer_size"
    and "bs \<noteq> [] \<longrightarrow> pending_rest pending = [] \<and> \<not> eof" and "pe_delivered p' = pe_delivered p"
    and "pe_write_shut p' = pe_write_shut p" and "r \<noteq> Panic" and "r \<noteq> Ok (PumpBytes 0)"
  by (rule that [of "drop (length (pe_received p)) (pe_received p')"])
    (use assms in \<open>auto simp: pump_read_def peer_read_def split: if_splits list.splits sum.splits\<close>)

text \<open>A write moves a prefix of the pending bytes to what the peer has taken, also when it fails later.\<close>

lemma pump_write_moves:
  assumes "pump_write progressed (pending, p) = (r, pending', p')"
  shows "pe_delivered p' @ pending_rest pending' = pe_delivered p @ pending_rest pending
    \<and> length (pending_rest pending') \<le> length (pending_rest pending)
    \<and> pe_received p' = pe_received p \<and> pe_write_shut p' = pe_write_shut p \<and> r \<noteq> Panic"
  using assms
proof (induction progressed "(pending, p)" arbitrary: pending p rule: pump_write.induct)
  case (1 progressed pending p)
  show ?case
  proof (cases "\<exists>n q. peer_write (pending_rest pending) p = (Ok n, q) \<and> pending_rest pending \<noteq> [] \<and> 0 < n")
    case True
    then obtain n q where w: "peer_write (pending_rest pending) p = (Ok n, q)" "pending_rest pending \<noteq> []" "0 < n"
      by blast
    then have "pump_write True (pending_advance n pending, q) = (r, pending', p')"
      using "1.prems" by (simp add: pump_write.simps [of progressed] pending_rest_def)
    then have "pe_delivered p' @ pending_rest pending' = pe_delivered q @ drop n (pending_rest pending)
        \<and> length (pending_rest pending') \<le> length (drop n (pending_rest pending))
        \<and> pe_received p' = pe_received q \<and> pe_write_shut p' = pe_write_shut q \<and> r \<noteq> Panic"
      using "1.hyps" [OF _ w(1) [symmetric, unfolded pending_rest_def]] w(2,3) by simp
    then show ?thesis
      using w(1) by (auto simp: peer_write_def min_def split: list.splits sum.splits if_splits)
  next
    case False
    then show ?thesis
      using "1.prems"
      by (auto simp: pump_write.simps [of progressed] peer_write_def pending_rest_def [symmetric]
          split: list.splits sum.splits if_splits) (auto simp: min_def split: if_splits)
  qed
qed

text \<open>
  Nothing is lost, repeated or reordered: what was received from one peer is what the other has taken and
  what is pending, at most a buffer; the counters count what was received; and the remote stream is
  half-closed only after the client's end of stream, with nothing pending.
\<close>

definition relay_inv :: "relay_state \<Rightarrow> bool" where
  "relay_inv s \<longleftrightarrow>
     pe_delivered (rl_remote s) @ pending_rest (rl_upload s) = pe_received (rl_client s)
   \<and> pe_delivered (rl_client s) @ pending_rest (rl_download s) = pe_received (rl_remote s)
   \<and> length (pending_rest (rl_upload s)) \<le> relay_buffer_size
   \<and> length (pending_rest (rl_download s)) \<le> relay_buffer_size
   \<and> rl_client_to_remote_bytes s = of_nat (length (pe_received (rl_client s)))
   \<and> rl_remote_to_client_bytes s = of_nat (length (pe_received (rl_remote s)))
   \<and> (rl_remote_first_byte_after s = None \<longleftrightarrow> pe_received (rl_remote s) = [])
   \<and> (pe_write_shut (rl_remote s) \<longrightarrow> rl_client_eof s \<and> pending_rest (rl_upload s) = [])"

abbreviation keeps_relay :: "(relay_state, 'e, 'a) op \<Rightarrow> bool" where
  "keeps_relay m \<equiv> triple relay_inv m (\<lambda>r s. relay_inv s \<and> r \<noteq> Panic)"

lemma relay_inv_upload_read:
  assumes "relay_inv s" and "pe_received client = pe_received (rl_client s) @ bs"
    and "pending_rest upload = pending_rest (rl_upload s) @ bs" and "length bs \<le> relay_buffer_size"
    and "bs \<noteq> [] \<longrightarrow> pending_rest (rl_upload s) = [] \<and> \<not> rl_client_eof s" and "pe_delivered client = pe_delivered (rl_client s)"
  shows "relay_inv (s\<lparr>rl_upload := upload, rl_client := client,
    rl_client_to_remote_bytes := rl_client_to_remote_bytes s + of_nat (length bs)\<rparr>)"
  using assms unfolding relay_inv_def by (cases "bs = []") simp_all

lemma relay_inv_download_read:
  assumes "relay_inv s" and "pe_received remote = pe_received (rl_remote s) @ bs"
    and "pending_rest download = pending_rest (rl_download s) @ bs" and "length bs \<le> relay_buffer_size"
    and "bs \<noteq> [] \<longrightarrow> pending_rest (rl_download s) = [] \<and> first \<noteq> None"
    and "bs = [] \<longrightarrow> first = rl_remote_first_byte_after s"
    and "pe_delivered remote = pe_delivered (rl_remote s)" and "pe_write_shut remote = pe_write_shut (rl_remote s)"
  shows "relay_inv (s\<lparr>rl_download := download, rl_remote := remote, rl_remote_first_byte_after := first, rl_ticks := ticks,
    rl_remote_to_client_bytes := rl_remote_to_client_bytes s + of_nat (length bs)\<rparr>)"
  using assms unfolding relay_inv_def by (cases "bs = []") simp_all

lemma relay_inv_unaffected [simp]:
  "relay_inv (s\<lparr>rl_remote_eof := b\<rparr>) \<longleftrightarrow> relay_inv s"
  "relay_inv (s\<lparr>rl_last_remote_byte_at := now\<rparr>) \<longleftrightarrow> relay_inv s"
  "relay_inv (s\<lparr>rl_ticks := n\<rparr>) \<longleftrightarrow> relay_inv s"
  "relay_inv (s\<lparr>rl_client := (rl_client s)\<lparr>pe_write_shut := b\<rparr>\<rparr>) \<longleftrightarrow> relay_inv s"
  "relay_inv s \<Longrightarrow> relay_inv (s\<lparr>rl_client_eof := True\<rparr>)"
  by (simp_all add: relay_inv_def)

lemma relay_read_client_inv: "keeps_relay relay_read_client"
proof (rule tripleI)
  fix s q s' assume inv: "relay_inv s" and q: "relay_read_client s = (q, s')"
  obtain r upload client where p: "pump_read (rl_client_eof s) (rl_upload s, rl_client s) = (r, upload, client)"
    by (metis prod_cases3)
  obtain bs where bs: "pe_received client = pe_received (rl_client s) @ bs" "pending_rest upload = pending_rest (rl_upload s) @ bs"
      "length bs \<le> relay_buffer_size" "bs \<noteq> [] \<longrightarrow> pending_rest (rl_upload s) = [] \<and> \<not> rl_client_eof s"
      "pe_delivered client = pe_delivered (rl_client s)"
    and n: "length bs = bytes_read r" "r \<noteq> Panic"
    by (rule pump_read_appends [OF p])
  have i: "relay_inv (s\<lparr>rl_upload := upload, rl_client := client,
      rl_client_to_remote_bytes := rl_client_to_remote_bytes s + of_nat (bytes_read r)\<rparr>)"
    using relay_inv_upload_read [OF inv bs] unfolding n .
  then show "relay_inv s' \<and> q \<noteq> Panic"
    using q p n by (cases r rule: bytes_read_cases) (clarsimp simp: relay_read_client_def client_to_upload_def sbind_def)+
qed

lemma relay_read_remote_inv: "keeps_relay (relay_read_remote clock started)"
proof (rule tripleI)
  fix s q s' assume inv: "relay_inv s" and q: "relay_read_remote clock started s = (q, s')"
  obtain r download remote where p: "pump_read (rl_remote_eof s) (rl_download s, rl_remote s) = (r, download, remote)"
    by (metis prod_cases3)
  obtain bs where bs: "pe_received remote = pe_received (rl_remote s) @ bs" "pending_rest download = pending_rest (rl_download s) @ bs"
      "length bs \<le> relay_buffer_size" "bs \<noteq> [] \<longrightarrow> pending_rest (rl_download s) = [] \<and> \<not> rl_remote_eof s"
      "pe_delivered remote = pe_delivered (rl_remote s)" "pe_write_shut remote = pe_write_shut (rl_remote s)"
    and n: "length bs = bytes_read r" "r \<noteq> Panic" "r \<noteq> Ok (PumpBytes 0)"
    by (rule pump_read_appends [OF p])
  have i: "relay_inv (s\<lparr>rl_download := download, rl_remote := remote, rl_remote_first_byte_after := first, rl_ticks := ticks,
      rl_remote_to_client_bytes := rl_remote_to_client_bytes s + of_nat (bytes_read r)\<rparr>)"
    if "0 < bytes_read r \<longrightarrow> first \<noteq> None" "bytes_read r = 0 \<longrightarrow> first = rl_remote_first_byte_after s" for first ticks
    using relay_inv_download_read [OF inv bs(1-3) _ _ bs(5,6), of first] bs(4) that n by (cases "bs = []") auto
  show "relay_inv s' \<and> q \<noteq> Panic"
  proof (cases "\<exists>n. r = Ok (PumpBytes n)")
    case True
    then obtain m where r: "r = Ok (PumpBytes m)" "0 < m"
      using n by blast
    note run = relay_read_remote_def record_remote_bytes_def tick_def remote_to_download_def sbind_def ret_def
    show ?thesis
    proof (cases "rl_remote_first_byte_after s")
      case None
      with i [of "Some (saturating_duration_since (clock (rl_ticks s)) started)" "Suc (Suc (rl_ticks s))"] r q p
      show ?thesis by (clarsimp simp: run)
    next
      case (Some t)
      have "rl_remote_first_byte_after s \<noteq> None"
        using Some by simp
      with i [of "rl_remote_first_byte_after s" "Suc (rl_ticks s)"] r
      have "relay_inv (s\<lparr>rl_download := download, rl_remote := remote, rl_ticks := Suc (rl_ticks s),
          rl_remote_to_client_bytes := rl_remote_to_client_bytes s + of_nat m\<rparr>)"
        by simp
      then show ?thesis
        using r q p Some by (clarsimp simp: run)
    qed
  next
    case False
    with i [of "rl_remote_first_byte_after s" "rl_ticks s"] q p n show ?thesis
      by (cases r rule: bytes_read_cases) (clarsimp simp: relay_read_remote_def remote_to_download_def sbind_def ret_def)+
  qed
qed

lemma upload_to_remote_inv: "keeps_relay (upload_to_remote (pump_write b))"
proof (rule tripleI)
  fix s q s' assume inv: "relay_inv s" and q: "upload_to_remote (pump_write b) s = (q, s')"
  obtain r upload remote where p: "pump_write b (rl_upload s, rl_remote s) = (r, upload, remote)"
    by (metis prod_cases3)
  from pump_write_moves [OF p] show "relay_inv s' \<and> q \<noteq> Panic"
    using inv q p by (auto simp: upload_to_remote_def relay_inv_def)
qed

lemma download_to_client_inv: "keeps_relay (download_to_client (pump_write b))"
proof (rule tripleI)
  fix s q s' assume inv: "relay_inv s" and q: "download_to_client (pump_write b) s = (q, s')"
  obtain r download client where p: "pump_write b (rl_download s, rl_client s) = (r, download, client)"
    by (metis prod_cases3)
  from pump_write_moves [OF p] show "relay_inv s' \<and> q \<noteq> Panic"
    using inv q p by (auto simp: download_to_client_def relay_inv_def)
qed

lemma relay_shut_both_inv [simp]: "relay_inv (relay_shut_both s) \<longleftrightarrow> relay_inv s"
  by (simp add: relay_inv_def relay_shut_both_def)

lemma relay_half_close_inv: "relay_inv s \<Longrightarrow> relay_inv (relay_half_close s)"
  by (auto simp: relay_inv_def relay_half_close_def)

lemma relay_timeouts_inv: "keeps_relay (relay_timeouts clock options started)"
  by (rule tripleI)
    (auto simp: relay_timeouts_def tick_def op_simps relay_inv_def relay_shut_both_def split: option.splits if_splits)

lemma keeps_relay_sbind:
  assumes "keeps_relay m" and "\<And>x. triple relay_inv (f x) Q" and "\<And>e s. relay_inv s \<Longrightarrow> Q (Err e) s"
  shows "triple relay_inv (sbind m f) Q"
  by (rule triple_sbind [OF assms(1)]) (use assms(2,3) in \<open>simp_all\<close>)

lemma relay_close_or_wait_inv:
  "triple relay_inv (relay_close_or_wait clock options started)
     (\<lambda>r s. relay_inv s \<and> r \<noteq> Panic \<and> (r = Ok True \<longrightarrow> pending_rest (rl_download s) = []))"
proof (rule tripleI)
  fix s r s' assume inv: "relay_inv s" and r: "relay_close_or_wait clock options started s = (r, s')"
  let ?s = "relay_half_close s"
  obtain q t where q: "relay_timeouts clock options started ?s = (q, t)"
    by fastforce
  have "relay_inv ?s" "relay_inv t" "q \<noteq> Panic"
    using relay_half_close_inv [OF inv] tripleD [OF relay_timeouts_inv _ q] by simp_all
  then show "relay_inv s' \<and> r \<noteq> Panic \<and> (r = Ok True \<longrightarrow> pending_rest (rl_download s') = [])"
    using r q by (cases q) (auto simp: relay_close_or_wait_def Let_def sbind_def ret_def split: if_splits)
qed

lemma relay_round_inv:
  "triple relay_inv (relay_round clock options started)
     (\<lambda>r s. relay_inv s \<and> r \<noteq> Panic \<and> (r = Ok True \<longrightarrow> pending_rest (rl_download s) = []))"
  unfolding relay_round_def
  by (intro keeps_relay_sbind relay_read_client_inv relay_read_remote_inv upload_to_remote_inv download_to_client_inv
      relay_close_or_wait_inv) simp_all

lemma relay_loop_inv:
  "relay_inv s \<Longrightarrow> relay_loop rounds clock options started s = (r, s') \<Longrightarrow>
     relay_inv s' \<and> r \<noteq> Some Panic \<and> (r = Some (Ok ()) \<longrightarrow> pending_rest (rl_download s') = [])"
proof (induction rounds arbitrary: s)
  case (Suc rounds)
  obtain q t where q: "relay_round clock options started s = (q, t)"
    by fastforce
  with tripleD [OF relay_round_inv Suc.prems(1)]
  have t: "relay_inv t" "q \<noteq> Panic" "q = Ok True \<longrightarrow> pending_rest (rl_download t) = []"
    by blast+
  show ?case
  proof (cases "q = Ok False")
    case True
    then show ?thesis
      using Suc.IH [OF t(1)] Suc.prems(2) q by simp
  next
    case False
    then show ?thesis
      using t Suc.prems(2) q by (cases q) (auto simp: relay_shut_both_def relay_inv_def)
  qed
qed auto

text \<open>
  As long as no byte has come from the remote stream, a round reads the clock once, in its timeout check.
\<close>

definition silent :: "duration option \<Rightarrow> nat \<Rightarrow> relay_state \<Rightarrow> bool" where
  "silent first ticks s \<longleftrightarrow> (rl_remote_first_byte_after s = None \<longrightarrow> first = None \<and> rl_ticks s = ticks)"

lemma relay_read_client_silent: "triple (silent first ticks) relay_read_client (\<lambda>_. silent first ticks)"
  by (rule tripleI) (auto simp: relay_read_client_def client_to_upload_def silent_def sbind_def
      split: prod.splits outcome.splits pump_result.splits)

lemma relay_read_remote_silent: "triple (silent first ticks) (relay_read_remote clock started) (\<lambda>_. silent first ticks)"
  by (rule tripleI) (auto simp: relay_read_remote_def remote_to_download_def record_remote_bytes_def tick_def silent_def
      sbind_def ret_def split: prod.splits outcome.splits pump_result.splits if_splits)

lemma upload_to_remote_silent: "triple (silent first ticks) (upload_to_remote m) (\<lambda>_. silent first ticks)"
  by (rule tripleI) (auto simp: upload_to_remote_def silent_def split: prod.splits)

lemma download_to_client_silent: "triple (silent first ticks) (download_to_client m) (\<lambda>_. silent first ticks)"
  by (rule tripleI) (auto simp: download_to_client_def silent_def split: prod.splits)

abbreviation waiting :: "(nat \<Rightarrow> instant) \<Rightarrow> instant \<Rightarrow> duration \<Rightarrow> duration option \<Rightarrow> nat \<Rightarrow> (relay_error, bool) outcome \<Rightarrow> relay_state \<Rightarrow> bool" where
  "waiting clock started timeout first ticks r s \<equiv>
     r = Ok False \<longrightarrow> silent first (Suc ticks) s
       \<and> (rl_remote_first_byte_after s = None \<longrightarrow> saturating_duration_since (clock ticks) started < timeout)"

lemma relay_close_or_wait_silent:
  assumes "ro_first_byte_timeout options = Some timeout"
  shows "triple (silent first ticks) (relay_close_or_wait clock options started) (waiting clock started timeout first ticks)"
  by (rule tripleI) (use assms in \<open>auto simp: relay_close_or_wait_def relay_half_close_def relay_timeouts_def tick_def
      silent_def sbind_def ret_def Let_def split: prod.splits outcome.splits option.splits if_splits\<close>)

lemma relay_round_silent:
  assumes "ro_first_byte_timeout options = Some timeout"
  shows "triple (silent first ticks) (relay_round clock options started) (waiting clock started timeout first ticks)"
  unfolding relay_round_def
  by (intro triple_sbind [OF relay_read_client_silent] triple_sbind [OF relay_read_remote_silent]
      triple_sbind [OF upload_to_remote_silent] triple_sbind [OF download_to_client_silent]
      relay_close_or_wait_silent [OF assms]) simp_all

lemma relay_loop_silent:
  assumes "ro_first_byte_timeout options = Some timeout" and "relay_loop rounds clock options started s = (None, s')"
    and "rl_remote_first_byte_after s' = None" and "0 < rounds"
  shows "rl_remote_first_byte_after s = None
    \<and> saturating_duration_since (clock (rl_ticks s + rounds - 1)) started < timeout"
  using assms(2-)
proof (induction rounds arbitrary: s)
  case (Suc rounds)
  then obtain t where t: "relay_round clock options started s = (Ok False, t)"
      "relay_loop rounds clock options started t = (None, s')"
    by (auto split: prod.splits outcome.splits bool.splits)
  have "silent (rl_remote_first_byte_after s) (rl_ticks s) s" by (simp add: silent_def)
  from tripleD [OF relay_round_silent [OF assms(1)] this t(1)]
  have w: "silent (rl_remote_first_byte_after s) (Suc (rl_ticks s)) t"
    "rl_remote_first_byte_after t = None \<longrightarrow> saturating_duration_since (clock (rl_ticks s)) started < timeout"
    by simp_all
  show ?case
  proof (cases "rounds = 0")
    case True
    then show ?thesis using t w Suc.prems by (auto simp: silent_def)
  next
    case False
    then show ?thesis using Suc.IH [OF t(2) Suc.prems(2)] w by (auto simp: silent_def)
  qed
qed simp

section \<open>Properties\<close>

lemmas relay_eval = relay_owned_bidirectional_with_options_def relay_start_def relay_round_def relay_read_client_def
  relay_read_remote_def client_to_upload_def remote_to_download_def upload_to_remote_def download_to_client_def
  pump_read_def peer_read_def relay_buffer_size_def pending_set_def relay_close_or_wait_def relay_half_close_def
  relay_shut_both_def relay_stats_of_def sbind_def ret_def

definition peer_fresh :: "peer \<Rightarrow> bool" where
  "peer_fresh p \<longleftrightarrow> pe_received p = [] \<and> pe_delivered p = [] \<and> \<not> pe_write_shut p"

definition scripted_peer :: "(io_error + bytes) list \<Rightarrow> (io_error + nat) list \<Rightarrow> peer" where
  "scripted_peer reads writes = \<lparr>pe_nonblocking_error = None, pe_reads = reads, pe_writes = writes, pe_received = [],
     pe_delivered = [], pe_write_shut = False, pe_shut = False\<rparr>"

lemma scripted_peer_fresh [simp]: "peer_fresh (scripted_peer reads writes)"
  by (simp add: scripted_peer_def peer_fresh_def)

lemma relay_start_inv: "peer_fresh client \<Longrightarrow> peer_fresh remote \<Longrightarrow> relay_inv (relay_start clock client remote)"
  by (simp add: relay_inv_def relay_start_def peer_fresh_def)

lemma relay_owned_cases:
  assumes "relay_owned_bidirectional_with_options rounds clock options client remote = (r, s)"
  obtains e where "r = Some (Err e)" and "s = relay_start clock client remote"
  | q where "relay_loop rounds clock options (clock 0) (relay_start clock client remote) = (q, s)"
    and "r = None \<longleftrightarrow> q = None" and "r = Some Panic \<longleftrightarrow> q = Some Panic"
    and "\<And>stats. r = Some (Ok stats) \<Longrightarrow> q = Some (Ok ()) \<and> stats = relay_stats_of s"
proof (cases "pe_nonblocking_error client = None \<and> pe_nonblocking_error remote = None")
  case True
  obtain q t where q: "relay_loop rounds clock options (clock 0) (relay_start clock client remote) = (q, t)"
    by fastforce
  with True assms show ?thesis
    by (intro that(2) [of q]) (auto simp: relay_owned_bidirectional_with_options_def Let_def split: option.splits outcome.splits)
next
  case False
  with assms have "(\<exists>e. r = Some (Err e)) \<and> s = relay_start clock client remote"
    by (auto simp: relay_owned_bidirectional_with_options_def Let_def split: option.splits)
  with that(1) show ?thesis by blast
qed

lemma relay_result_inv:
  assumes "peer_fresh client" "peer_fresh remote"
    and "relay_owned_bidirectional_with_options rounds clock options client remote = (r, s)"
  shows "relay_inv s \<and> r \<noteq> Some Panic
    \<and> (\<forall>stats. r = Some (Ok stats) \<longrightarrow> pending_rest (rl_download s) = [] \<and> stats = relay_stats_of s)"
proof (cases rule: relay_owned_cases [OF assms(3)])
  case 1
  then show ?thesis by (simp add: relay_start_inv assms)
next
  case (2 q)
  from relay_loop_inv [OF relay_start_inv [OF assms(1,2)] "2"(1)] "2"(2-) show ?thesis by blast
qed

text \<open>
  C38. The relay moves bytes faithfully, whatever the two sockets do: at every moment what one side has been
  given is a prefix of what the other side sent, in order and without repetitions, and at most one buffer of
  16384 bytes is under way in each direction. The write side of the remote stream is closed only after all
  that the client sent was written to it. The relay never panics, and when it reports success the client
  has everything that was read from the remote stream and the statistics are the lengths of what was read.
\<close>

theorem relay_moves_bytes:
  assumes "peer_fresh client" "peer_fresh remote"
    and "relay_owned_bidirectional_with_options rounds clock options client remote = (r, s)"
  shows "(\<exists>rest. pe_received (rl_client s) = pe_delivered (rl_remote s) @ rest \<and> length rest \<le> 16384)
    \<and> (\<exists>rest. pe_received (rl_remote s) = pe_delivered (rl_client s) @ rest \<and> length rest \<le> 16384)
    \<and> (pe_write_shut (rl_remote s) \<longrightarrow> pe_delivered (rl_remote s) = pe_received (rl_client s))
    \<and> r \<noteq> Some Panic
    \<and> (\<forall>stats. r = Some (Ok stats) \<longrightarrow> pe_delivered (rl_client s) = pe_received (rl_remote s)
        \<and> rs_remote_to_client_bytes stats = of_nat (length (pe_received (rl_remote s)))
        \<and> rs_client_to_remote_bytes stats = of_nat (length (pe_received (rl_client s))))"
proof -
  note result = relay_result_inv [OF assms]
  then have inv: "relay_inv s" by simp
  have "pe_received (rl_client s) = pe_delivered (rl_remote s) @ pending_rest (rl_upload s)"
      "pe_received (rl_remote s) = pe_delivered (rl_client s) @ pending_rest (rl_download s)"
      "length (pending_rest (rl_upload s)) \<le> 16384" "length (pending_rest (rl_download s)) \<le> 16384"
      "pe_write_shut (rl_remote s) \<longrightarrow> pending_rest (rl_upload s) = []"
    using inv by (simp_all add: relay_inv_def relay_buffer_size_def)
  moreover have "rs_remote_to_client_bytes (relay_stats_of s) = of_nat (length (pe_received (rl_remote s)))"
      "rs_client_to_remote_bytes (relay_stats_of s) = of_nat (length (pe_received (rl_client s)))"
    using inv by (simp_all add: relay_inv_def relay_stats_of_def)
  ultimately show ?thesis
    using result by (metis append_Nil2)
qed

theorem relay_moves_bytes_witness:
  "\<exists>r s. relay_owned_bidirectional_with_options 9 (\<lambda>n. n) \<lparr>ro_first_byte_timeout = None, ro_idle_timeout = None\<rparr>
      (scripted_peer [Inr [1, 2], Inr []] [Inr 1, Inr 1]) (scripted_peer [Inr [7], Inr []] [Inr 1, Inl would_block, Inr 1]) = (r, s)
    \<and> (\<exists>rest. pe_received (rl_client s) = pe_delivered (rl_remote s) @ rest) \<and> r \<noteq> Some Panic"
  using relay_moves_bytes [OF scripted_peer_fresh [of "[Inr [1, 2], Inr []]" "[Inr 1, Inr 1]"]
      scripted_peer_fresh [of "[Inr [7], Inr []]" "[Inr 1, Inl would_block, Inr 1]"]]
  by (metis surj_pair)

text \<open>
  C39. A relay to a remote stream that stays silent ends. With a timeout for the first byte and a clock that
  advances by at least one unit between two readings, the loop has returned, with success or with an error,
  after as many rounds as the timeout has units, however much the client sends in the meantime.
\<close>

theorem relay_silent_remote_ends:
  assumes "peer_fresh client" "peer_fresh remote" and "\<And>n. clock 0 + n \<le> clock n"
    and "ro_first_byte_timeout options = Some timeout" and "timeout < rounds"
    and "relay_owned_bidirectional_with_options rounds clock options client remote = (r, s)"
    and "pe_received (rl_remote s) = []"
  shows "r \<noteq> None"
proof
  assume "r = None"
  then have l: "relay_loop rounds clock options (clock 0) (relay_start clock client remote) = (None, s)"
    by (cases rule: relay_owned_cases [OF assms(6)]) auto
  have "rl_remote_first_byte_after s = None"
    using relay_result_inv [OF assms(1,2,6)] assms(7) by (simp add: relay_inv_def)
  from relay_loop_silent [OF assms(4) l this] assms(5) have "clock rounds - clock 0 < timeout"
    by (simp add: relay_start_def saturating_duration_since_def)
  with assms(3) [of rounds] assms(5) show False by simp
qed

theorem relay_silent_remote_ends_witness:
  "fst (relay_owned_bidirectional_with_options 2 (\<lambda>n. n) \<lparr>ro_first_byte_timeout = Some 1, ro_idle_timeout = None\<rparr>
      (scripted_peer [Inr [1]] []) (scripted_peer [] [Inr 1])) \<noteq> None"
proof -
  let ?run = "relay_owned_bidirectional_with_options 2 (\<lambda>n. n) \<lparr>ro_first_byte_timeout = Some 1, ro_idle_timeout = None\<rparr>
      (scripted_peer [Inr [1]] []) (scripted_peer [] [Inr 1])"
  have "pe_received (rl_remote (snd ?run)) = []"
    by (simp add: numeral_2_eq_2 scripted_peer_def relay_eval pump_write.simps peer_write_def pending_rest_def pending_advance_def
        pending_new_def relay_timeouts_def tick_def saturating_duration_since_def would_block_def is_nonblocking_pause_def)
  then show ?thesis
    using relay_silent_remote_ends [of "scripted_peer [Inr [1]] []" "scripted_peer [] [Inr 1]" "\<lambda>n. n"
        "\<lparr>ro_first_byte_timeout = Some 1, ro_idle_timeout = None\<rparr>" 1 2 "fst ?run" "snd ?run"] by simp
qed

lemma pump_write_blocked: "pe_writes p = [] \<Longrightarrow> pump_write b (pending, p) = (Ok b, (pending, p))"
  by (simp add: pump_write.simps peer_write_def is_nonblocking_pause_def would_block_def)

lemma pump_write_empty: "pump_write b (pending_new, p) = (Ok b, (pending_new, p))"
  by (simp add: pump_write.simps)

text \<open>
  C40. What the client sent can be lost although it is counted as sent. When the remote stream ends while
  bytes of the client still wait for it to take them, the relay stops with success, none of these bytes has
  been written, and the statistics report all of them as transferred.
\<close>

theorem pending_upload_dropped:
  assumes "bs \<noteq> []" "length bs \<le> 16384"
  shows "\<exists>stats s. relay_owned_bidirectional_with_options 1 clock options (scripted_peer [Inr bs] []) (scripted_peer [Inr []] [])
      = (Some (Ok stats), s)
    \<and> rs_client_to_remote_bytes stats = of_nat (length bs) \<and> pe_delivered (rl_remote s) = []"
proof -
  have "pending_rest \<lparr>pw_bytes = bs, pw_offset = 0\<rparr> = bs" by (simp add: pending_rest_def)
  then show ?thesis
    using assms
    by (simp add: scripted_peer_def relay_eval pump_write_blocked pump_write_empty)
qed

theorem pending_upload_dropped_witness:
  "\<exists>stats s. relay_owned_bidirectional_with_options 1 (\<lambda>n. n) \<lparr>ro_first_byte_timeout = Some 30, ro_idle_timeout = Some 300\<rparr>
      (scripted_peer [Inr [1, 2, 3]] []) (scripted_peer [Inr []] []) = (Some (Ok stats), s)
    \<and> rs_client_to_remote_bytes stats = 3 \<and> pe_delivered (rl_remote s) = []"
  using pending_upload_dropped [of "[1, 2, 3]" "\<lambda>n. n" "\<lparr>ro_first_byte_timeout = Some 30, ro_idle_timeout = Some 300\<rparr>"] by simp

end
