(* ===== verification/Spec2Isabelle.thy ===== *)
theory Spec2Isabelle
  imports Keli_Tun_Loop_Facts Keli_Outbound Keli_Cli_Routes Keli_Pump
begin

text \<open>
  A verification library of the Keli native client, a proxy client written in Rust. Paths below are relative
  to \<open>src/crates\<close>.

  \<^bold>\<open>The program.\<close> Traffic enters the client through a TUN device (\<open>keli-net-core/src/tun.rs\<close>) or through a
  local proxy that speaks SOCKS5 and HTTP (\<open>socks5.rs\<close>, \<open>http_connect.rs\<close>, \<open>http_proxy.rs\<close>). The route engine
  (\<open>lib.rs\<close>) decides for every destination whether it is blocked, answered locally, dialled directly or sent
  through an outbound. Outbounds are made from the profiles of a subscription (\<open>keli-protocol/src/lib.rs\<close>),
  kept in the registry of \<open>direct.rs\<close>, and reach their server by way of the DNS engine (\<open>dns.rs\<close>) and a
  connector. Streams are then copied by the relay of \<open>direct.rs\<close>, and every connection leaves a report
  (\<open>metrics.rs\<close>) in the shared counters of \<open>keli-cli/src/lib.rs\<close>, which also builds routes and runtime from
  the command line.

  \<^bold>\<open>Conventions.\<close> Machine integers are words of their width, \<open>usize\<close> is \<open>nat\<close>, a byte string is a list of
  8-bit words and a string the list of its UTF-8 bytes. A call ends with \<open>Ok\<close>, \<open>Err\<close> or \<open>Panic\<close>; a method on
  a mutable receiver is an \<open>op\<close>, which returns the state beside the outcome also when it fails, and is
  verified call by call with triples (\<open>Keli_Prelude\<close>, \<open>Keli_Effects\<close>). What the program takes from outside is
  a parameter: the TUN device, the relays and resolver behind it, sockets, clocks, TLS and the other
  transport handshakes (\<open>network\<close> of \<open>Keli_Connect\<close>), SHA-224, base64, and the parsers of YAML, JSON and URLs
  (\<open>external_parsers\<close> of \<open>Keli_Subscription\<close>). A hash map is an association list with distinct keys; the
  interface the code relies on is the locale \<open>hash_map\<close>.

  \<^bold>\<open>Theories.\<close>
  \<^item> \<open>Keli_Text\<close>, \<open>Keli_Strings\<close>, \<open>Keli_Text_Facts\<close>, \<open>Keli_Net_Addr\<close>: the functions of the Rust standard library
    that the program uses on strings and addresses; an address is read back from its text.
  \<^item> \<open>Keli_Route\<close>, \<open>Keli_Dns\<close>: the route engine, and the DNS engine with its wire format, cache and policies.
    Rules decide in order; answers match their query; the leak-prevention policy keeps the resolver idle.
  \<^item> \<open>Keli_Tun_Packet\<close>, \<open>Keli_Tun_Build\<close>: packet parsers and builders. Parsing is total, what is built parses
    back, and its checksums verify (locale \<open>packet_codec\<close>, interpreted for TCP and UDP).
  \<^item> \<open>Keli_Tun_Session\<close>, \<open>Keli_Tun_Session_Facts\<close>: the session table (\<open>TunTcpSessionTable\<close>); its invariant over
    any sequence of calls (locale \<open>event_system\<close>), isolation of sessions, opening, pruning, retransmission.
  \<^item> \<open>Keli_Tun_Step\<close>, \<open>Keli_Tun_Step_Facts\<close>, \<open>Keli_Tun_Stream\<close>: processing of one segment
    (\<open>process_tun_tcp_session_segment\<close>) against any relay whose methods return (locale \<open>returning_relay\<close>): the
    invariant, the possible errors, replies to the sender, and in-order delivery of the client's stream.
  \<^item> \<open>Keli_Tun_Summary\<close>, \<open>Keli_Tun_Loop\<close>, \<open>Keli_Tun_Loop_Facts\<close>: events, summaries, DNS hijack, UDP relay and the
    packet loops. The loop only answers, returns unless the device fails, and contains blocked packets.
  \<^item> \<open>Keli_Protocol\<close>, \<open>Keli_Protocol_Wire\<close>, \<open>Keli_Wire_Facts\<close>: profiles, \<open>OutboundProfile::validate\<close>, and the
    headers and messages of VLESS, Trojan, Shadowsocks, HY2 and TUIC, with their round trips.
  \<^item> \<open>Keli_Stream\<close>, \<open>Keli_Socks5\<close>, \<open>Keli_Http_Proxy\<close>, \<open>Keli_Http_Facts\<close>, \<open>Keli_Http_Rewrite\<close>: datagrams over
    streams, and the SOCKS5 and HTTP clients and inbounds, which understand each other within fixed bounds.
  \<^item> \<open>Keli_Subscription\<close>, \<open>Keli_Subscription_Facts\<close>, \<open>Keli_Registry\<close>: the subscription parser and the registry.
    Profiles are valid, entries are accounted for, TLS is verified unless an entry asks otherwise, and a tag
    leads to its profile.
  \<^item> \<open>Keli_Connect\<close>, \<open>Keli_Outbound\<close>: the direct connectors, the SOCKS5 and HTTP outbounds, and the twenty-two
    Trojan and VLESS outbounds. All of these agree with one uniform connector, the target of a proxied
    connection stays remote, and the leak-prevention policy holds for connections.
  \<^item> \<open>Keli_Metrics\<close>, \<open>Keli_Cli_Routes\<close>: reports and counters, which refine the list of all reports; block rules of
    the command line, routes and the runtime, which serves every destination that is not blocked.
  \<^item> \<open>Keli_Pump\<close>: the relay loop \<open>relay_owned_bidirectional_with_options\<close>. Bytes are moved in order, without
    loss while both sides are open, within one buffer per direction, and a silent remote stream is given up.

  \<^bold>\<open>Bounds and fuel.\<close> The packet loops recurse over the packet limit the source itself has; header readers
  recurse over the limit of the header, and writers over the bytes that are left. Only the relay loop of
  \<open>Keli_Pump\<close> is unbounded in the source: it takes a number of rounds and is \<open>None\<close> while it is still running,
  its safety theorem holds for every number of rounds, and a separate theorem gives a number of rounds after
  which it has returned. Counters of the loop summary are natural numbers; those of the metrics saturate at
  their width as in the source.

  \<^bold>\<open>Not modelled.\<close> The encrypted exchanges of VMess, Shadowsocks, AnyTLS, HY2, TUIC, Mieru and Naive (\<open>direct.rs\<close>,
  \<open>quic.rs\<close>, \<open>mieru.rs\<close>, \<open>naive.rs\<close>) rest on ciphers, TLS and asynchronous runtimes of other crates; the dispatch
  takes them as a parameter. The WebSocket, gRPC and HTTP/2 transports are handshakes of the network
  parameter. \<open>relay_outbound_bidirectional_with_options\<close> copies with two threads. The listeners, worker
  threads, argument parser, smoke tests and printed reports of \<open>keli-cli\<close> are threads, sockets and text. The
  client runtime of \<open>keli-client-core\<close> is a layer above the modelled parts. \<open>keli-desktop\<close> and
  \<open>keli-desktop-shell\<close> are a user interface, \<open>keli-platform\<close> calls the operating system. Sleeps, flushes and
  the locks around shared state have no counterpart.
\<close>

section \<open>Properties that span components\<close>

text \<open>C17. A packet captured by the TUN device reaches the address it was sent to: the target that the
  planner writes as text resolves, through the DNS engine, to exactly the destination address and port of
  the packet, without the resolver and under every local resolution policy.\<close>

theorem captured_target_resolves:
  assumes "destination_outbound_target flow = Some target"
    and "address_family_matches (flow_destination_ip flow) (dns_family e)"
  shows "dns_resolve res (ot_host target) (ot_port target) now e
      = (Ok [with_port (ot_port target) (flow_destination_ip flow)], e)
    \<and> flow_destination_port flow = Some (ot_port target)"
  using assms parse_show_ip [of "flow_destination_ip flow"]
  by (auto simp: destination_outbound_target_def outbound_target_new_def dns_resolve_literal
      normalize_host_show_ip)

theorem captured_target_resolves_witness:
  "dns_resolve counting_resolver (show_ip (V4 0x08080808)) 443 3 (sample_engine PreventPublicLeak)
    = (Ok [with_port 443 (V4 0x08080808)], sample_engine PreventPublicLeak)"
proof -
  have "destination_outbound_target (sample_flow Tcp) = Some \<lparr>ot_host = show_ip (V4 0x08080808), ot_port = 443\<rparr>"
    by (simp add: destination_outbound_target_def outbound_target_new_def sample_flow_def del: show_ip.simps)
  moreover have "flow_destination_ip (sample_flow Tcp) = V4 0x08080808" by (simp add: sample_flow_def)
  moreover have "dns_family (sample_engine PreventPublicLeak) = DualStack"
    by (simp add: sample_engine_def dns_engine_with_policy_def dns_engine_with_policies_def)
  ultimately show ?thesis
    using captured_target_resolves [of "sample_flow Tcp" _ "sample_engine PreventPublicLeak" counting_resolver 3]
    by (simp del: show_ip.simps)
qed

end
